theory Spec2Isabelle
  imports Complex_Main "HOL-Library.Sublist" "HOL-Library.Multiset"
begin

section \<open>Geometry: bounding boxes and page rotation (template\_utils.py)\<close>

text \<open>
  A bounding box is the Python 4-tuple \<open>(x0, y0, x1, y1)\<close>. Coordinates are Python floats;
  they are modelled as rationals. Every comparison the code makes is then exact, and
  the subtractions \<open>pw - x\<close> are the ideal ones.
\<close>

type_synonym bbox = "rat \<times> rat \<times> rat \<times> rat"

text \<open>\<^verbatim>\<open>_normalized_bbox(b)\<close>: \<open>(min(x0,x1), min(y0,y1), max(x0,x1), max(y0,y1))\<close>.\<close>

fun normalized_bbox :: "bbox \<Rightarrow> bbox" where
  "normalized_bbox (x0, y0, x1, y1) = (min x0 x1, min y0 y1, max x0 x1, max y0 y1)"

text \<open>
  \<^verbatim>\<open>transform_bbox_for_rotation(bbox, pw, ph, pr)\<close>. The rotation is reduced with Python's
  \<open>%\<close>, which like \<open>mod\<close> on \<open>int\<close> takes the sign of the divisor. The two swaps
  are the statements \<^verbatim>\<open>if nx2 < nx1: nx1, nx2 = nx2, nx1\<close> and the same for \<open>y\<close>. The
  clamp that follows them in the source is commented out.
\<close>

definition transform_bbox_for_rotation :: "bbox \<Rightarrow> rat \<Rightarrow> rat \<Rightarrow> int \<Rightarrow> bbox" where
  "transform_bbox_for_rotation b pw ph pr0 =
     (case b of (x1, y1, x2, y2) \<Rightarrow>
        let pr = pr0 mod 360;
            n = (if pr = 0 then (x1, y1, x2, y2)
                 else if pr = 90 then (y1, pw - x2, y2, pw - x1)
                 else if pr = 180 then (pw - x2, ph - y2, pw - x1, ph - y1)
                 else if pr = 270 then (ph - y2, x1, ph - y1, x2)
                 else (x1, y1, x2, y2))
        in (case n of (nx1, ny1, nx2, ny2) \<Rightarrow>
              let (nx1, nx2) = (if nx2 < nx1 then (nx2, nx1) else (nx1, nx2));
                  (ny1, ny2) = (if ny2 < ny1 then (ny2, ny1) else (ny1, ny2))
              in (nx1, ny1, nx2, ny2)))"

text \<open>
  The table of the specification, written from its words: the box a page rotation \<open>r\<close>
  maps \<open>(x1, y1, x2, y2)\<close> to, before the coordinates are put in order.
\<close>

definition spec_rotation_table :: "int \<Rightarrow> bbox \<Rightarrow> rat \<Rightarrow> rat \<Rightarrow> bbox" where
  "spec_rotation_table r b pw ph =
     (case b of (x1, y1, x2, y2) \<Rightarrow>
        if r = 90 then (y1, pw - x2, y2, pw - x1)
        else if r = 180 then (pw - x2, ph - y2, pw - x1, ph - y1)
        else if r = 270 then (ph - y2, x1, ph - y1, x2)
        else (x1, y1, x2, y2))"

text \<open>A box is in order when its first corner is not beyond its second.\<close>

fun bbox_ordered :: "bbox \<Rightarrow> bool" where
  "bbox_ordered (x1, y1, x2, y2) = (x1 \<le> x2 \<and> y1 \<le> y2)"

section \<open>Strings as Python sees them\<close>

text \<open>
  A Python \<open>str\<close> is a sequence of code points; a \<open>char\<close> stands for a code point below
  256, and the character classes below are Python's own on that range: \<open>str.isspace\<close>
  (also what \<open>str.strip()\<close> removes and what \<open>\s\<close> matches), \<open>str.isalnum\<close> and
  \<open>str.lower\<close>.
\<close>

definition py_isspace :: "char \<Rightarrow> bool" where
  "py_isspace c =
     (let n = (of_char c :: nat)
      in (9 \<le> n \<and> n \<le> 13) \<or> (28 \<le> n \<and> n \<le> 32) \<or> n = 133 \<or> n = 160)"

definition py_isalnum :: "char \<Rightarrow> bool" where
  "py_isalnum c =
     (let n = (of_char c :: nat)
      in (48 \<le> n \<and> n \<le> 57) \<or> (65 \<le> n \<and> n \<le> 90) \<or> (97 \<le> n \<and> n \<le> 122)
         \<or> n = 170 \<or> n = 178 \<or> n = 179 \<or> n = 181 \<or> n = 185 \<or> n = 186
         \<or> (188 \<le> n \<and> n \<le> 190) \<or> (192 \<le> n \<and> n \<le> 214)
         \<or> (216 \<le> n \<and> n \<le> 246) \<or> (248 \<le> n \<and> n \<le> 255))"

definition py_lower_char :: "char \<Rightarrow> char" where
  "py_lower_char c =
     (let n = (of_char c :: nat)
      in if (65 \<le> n \<and> n \<le> 90) \<or> (192 \<le> n \<and> n \<le> 214) \<or> (216 \<le> n \<and> n \<le> 222)
         then char_of (n + 32) else c)"

definition py_lower :: "string \<Rightarrow> string" where
  "py_lower s = map py_lower_char s"

text \<open>\<^verbatim>\<open>s.strip()\<close>: leading and trailing whitespace removed.\<close>

definition py_strip :: "string \<Rightarrow> string" where
  "py_strip s = rev (dropWhile py_isspace (rev (dropWhile py_isspace s)))"

text \<open>\<^verbatim>\<open>s.split(sep)\<close> for a one-character separator: never an empty list.\<close>

fun py_split :: "char \<Rightarrow> string \<Rightarrow> string list" where
  "py_split sep [] = [[]]"
| "py_split sep (c # cs) =
     (if c = sep then [] # py_split sep cs
      else (case py_split sep cs of
              [] \<Rightarrow> [[c]]
            | w # ws \<Rightarrow> (c # w) # ws))"

text \<open>\<^verbatim>\<open>s.replace(old, new)\<close> for one-character \<open>old\<close> and \<open>new\<close>.\<close>

definition py_replace_char :: "char \<Rightarrow> char \<Rightarrow> string \<Rightarrow> string" where
  "py_replace_char old new s = map (\<lambda>c. if c = old then new else c) s"

text \<open>\<^verbatim>\<open>sep.join(xs)\<close>.\<close>

fun py_join :: "string \<Rightarrow> string list \<Rightarrow> string" where
  "py_join sep [] = []"
| "py_join sep [x] = x"
| "py_join sep (x # y # ys) = x @ sep @ py_join sep (y # ys)"

section \<open>Upload names and client identifiers (api\_app.py)\<close>

text \<open>
  \<^verbatim>\<open>_safe_filename(name)\<close>. The backslash is written \<open>CHR 0x5C\<close>. An empty name (or
  \<open>None\<close>) is replaced by \<open>"file.pdf"\<close> before anything else, by \<^verbatim>\<open>name or "file.pdf"\<close>;
  \<^verbatim>\<open>split("/")[-1]\<close> is the last piece of the split.
\<close>

definition keep_chars :: string where
  "keep_chars = ''-_.() ''"

definition safe_filename :: "string \<Rightarrow> string" where
  "safe_filename name0 =
     (let name = last (py_split (CHR ''/'')
                   (py_replace_char (CHR 0x5C) (CHR ''/'')
                      (py_strip (if name0 = [] then ''file.pdf'' else name0))));
          cleaned = py_strip (filter (\<lambda>c. py_isalnum c \<or> c \<in> set keep_chars) name)
      in if cleaned = [] then ''file.pdf'' else cleaned)"

text \<open>The characters \<open>_safe_filename\<close> lets through.\<close>

definition allowed_filename_char :: "char \<Rightarrow> bool" where
  "allowed_filename_char c = (py_isalnum c \<or> c \<in> set keep_chars)"

text \<open>
  The specification's "directory components stripped": the part of a name after its last
  \<open>/\<close> or backslash.
\<close>

definition spec_basename :: "string \<Rightarrow> string" where
  "spec_basename n = rev (takeWhile (\<lambda>c. c \<noteq> CHR ''/'' \<and> c \<noteq> CHR 0x5C) (rev n))"

text \<open>\<^verbatim>\<open>_safe_client_id(s)\<close>.\<close>

definition safe_client_id :: "string \<Rightarrow> string" where
  "safe_client_id s0 =
     (let s = py_replace_char (CHR '' '') (CHR ''_'') (py_lower (py_strip s0));
          r = filter (\<lambda>ch. py_isalnum ch \<or> ch \<in> set ''_-'') s
      in if r = [] then ''template'' else r)"

text \<open>
  The client identifier as the specification words it: the input lower-cased, spaces
  replaced by underscores, every character other than an alphanumeric, \<open>_\<close> or \<open>-\<close>
  removed, and \<open>"template"\<close> when nothing is left.
\<close>

definition client_id_char :: "char \<Rightarrow> bool" where
  "client_id_char c = (py_isalnum c \<or> c = CHR ''_'' \<or> c = CHR ''-'')"

definition spec_safe_client_id :: "string \<Rightarrow> string" where
  "spec_safe_client_id s =
     (let r = filter client_id_char (py_replace_char (CHR '' '') (CHR ''_'') (py_lower s))
      in if r = [] then ''template'' else r)"

section \<open>Template identifiers and versions (template\_utils.py)\<close>

text \<open>
  The character class \<^verbatim>\<open>[A-Za-z0-9_\-]\<close> of \<open>TemplateManager._ID_RE\<close> and of
  \<open>_sanitize\<close>, and the class \<^verbatim>\<open>\d\<close>, which below code point 256 is \<open>0\<close> to \<open>9\<close>.
\<close>

definition is_id_char :: "char \<Rightarrow> bool" where
  "is_id_char c =
     (let n = (of_char c :: nat)
      in (65 \<le> n \<and> n \<le> 90) \<or> (97 \<le> n \<and> n \<le> 122) \<or> (48 \<le> n \<and> n \<le> 57)
         \<or> c = CHR ''_'' \<or> c = CHR ''-'')"

definition is_digit :: "char \<Rightarrow> bool" where
  "is_digit c = (48 \<le> (of_char c :: nat) \<and> (of_char c :: nat) \<le> 57)"

text \<open>
  \<^verbatim>\<open>int(s)\<close> on a string of decimal digits, and the decimal text of a number as an
  f-string prints it. Version numbers are never negative, so they are naturals.
\<close>

definition digit_val :: "char \<Rightarrow> nat" where
  "digit_val c = of_char c - 48"

definition digits_to_nat :: "string \<Rightarrow> nat" where
  "digits_to_nat ds = foldl (\<lambda>a c. 10 * a + digit_val c) 0 ds"

definition digit_char :: "nat \<Rightarrow> char" where
  "digit_char d = char_of (48 + d)"

fun show_nat :: "nat \<Rightarrow> string" where
  "show_nat n = (if n < 10 then [digit_char n]
                 else show_nat (n div 10) @ [digit_char (n mod 10)])"

declare show_nat.simps [simp del]

text \<open>
  \<^verbatim>\<open>_ID_RE.match(s)\<close> for \<^verbatim>\<open>^(?P<client>[A-Za-z0-9_\-]+)_v(?P<ver>\d+)$\<close>. The group
  \<open>client\<close> is greedy: it first takes the longest run of class characters, then gives
  characters back one at a time until the rest matches \<^verbatim>\<open>_v\d+$\<close>, and it keeps at
  least one. \<open>match_ver_tail\<close> matches that rest: \<^verbatim>\<open>\d+\<close> takes every digit, and \<open>$\<close>
  accepts the end of the string or a single final newline.
\<close>

definition match_ver_tail :: "string \<Rightarrow> nat option" where
  "match_ver_tail r =
     (case r of
        c1 # c2 # ds \<Rightarrow>
          if c1 = CHR ''_'' \<and> c2 = CHR ''v'' then
            (let d = takeWhile is_digit ds; t = dropWhile is_digit ds
             in if d \<noteq> [] \<and> (t = [] \<or> t = [CHR 0x0A]) then Some (digits_to_nat d) else None)
          else None
      | _ \<Rightarrow> None)"

fun id_re_try :: "nat \<Rightarrow> string \<Rightarrow> (string \<times> nat) option" where
  "id_re_try 0 s = None"
| "id_re_try (Suc k) s =
     (case match_ver_tail (drop (Suc k) s) of
        Some v \<Rightarrow> Some (take (Suc k) s, v)
      | None \<Rightarrow> id_re_try k s)"

definition id_re_match :: "string \<Rightarrow> (string \<times> nat) option" where
  "id_re_match s = id_re_try (length (takeWhile is_id_char s)) s"

text \<open>\<^verbatim>\<open>parse_template_id(template_id)\<close>: \<open>(client, version)\<close>, or the id itself and \<open>None\<close>.\<close>

definition parse_template_id :: "string \<Rightarrow> string \<times> nat option" where
  "parse_template_id template_id =
     (case id_re_match template_id of
        None \<Rightarrow> (template_id, None)
      | Some (client, ver) \<Rightarrow> (client, Some ver))"

text \<open>
  The template manager holds its sanitised device id and its store directory. The local
  disk is a parameter: \<open>listdir p\<close> is \<open>Some\<close> of the entries of \<open>p\<close> when \<open>p\<close> is a
  directory (\<open>os.path.isdir\<close>, \<open>os.listdir\<close>) and \<open>None\<close> otherwise.
\<close>

record template_manager =
  device_id :: string
  store_dir :: string

type_synonym disk = "string \<Rightarrow> string list option"

definition sanitize :: "string \<Rightarrow> string" where
  "sanitize v = filter is_id_char v"

text \<open>\<^verbatim>\<open>os.path.join(a, b)\<close> on POSIX.\<close>

definition os_path_join :: "string \<Rightarrow> string \<Rightarrow> string" where
  "os_path_join a b =
     (if b \<noteq> [] \<and> hd b = CHR ''/'' then b
      else if a = [] \<or> last a = CHR ''/'' then a @ b
      else a @ ''/'' @ b)"

definition client_dir :: "template_manager \<Rightarrow> string \<Rightarrow> string" where
  "client_dir tm client = os_path_join (os_path_join (store_dir tm) (device_id tm)) (sanitize client)"

definition py_startswith :: "string \<Rightarrow> string \<Rightarrow> bool" where
  "py_startswith s p = (take (length p) s = p)"

definition py_endswith :: "string \<Rightarrow> string \<Rightarrow> bool" where
  "py_endswith s p = (length p \<le> length s \<and> drop (length s - length p) s = p)"

text \<open>
  \<^verbatim>\<open>list_versions(client)\<close>: the versions of the files \<open><client>_v<N>.json\<close> of the client
  directory, sorted; \<open>fn[:-5]\<close> drops the five characters of \<open>.json\<close>.
\<close>

definition version_of_file :: "string \<Rightarrow> string \<Rightarrow> nat option" where
  "version_of_file client fn =
     (if py_endswith fn ''.json'' \<and> py_startswith fn (client @ ''_v'')
      then map_option snd (id_re_match (take (length fn - 5) fn))
      else None)"

definition list_versions :: "disk \<Rightarrow> template_manager \<Rightarrow> string \<Rightarrow> nat list" where
  "list_versions listdir tm client =
     (case listdir (client_dir tm client) of
        None \<Rightarrow> []
      | Some fns \<Rightarrow> sort (List.map_filter (version_of_file client) fns))"

definition latest_version_number :: "disk \<Rightarrow> template_manager \<Rightarrow> string \<Rightarrow> nat" where
  "latest_version_number listdir tm client =
     (let vers = list_versions listdir tm client in if vers \<noteq> [] then last vers else 0)"

definition latest_version_id :: "disk \<Rightarrow> template_manager \<Rightarrow> string \<Rightarrow> string option" where
  "latest_version_id listdir tm client =
     (let n = latest_version_number listdir tm client
      in if n > 0 then Some (client @ ''_v'' @ show_nat n) else None)"

definition next_version_id :: "disk \<Rightarrow> template_manager \<Rightarrow> string \<Rightarrow> string" where
  "next_version_id listdir tm client =
     client @ ''_v'' @ show_nat (latest_version_number listdir tm client + 1)"

section \<open>Text chunks for the language model (llm\_utils.py)\<close>









subsection \<open>Sentence chunks in the words of the specification\<close>




section \<open>Zone content extraction (template\_utils.py)\<close>

text \<open>
  A rectangle as the caller passes it: a dict with an optional \<open>page\<close>, a \<open>bbox\<close> (read
  with \<^verbatim>\<open>rect['bbox']\<close>, so a missing one raises) and optional \<open>paper\<close> and
  \<open>orientation\<close> tags.
\<close>

record rect_in =
  r_page :: "int option"
  r_bbox :: "bbox option"
  r_paper :: "string option"
  r_orientation :: "string option"

text \<open>
  What the two PDF libraries report for a page of the opened document: the rotation and
  the size of \<open>page.rect\<close> (PyMuPDF), the width and height (pdfplumber), the words of
  \<^verbatim>\<open>get_text("words")\<close> with their boxes, and the perceptual hash of the pixmap clipped
  to a box. A document is the list of its pages.
\<close>

record page_info =
  rotation :: int
  fz_width :: rat
  fz_height :: rat
  pl_width :: rat
  pl_height :: rat
  page_words :: "(bbox \<times> string) list"
  clip_hash :: "bbox \<Rightarrow> string"

record zone_content =
  zc_page :: int
  zc_bbox :: bbox
  zc_text :: string
  zc_image_hash :: string

record used_rect =
  u_page :: int
  u_bbox :: bbox
  u_paper :: "string option"
  u_orientation :: "string option"

record skip_entry =
  s_page :: int
  s_bbox :: bbox
  s_reason :: string
  s_page_size :: "rat \<times> rat"
  s_rotation :: int

datatype extract_error = PageNotInDocument | MissingBBox

text \<open>\<^verbatim>\<open>_bbox_inside_page(page, bbox, tol)\<close>; the caller leaves \<open>tol\<close> at its default 0.1.\<close>

definition bbox_inside_page :: "page_info \<Rightarrow> bbox \<Rightarrow> rat \<Rightarrow> bool" where
  "bbox_inside_page page b tol =
     (case normalized_bbox b of (x0, y0, x1, y1) \<Rightarrow>
        let w = fz_width page; h = fz_height page
        in if x1 - x0 \<le> 0 \<or> y1 - y0 \<le> 0 then False
           else if x0 < - tol \<or> y0 < - tol \<or> x1 > w + tol \<or> y1 > h + tol then False
           else True)"

text \<open>\<^verbatim>\<open>overlaps(b1, b2, tol=0)\<close>.\<close>

definition overlaps :: "bbox \<Rightarrow> bbox \<Rightarrow> rat \<Rightarrow> bool" where
  "overlaps b1 b2 tol =
     (case b1 of (a0, a1, a2, a3) \<Rightarrow> case b2 of (c0, c1, c2, c3) \<Rightarrow>
        \<not> (a2 < c0 - tol \<or> a0 > c2 + tol \<or> a3 < c1 - tol \<or> a1 > c3 + tol))"

text \<open>
  The page of a rectangle: \<^verbatim>\<open>int(rect.get("page", 0) or 0)\<close>, then the \<open>if\<close>/\<open>elif\<close>
  that brings it into the document.
\<close>

definition zone_page_num :: "page_info list \<Rightarrow> rect_in \<Rightarrow> int" where
  "zone_page_num doc rect =
     (let page_num = (case r_page rect of None \<Rightarrow> 0 | Some p \<Rightarrow> p)
      in if page_num < 0 then 0
         else if page_num \<ge> int (length doc) then int (length doc) - 1
         else page_num)"

definition zone_page :: "page_info list \<Rightarrow> rect_in \<Rightarrow> page_info" where
  "zone_page doc rect = doc ! nat (zone_page_num doc rect)"

definition zone_rotation :: "page_info list \<Rightarrow> rect_in \<Rightarrow> int" where
  "zone_rotation doc rect = rotation (zone_page doc rect) mod 360"

text \<open>The three entries the loop body can append for a rectangle whose box is \<open>raw\<close>.\<close>

definition zone_skip :: "page_info list \<Rightarrow> rect_in \<Rightarrow> bbox \<Rightarrow> skip_entry" where
  "zone_skip doc rect raw =
     \<lparr>s_page = zone_page_num doc rect, s_bbox = raw, s_reason = ''oob_or_invalid'',
      s_page_size = (pl_width (zone_page doc rect), pl_height (zone_page doc rect)),
      s_rotation = zone_rotation doc rect\<rparr>"

definition zone_result :: "page_info list \<Rightarrow> rect_in \<Rightarrow> bbox \<Rightarrow> zone_content" where
  "zone_result doc rect raw =
     (let page = zone_page doc rect;
          orig_bbox = normalized_bbox raw;
          t_bbox = transform_bbox_for_rotation orig_bbox (pl_width page) (pl_height page)
                     (zone_rotation doc rect);
          extracted = map snd (filter (\<lambda>w. overlaps (fst w) t_bbox 0) (page_words page))
      in \<lparr>zc_page = zone_page_num doc rect, zc_bbox = t_bbox,
          zc_text = py_strip (py_join '' '' extracted),
          zc_image_hash = clip_hash page orig_bbox\<rparr>)"

definition zone_used_rect :: "page_info list \<Rightarrow> rect_in \<Rightarrow> bbox \<Rightarrow> used_rect" where
  "zone_used_rect doc rect raw =
     \<lparr>u_page = zone_page_num doc rect, u_bbox = normalized_bbox raw,
      u_paper = r_paper rect, u_orientation = r_orientation rect\<rparr>"

text \<open>
  The loop of \<^verbatim>\<open>extract_zones_content\<close> over the rectangles, with its three lists as the
  state. \<open>doc[page_num]\<close> fails on a document without pages, before the box is read.
\<close>

record extract_state =
  results :: "zone_content list"
  used_rects :: "used_rect list"
  skipped :: "skip_entry list"

fun extract_loop :: "page_info list \<Rightarrow> rect_in list \<Rightarrow> extract_state \<Rightarrow> extract_error + extract_state" where
  "extract_loop doc [] st = Inr st"
| "extract_loop doc (rect # rects) st =
     (if doc = [] then Inl PageNotInDocument
      else case r_bbox rect of
        None \<Rightarrow> Inl MissingBBox
      | Some raw \<Rightarrow>
          if \<not> bbox_inside_page (zone_page doc rect) (normalized_bbox raw) (1 / 10)
          then extract_loop doc rects (st\<lparr>skipped := skipped st @ [zone_skip doc rect raw]\<rparr>)
          else extract_loop doc rects
                 (st\<lparr>results := results st @ [zone_result doc rect raw],
                     used_rects := used_rects st @ [zone_used_rect doc rect raw]\<rparr>))"

text \<open>\<^verbatim>\<open>extract_zones_content(pdf_path, rectangles, _return_skips=True)\<close> on the opened document.\<close>

definition extract_zones_content ::
  "page_info list \<Rightarrow> rect_in list
     \<Rightarrow> extract_error + (zone_content list \<times> used_rect list \<times> skip_entry list)" where
  "extract_zones_content doc rectangles =
     (case extract_loop doc rectangles \<lparr>results = [], used_rects = [], skipped = []\<rparr> of
        Inl e \<Rightarrow> Inl e
      | Inr st \<Rightarrow> Inr (results st, used_rects st, skipped st))"

text \<open>Whether the loop keeps a rectangle: its normalised box lies inside its page.\<close>

definition zone_kept :: "page_info list \<Rightarrow> rect_in \<Rightarrow> bool" where
  "zone_kept doc rect =
     bbox_inside_page (zone_page doc rect) (normalized_bbox (the (r_bbox rect))) (1 / 10)"

subsection \<open>The partition in the words of the specification\<close>

text \<open>
  Written from the specification, not from the code. The page a rectangle is taken on:
  its \<open>page\<close>, 0 when it has none, brought into the pages \<open>0 .. page_count - 1\<close> of
  the document.
\<close>

definition spec_clamped_page :: "nat \<Rightarrow> rect_in \<Rightarrow> int" where
  "spec_clamped_page page_count r =
     max 0 (min (int page_count - 1) (case r_page r of None \<Rightarrow> 0 | Some p \<Rightarrow> p))"

text \<open>A box with its two x coordinates and its two y coordinates put in order.\<close>

definition spec_ordered_box :: "bbox \<Rightarrow> bbox" where
  "spec_ordered_box b =
     (case b of (x0, y0, x1, y1) \<Rightarrow>
        (if x0 \<le> x1 then x0 else x1, if y0 \<le> y1 then y0 else y1,
         if x0 \<le> x1 then x1 else x0, if y0 \<le> y1 then y1 else y0))"

text \<open>
  An ordered box lies within a page of width \<open>w\<close> and height \<open>h\<close>: it has positive area
  and it leaves the page by no more than the tolerance 0.1 on any side.
\<close>

definition spec_within_page :: "rat \<Rightarrow> rat \<Rightarrow> bbox \<Rightarrow> bool" where
  "spec_within_page w h b =
     (case b of (x0, y0, x1, y1) \<Rightarrow>
        x0 < x1 \<and> y0 < y1 \<and> - (1 / 10) \<le> x0 \<and> - (1 / 10) \<le> y0
        \<and> x1 \<le> w + 1 / 10 \<and> y1 \<le> h + 1 / 10)"

text \<open>
  A rectangle is kept when its box as drawn, put in order, lies within the page it is
  taken on; otherwise it is skipped.
\<close>

definition spec_kept :: "page_info list \<Rightarrow> rect_in \<Rightarrow> bool" where
  "spec_kept doc r =
     spec_within_page (fz_width (doc ! nat (spec_clamped_page (length doc) r)))
       (fz_height (doc ! nat (spec_clamped_page (length doc) r)))
       (spec_ordered_box (the (r_bbox r)))"

section \<open>Low-confidence reports and the PassLog (api\_app.py)\<close>

text \<open>
  A Python dict whose order matters is an association list in insertion order.
  \<open>dict_set\<close> is \<^verbatim>\<open>d[k] = v\<close>: it replaces the value where the key is and appends
  otherwise. \<open>dict_extend\<close> is \<^verbatim>\<open>d[k].extend(vs)\<close> and \<open>dict_append\<close> is
  \<^verbatim>\<open>d[k].append(v)\<close> on a \<open>defaultdict(list)\<close>.
\<close>

fun dict_set :: "'k \<Rightarrow> 'v \<Rightarrow> ('k \<times> 'v) list \<Rightarrow> ('k \<times> 'v) list" where
  "dict_set k v [] = [(k, v)]"
| "dict_set k v ((k', v') # d) = (if k = k' then (k', v) # d else (k', v') # dict_set k v d)"

fun dict_extend :: "'k \<Rightarrow> 'v list \<Rightarrow> ('k \<times> 'v list) list \<Rightarrow> ('k \<times> 'v list) list" where
  "dict_extend k vs [] = [(k, vs)]"
| "dict_extend k vs ((k', vs') # d) =
     (if k = k' then (k', vs' @ vs) # d else (k', vs') # dict_extend k vs d)"

definition dict_append :: "'k \<Rightarrow> 'v \<Rightarrow> ('k \<times> 'v list) list \<Rightarrow> ('k \<times> 'v list) list" where
  "dict_append k v d = dict_extend k [v] d"

text \<open>
  One entry of the list \<open>process_batch\<close> returns: the path of a PDF and, for each of its
  flagged pages, the boxes flagged there.
\<close>

record low_conf_report =
  lc_pdf :: string
  lc_low_rects :: "(int \<times> bbox list) list"

text \<open>
  \<^verbatim>\<open>os.path.basename\<close> and the root of \<^verbatim>\<open>os.path.splitext\<close> on POSIX: the extension
  starts at the last dot of the name, unless only dots come before it.
\<close>

definition os_path_basename :: "string \<Rightarrow> string" where
  "os_path_basename p = rev (takeWhile (\<lambda>c. c \<noteq> CHR ''/'') (rev p))"

definition splitext_root :: "string \<Rightarrow> string" where
  "splitext_root b =
     (if CHR ''.'' \<in> set b
      then (let root = rev (tl (dropWhile (\<lambda>c. c \<noteq> CHR ''.'') (rev b)))
            in if \<exists>c\<in>set root. c \<noteq> CHR ''.'' then root else b)
      else b)"

text \<open>\<^verbatim>\<open>_norm_key_from_path(p)\<close>; on a string none of its calls raises.\<close>

definition norm_key_from_path :: "string \<Rightarrow> string" where
  "norm_key_from_path p = py_lower (py_strip (splitext_root (os_path_basename p)))"

text \<open>
  The PassLog in memory: a dict from file key to a sorted list of page numbers.
  \<open>passlog_get\<close> is \<^verbatim>\<open>passlog.get(key, [])\<close>.
\<close>

type_synonym passlog = "string \<rightharpoonup> int list"

definition passlog_get :: "passlog \<Rightarrow> string \<Rightarrow> int list" where
  "passlog_get pl k = (case pl k of None \<Rightarrow> [] | Some v \<Rightarrow> v)"

text \<open>\<^verbatim>\<open>sorted({...})\<close>, a set of integers as a sorted list.\<close>

definition sorted_set :: "int list \<Rightarrow> int list" where
  "sorted_set xs = sort (remdups xs)"

text \<open>
  The first loop of the PassLog block of \<open>sanitize\<close> (and, word for word, of
  \<open>sanitize_existing\<close>): the failing pages of each reported file, by key; a later
  report with the same key replaces an earlier one.
\<close>

fun failing_by_base_loop :: "low_conf_report list \<Rightarrow> (string \<rightharpoonup> int list) \<Rightarrow> (string \<rightharpoonup> int list)" where
  "failing_by_base_loop [] fb = fb"
| "failing_by_base_loop (item # items) fb =
     failing_by_base_loop items
       (fb(norm_key_from_path (lc_pdf item) \<mapsto> sorted_set (map fst (lc_low_rects item))))"

text \<open>
  The second loop, over the uploaded paths. \<open>page_count p\<close> is the page count the
  document library reports for \<open>p\<close>, or \<open>None\<close> when opening it raises.
\<close>

fun passlog_update_loop ::
  "(string \<Rightarrow> nat option) \<Rightarrow> (string \<rightharpoonup> int list) \<Rightarrow> string list \<Rightarrow> passlog \<Rightarrow> passlog" where
  "passlog_update_loop page_count failing_by_base [] pl = pl"
| "passlog_update_loop page_count failing_by_base (p # paths) pl =
     (let base_key = norm_key_from_path p;
          n_pages = page_count p;
          already = passlog_get pl base_key;
          failing = (case failing_by_base base_key of None \<Rightarrow> [] | Some v \<Rightarrow> v);
          newly_passed = (case n_pages of
                            None \<Rightarrow> []
                          | Some n \<Rightarrow> if n > 0
                                     then filter (\<lambda>i. i \<notin> set failing) (map int [0..<n])
                                     else [])
      in passlog_update_loop page_count failing_by_base paths
           (if newly_passed \<noteq> [] then pl(base_key \<mapsto> sorted_set (already @ newly_passed))
            else pl))"

text \<open>
  The third loop: each report filtered against the updated PassLog. \<open>kept_pages\<close> is the
  inner loop that builds \<open>kept\<close>.
\<close>

fun kept_pages :: "int list \<Rightarrow> (int \<times> bbox list) list \<Rightarrow> (int \<times> bbox list) list
                     \<Rightarrow> (int \<times> bbox list) list" where
  "kept_pages already [] kept = kept"
| "kept_pages already ((pidx, v) # rest) kept =
     (if pidx \<in> set already then kept_pages already rest kept
      else kept_pages already rest (dict_set pidx v kept))"

fun filter_low_conf_loop :: "passlog \<Rightarrow> low_conf_report list \<Rightarrow> low_conf_report list
                               \<Rightarrow> low_conf_report list" where
  "filter_low_conf_loop pl [] filtered = filtered"
| "filter_low_conf_loop pl (item # items) filtered =
     (let base_key = norm_key_from_path (lc_pdf item);
          already = passlog_get pl base_key;
          kept = kept_pages already (lc_low_rects item) []
      in filter_low_conf_loop pl items
           (if kept \<noteq> [] then filtered @ [\<lparr>lc_pdf = lc_pdf item, lc_low_rects = kept\<rparr>]
            else filtered))"

text \<open>
  The whole block: from the loaded PassLog, the uploaded paths and the reports of the
  pipeline to the PassLog that is saved and the reports that are returned.
\<close>

definition passlog_update_and_filter ::
  "(string \<Rightarrow> nat option) \<Rightarrow> passlog \<Rightarrow> string list \<Rightarrow> low_conf_report list
     \<Rightarrow> passlog \<times> low_conf_report list" where
  "passlog_update_and_filter page_count passlog paths low_conf =
     (let failing_by_base = failing_by_base_loop low_conf Map.empty;
          passlog' = passlog_update_loop page_count failing_by_base paths passlog;
          filtered_low_conf = filter_low_conf_loop passlog' low_conf []
      in (passlog', filtered_low_conf))"

text \<open>The pages a report flags, and what the third loop keeps of a report.\<close>

definition report_pages :: "low_conf_report \<Rightarrow> int set" where
  "report_pages item = fst ` set (lc_low_rects item)"

definition kept_of :: "passlog \<Rightarrow> low_conf_report \<Rightarrow> (int \<times> bbox list) list" where
  "kept_of pl item =
     kept_pages (passlog_get pl (norm_key_from_path (lc_pdf item))) (lc_low_rects item) []"

section \<open>Confidence gating in batch mode (pipeline.py)\<close>

text \<open>
  One entry of \<open>record_scores\<close>: a replicated zone with its three scores. Scores are
  Python floats, modelled as rationals: the gate only compares them. \<open>group_id\<close> is read
  with \<open>.get\<close>, so it may be absent.
\<close>

record score_rec =
  sr_page :: int
  sr_bbox :: bbox
  sr_tidx :: nat
  sr_tscore :: rat
  sr_iscore :: rat
  sr_rscore :: rat
  sr_group_id :: "string option"

text \<open>An entry of \<open>high_conf_rects\<close>, the zones handed on to redaction.\<close>

record high_conf_rect =
  hc_page :: int
  hc_bbox :: bbox
  hc_tidx :: nat

definition to_high_conf :: "score_rec \<Rightarrow> high_conf_rect" where
  "to_high_conf rec = \<lparr>hc_page = sr_page rec, hc_bbox = sr_bbox rec, hc_tidx = sr_tidx rec\<rparr>"

text \<open>
  \<^verbatim>\<open>for rec in recs: d[key(rec)].append(rec)\<close> on a \<open>defaultdict(list)\<close>: used for
  \<open>pages\<close> (step 2.1) and for the \<open>groups\<close> of a page.
\<close>

fun group_loop :: "('a \<Rightarrow> 'k) \<Rightarrow> 'a list \<Rightarrow> ('k \<times> 'a list) list \<Rightarrow> ('k \<times> 'a list) list" where
  "group_loop key [] d = d"
| "group_loop key (rec # recs) d = group_loop key recs (dict_append (key rec) rec d)"

definition group_by_key :: "('a \<Rightarrow> 'k) \<Rightarrow> 'a list \<Rightarrow> ('k \<times> 'a list) list" where
  "group_by_key key recs = group_loop key recs []"

text \<open>The test on one zone: \<^verbatim>\<open>rect_pass = (rec["iscore"] >= THRESH_I)\<close>.\<close>

definition rect_pass :: "rat \<Rightarrow> score_rec \<Rightarrow> bool" where
  "rect_pass thresh_i rec = (sr_iscore rec \<ge> thresh_i)"

text \<open>The three variables of a page, and the loop over the zones of one group.\<close>

record page_state =
  page_passing_rects :: "score_rec list"
  page_failing_rects :: "score_rec list"
  page_has_passing_group :: bool

fun scan_group :: "rat \<Rightarrow> score_rec list \<Rightarrow> page_state \<Rightarrow> score_rec list
                     \<Rightarrow> page_state \<times> score_rec list" where
  "scan_group thresh_i [] ps group_fails = (ps, group_fails)"
| "scan_group thresh_i (rec # lst) ps group_fails =
     (if rect_pass thresh_i rec
      then scan_group thresh_i lst
             (ps\<lparr>page_passing_rects := page_passing_rects ps @ [rec]\<rparr>) group_fails
      else scan_group thresh_i lst
             (ps\<lparr>page_failing_rects := page_failing_rects ps @ [rec]\<rparr>) (group_fails @ [rec]))"

text \<open>The loop over the groups of a page: a group passes when none of its zones failed.\<close>

fun scan_groups :: "rat \<Rightarrow> (string option \<times> score_rec list) list \<Rightarrow> page_state \<Rightarrow> page_state" where
  "scan_groups thresh_i [] ps = ps"
| "scan_groups thresh_i ((gid, lst) # groups) ps =
     (case scan_group thresh_i lst ps [] of
        (ps', group_fails) \<Rightarrow>
          scan_groups thresh_i groups
            (if length group_fails = 0 then ps'\<lparr>page_has_passing_group := True\<rparr> else ps'))"

text \<open>The variables that outlive a page, and the loop over the pages (step 2.2).\<close>

record batch_state =
  high_conf_rects :: "high_conf_rect list"
  low_confidence_by_page :: "(int \<times> bbox list) list"
  pdf_all_pages_have_passing_group :: bool

definition scan_page :: "rat \<Rightarrow> int \<Rightarrow> score_rec list \<Rightarrow> batch_state \<Rightarrow> batch_state" where
  "scan_page thresh_i pg recs bs =
     (let groups = group_by_key sr_group_id recs;
          ps = scan_groups thresh_i groups
                 \<lparr>page_passing_rects = [], page_failing_rects = [], page_has_passing_group = False\<rparr>;
          bs1 = bs\<lparr>high_conf_rects := high_conf_rects bs @ map to_high_conf (page_passing_rects ps)\<rparr>;
          bs2 = (if page_failing_rects ps \<noteq> [] \<and> \<not> page_has_passing_group ps
                 then bs1\<lparr>low_confidence_by_page :=
                            dict_extend pg (map sr_bbox (page_failing_rects ps))
                              (low_confidence_by_page bs1)\<rparr>
                 else bs1)
      in if \<not> page_has_passing_group ps
         then bs2\<lparr>pdf_all_pages_have_passing_group := False\<rparr>
         else bs2)"

fun scan_pages :: "rat \<Rightarrow> (int \<times> score_rec list) list \<Rightarrow> batch_state \<Rightarrow> batch_state" where
  "scan_pages thresh_i [] bs = bs"
| "scan_pages thresh_i ((pg, recs) # pages) bs = scan_pages thresh_i pages (scan_page thresh_i pg recs bs)"

text \<open>
  Steps 2.1 and 2.2 of \<open>process_batch\<close> for one PDF, from its \<open>record_scores\<close> and the
  caller's threshold. \<open>THRESH_R\<close> and \<open>THRESH_T\<close> are computed as in the source.
\<close>

definition classify_scores :: "rat \<Rightarrow> score_rec list \<Rightarrow> batch_state" where
  "classify_scores threshold record_scores =
     (let pages = group_by_key sr_page record_scores;
          thresh_r = threshold;
          thresh_t = (9 / 10) * threshold;
          thresh_i = threshold
      in scan_pages thresh_i pages
           \<lparr>high_conf_rects = [], low_confidence_by_page = [],
            pdf_all_pages_have_passing_group = True\<rparr>)"

text \<open>
  The words of the specification. A zone passes when its image score reaches the
  threshold; a page has a passing group when one of its zones is in a group (the zones of
  the page with the same \<open>group_id\<close>) all of whose zones pass. \<open>page_lookup\<close> reads
  \<open>low_confidence_by_page\<close>.
\<close>

definition zone_passes :: "rat \<Rightarrow> score_rec \<Rightarrow> bool" where
  "zone_passes threshold rec = (sr_iscore rec \<ge> threshold)"

definition page_has_passing_group_spec :: "rat \<Rightarrow> score_rec list \<Rightarrow> int \<Rightarrow> bool" where
  "page_has_passing_group_spec threshold recs pg =
     (\<exists>r\<in>set recs. sr_page r = pg
        \<and> (\<forall>r'\<in>set recs. sr_page r' = pg \<and> sr_group_id r' = sr_group_id r
                           \<longrightarrow> zone_passes threshold r'))"

definition page_lookup :: "(int \<times> bbox list) list \<Rightarrow> int \<Rightarrow> bbox list option" where
  "page_lookup d pg = map_of d pg"

text \<open>
  The zones of a page in the order the loops visit them: group by group, the groups in
  the order their first zone appears.
\<close>

definition in_group_order :: "score_rec list \<Rightarrow> score_rec list" where
  "in_group_order recs = concat (map snd (group_by_key sr_group_id recs))"

definition some_group_passes :: "rat \<Rightarrow> score_rec list \<Rightarrow> bool" where
  "some_group_passes thresh_i recs =
     (\<exists>g\<in>set (group_by_key sr_group_id recs). \<forall>r\<in>set (snd g). rect_pass thresh_i r)"

text \<open>A change of the text score and of the combined score of a zone, nothing else.\<close>

definition rescore :: "(score_rec \<Rightarrow> rat) \<Rightarrow> (score_rec \<Rightarrow> rat) \<Rightarrow> score_rec \<Rightarrow> score_rec" where
  "rescore f g rec = rec\<lparr>sr_tscore := f rec, sr_rscore := g rec\<rparr>"

section \<open>Saving a template from several PDFs (template\_utils.py)\<close>

text \<open>
  A rectangle as \<open>save_profile_multi\<close> receives it: the fields of an extraction
  rectangle and the index of the uploaded file it was drawn on (\<open>file_idx\<close>, 0 when
  absent). Here a missing \<open>bbox\<close> is read as \<open>(0, 0, 0, 0)\<close>.
\<close>

record multi_rect =
  m_file_idx :: "int option"
  m_page :: "int option"
  m_bbox :: "bbox option"
  m_paper :: "string option"
  m_orientation :: "string option"

text \<open>A used rectangle of the saved profile, tagged with its source.\<close>

record saved_rect =
  sv_rect :: used_rect
  sv_source_index :: int
  sv_source_pdf :: string

record profile =
  p_rectangles :: "saved_rect list"
  p_contents :: "zone_content list"
  p_image_map :: "(int \<times> string) list"

text \<open>
  What the function reads from outside: whether a path exists, the layout classifier
  (\<open>None\<close> where \<^verbatim>\<open>_classify_page_layout\<close> raises) and the document a path opens to
  (\<open>None\<close> where opening it raises).
\<close>

record save_env =
  path_exists :: "string \<Rightarrow> bool"
  classify_page_layout :: "string \<Rightarrow> (string \<times> string) option"
  open_pdf :: "string \<Rightarrow> page_info list option"

text \<open>The lines the function prints, and the ways it can raise.\<close>

datatype save_log =
    MissingSource int
  | SourceLayout string string string
  | CouldNotClassify string string
  | NoMatchingRectangles string
  | ExtractionFailed string
  | RectanglesSkipped nat string

datatype save_error =
    NoRectanglesProvided
  | NothingToSave
  | UnboundLocalError string

text \<open>
  The variables of the function that outlive a group. \<open>ms_local_e\<close> is the local variable
  \<open>e\<close>: Python binds it on entering \<^verbatim>\<open>except Exception as e\<close> and deletes it on leaving
  that handler, so \<open>None\<close> stands for unbound.
\<close>

record multi_state =
  ms_used_rects :: "saved_rect list"
  ms_contents :: "zone_content list"
  ms_skipped_total :: nat
  ms_log :: "save_log list"
  ms_local_e :: "string option"

text \<open>Step 2a: one rectangle normalised.\<close>

definition normalize_multi_rect :: "multi_rect \<Rightarrow> rect_in" where
  "normalize_multi_rect r =
     (let pg0 = (case m_page r of None \<Rightarrow> 0 | Some p \<Rightarrow> p);
          pg = (if pg0 < 0 then 0 else pg0);
          b = normalized_bbox (case m_bbox r of None \<Rightarrow> (0, 0, 0, 0) | Some b \<Rightarrow> b)
      in \<lparr>r_page = Some pg, r_bbox = Some b, r_paper = m_paper r,
          r_orientation = m_orientation r\<rparr>)"

text \<open>
  Step 2b, the \<open>try\<close> around the classifier. Its handler is \<^verbatim>\<open>except Exception:\<close> with
  no name bound, and the line it prints formats \<open>{e}\<close>: reading \<open>e\<close> while it is unbound
  raises, from inside the handler.
\<close>

definition classify_source :: "save_env \<Rightarrow> string \<Rightarrow> multi_state \<Rightarrow> save_error + multi_state" where
  "classify_source env src_pdf st =
     (case classify_page_layout env src_pdf of
        Some (src_paper, src_orient) \<Rightarrow>
          Inr (st\<lparr>ms_log := ms_log st @ [SourceLayout src_pdf src_paper src_orient]\<rparr>)
      | None \<Rightarrow>
          (case ms_local_e st of
             None \<Rightarrow> Inl (UnboundLocalError ''e'')
           | Some e \<Rightarrow> Inr (st\<lparr>ms_log := ms_log st @ [CouldNotClassify src_pdf e]\<rparr>)))"

text \<open>
  Step 2c and step 3, the \<open>try\<close> around the extraction and what follows it. The handler
  binds \<open>e\<close>, prints and leaves, which unbinds \<open>e\<close> again.
\<close>

definition extract_source ::
  "save_env \<Rightarrow> int \<Rightarrow> string \<Rightarrow> rect_in list \<Rightarrow> multi_state \<Rightarrow> multi_state" where
  "extract_source env fidx src_pdf active_rects st =
     (case (case open_pdf env src_pdf of
              None \<Rightarrow> None
            | Some doc \<Rightarrow> (case extract_zones_content doc active_rects of
                             Inl err \<Rightarrow> None
                           | Inr res \<Rightarrow> Some res)) of
        None \<Rightarrow>
          (let st1 = st\<lparr>ms_local_e := Some ''extraction error''\<rparr>;
               st2 = st1\<lparr>ms_log := ms_log st1 @ [ExtractionFailed src_pdf]\<rparr>
           in st2\<lparr>ms_local_e := None\<rparr>)
      | Some (cnt, used, skp) \<Rightarrow>
          (let st1 = st\<lparr>ms_contents := ms_contents st @ cnt,
                        ms_used_rects := ms_used_rects st
                          @ map (\<lambda>u. \<lparr>sv_rect = u, sv_source_index = fidx,
                                       sv_source_pdf = os_path_basename src_pdf\<rparr>) used,
                        ms_skipped_total := ms_skipped_total st + length skp\<rparr>
           in if skp \<noteq> []
              then st1\<lparr>ms_log := ms_log st1 @ [RectanglesSkipped (length skp) src_pdf]\<rparr>
              else st1))"

text \<open>The body of the loop over the groups, and the loop.\<close>

definition save_group ::
  "save_env \<Rightarrow> (int \<rightharpoonup> string) \<Rightarrow> int \<Rightarrow> multi_rect list \<Rightarrow> multi_state
     \<Rightarrow> save_error + multi_state" where
  "save_group env index_to_path fidx rects_for_pdf st =
     (case index_to_path fidx of
        None \<Rightarrow> Inr (st\<lparr>ms_log := ms_log st @ [MissingSource fidx]\<rparr>)
      | Some src_pdf \<Rightarrow>
          if src_pdf = [] \<or> \<not> path_exists env src_pdf
          then Inr (st\<lparr>ms_log := ms_log st @ [MissingSource fidx]\<rparr>)
          else
            (let norm_rects = map normalize_multi_rect rects_for_pdf
             in case classify_source env src_pdf st of
                  Inl err \<Rightarrow> Inl err
                | Inr st1 \<Rightarrow>
                    (let active_rects = norm_rects
                     in if active_rects = []
                        then Inr (st1\<lparr>ms_log := ms_log st1 @ [NoMatchingRectangles src_pdf]\<rparr>)
                        else Inr (extract_source env fidx src_pdf active_rects st1))))"

fun save_groups ::
  "save_env \<Rightarrow> (int \<rightharpoonup> string) \<Rightarrow> (int \<times> multi_rect list) list \<Rightarrow> multi_state
     \<Rightarrow> save_error + multi_state" where
  "save_groups env index_to_path [] st = Inr st"
| "save_groups env index_to_path ((fidx, rects_for_pdf) # grouped) st =
     (case save_group env index_to_path fidx rects_for_pdf st of
        Inl err \<Rightarrow> Inl err
      | Inr st' \<Rightarrow> save_groups env index_to_path grouped st')"

text \<open>
  \<^verbatim>\<open>save_profile_multi(template_id, rectangles, index_to_path, image_map)\<close>: the profile
  it goes on to write and the lines it printed, or the exception that leaves it.
\<close>

definition rect_file_idx :: "multi_rect \<Rightarrow> int" where
  "rect_file_idx r = (case m_file_idx r of None \<Rightarrow> 0 | Some i \<Rightarrow> i)"

definition save_profile_multi ::
  "save_env \<Rightarrow> multi_rect list \<Rightarrow> (int \<rightharpoonup> string) \<Rightarrow> (int \<times> string) list
     \<Rightarrow> save_error + (profile \<times> save_log list)" where
  "save_profile_multi env rectangles index_to_path image_map =
     (let grouped = group_by_key rect_file_idx rectangles
      in if grouped = [] then Inl NoRectanglesProvided
         else case save_groups env index_to_path grouped
                     \<lparr>ms_used_rects = [], ms_contents = [], ms_skipped_total = 0,
                      ms_log = [], ms_local_e = None\<rparr> of
                Inl err \<Rightarrow> Inl err
              | Inr st \<Rightarrow>
                  if ms_contents st = [] then Inl NothingToSave
                  else Inr (\<lparr>p_rectangles = ms_used_rects st, p_contents = ms_contents st,
                             p_image_map = image_map\<rparr>, ms_log st))"

section \<open>The secondary pass and its gate (pipeline.py)\<close>

text \<open>
  What \<open>process_low_conf_batch\<close> does to the outside before it returns is kept as a list
  of events, in order: the lines its gate and its template resolution print, each call
  of \<open>tm.load_profile\<close>, the line \<^verbatim>\<open>[Secondary] Processing low-confidence PDF: <pdf>\<close> that
  opens the work on a PDF, each \<^verbatim>\<open>low_conf.append\<close> on the list the caller passed, and each
  call of \<^verbatim>\<open>RedactionEngine.redact(pdf, all_rects, sanitized)\<close>. The other lines the loop
  prints and the directories it creates are not recorded. Its errors are values.
\<close>

record redact_rect =
  rr_page :: int
  rr_bbox :: bbox

datatype batch_event =
    Printed string
  | LoadedProfile string
  | ProcessingPdf string
  | AppendedToInput low_conf_report
  | Redacted string "redact_rect list" string

text \<open>
  The errors: the \<open>ValueError\<close> of a template manager built without a device id; the
  \<open>FileNotFoundError\<close> of the resolution, with the requested id and the expected next one;
  the \<open>FileNotFoundError\<close> of \<open>load_profile\<close>; the \<open>ValueError\<close> of an unpacking that does
  not fit; \<^verbatim>\<open>fitz.open\<close> raising; \<open>extract_zones_content\<close> raising. The last three carry
  the PDF.
\<close>

datatype pipeline_error =
    DeviceIdRequired
  | TemplateNotFound string string
  | ProfileNotFound string
  | UnpackFailed string
  | OpenFailed string
  | ExtractFailed string extract_error

text \<open>
  \<^verbatim>\<open>TemplateManager(device_id=device_id)\<close>: a missing or empty device id raises; the store
  directory is the module's \<open>TEMPLATE_STORE\<close>.
\<close>

definition template_manager_init :: "string option \<Rightarrow> pipeline_error + template_manager" where
  "template_manager_init dev =
     (case dev of
        None \<Rightarrow> Inl DeviceIdRequired
      | Some d \<Rightarrow> if d = [] then Inl DeviceIdRequired
                 else Inr \<lparr>device_id = sanitize d, store_dir = ''templates''\<rparr>)"

text \<open>
  The template resolution of \<open>process_low_conf_batch\<close>. \<open>profiles\<close> is the template store
  as \<open>load_profile\<close> sees it: \<open>None\<close> where loading raises. The requested id is tried
  first, then the next expected version of its client.
\<close>

definition resolve_template ::
  "disk \<Rightarrow> (string \<Rightarrow> profile option) \<Rightarrow> template_manager \<Rightarrow> string
     \<Rightarrow> batch_event list \<times> (pipeline_error + string)" where
  "resolve_template listdir profiles tm new_template_id =
     (let (client, provided_ver) = parse_template_id new_template_id
      in case profiles new_template_id of
           Some _ \<Rightarrow> ([LoadedProfile new_template_id], Inr new_template_id)
         | None \<Rightarrow>
             (let expected_next = next_version_id listdir tm client
              in case profiles expected_next of
                   Some _ \<Rightarrow>
                     ([LoadedProfile new_template_id, LoadedProfile expected_next,
                       Printed (''Note: '' @ [CHR 0x27] @ new_template_id @ [CHR 0x27]
                                @ '' not found. Using '' @ [CHR 0x27] @ expected_next
                                @ [CHR 0x27] @ '' instead.'')],
                      Inr expected_next)
                 | None \<Rightarrow>
                     ([LoadedProfile new_template_id, LoadedProfile expected_next],
                      Inl (TemplateNotFound new_template_id expected_next))))"

text \<open>
  What the loop over the PDFs calls outside the source files at hand, taken as
  parameters. \<^verbatim>\<open>_classify_pdf_layout(pdf_path, tol)\<close> is unpacked by this function with
  \<^verbatim>\<open>paper, orient, (pw, ph) = ...\<close>: \<open>Layout\<close> is a value of that shape. \<open>process_batch\<close>
  iterates over the result of the same function as a list of one such triple per page:
  \<open>PageLayouts\<close> is a value of that shape, and unpacking it raises \<open>ValueError\<close> whatever
  the number of pages, since the third triple does not unpack into \<open>(pw, ph)\<close>.
\<close>

datatype pdf_layout =
    Layout string string rat rat
  | PageLayouts "(string \<times> string \<times> rat \<times> rat) list"

text \<open>
  The dict \<^verbatim>\<open>_validate_replicated_rects_for_pdf\<close> returns: its key
  \<^verbatim>\<open>'page_out_of_range'\<close>, when present, with the page and box of each entry, and its other
  keys, pages, each with the boxes of its entries.
\<close>

record oob_issues =
  oob_page_out_of_range :: "(int \<times> bbox) list option"
  oob_by_page :: "(int \<times> bbox list) list"

record secondary_env =
  classify_pdf_layout :: "string \<Rightarrow> rat \<Rightarrow> pdf_layout"
  filter_rectangles_for_layout :: "saved_rect list \<Rightarrow> string \<Rightarrow> string \<Rightarrow> saved_rect list"
  validate_replicated_rects_for_pdf :: "string \<Rightarrow> (int \<times> bbox) list \<Rightarrow> oob_issues"
  fitz_open :: "string \<Rightarrow> page_info list option"
  score_text :: "string \<Rightarrow> string \<Rightarrow> rat"
  score_image :: "string \<Rightarrow> string \<Rightarrow> rat"
  os_path_relpath :: "string \<Rightarrow> string \<Rightarrow> string"

text \<open>\<^verbatim>\<open>os.path.dirname\<close> on POSIX.\<close>

definition os_path_dirname :: "string \<Rightarrow> string" where
  "os_path_dirname p =
     (let head = take (length p - length (os_path_basename p)) p
      in if head \<noteq> [] \<and> (\<exists>c\<in>set head. c \<noteq> CHR ''/'')
         then rev (dropWhile (\<lambda>c. c = CHR ''/'') (rev head))
         else head)"

text \<open>The path of the sanitised copy of a PDF; \<^verbatim>\<open>if input_root:\<close> is false for \<open>None\<close> and \<open>""\<close>.\<close>

definition sanitized_path :: "secondary_env \<Rightarrow> string \<Rightarrow> string option \<Rightarrow> string \<Rightarrow> string" where
  "sanitized_path env output_dir input_root pdf =
     (let base = splitext_root (os_path_basename pdf)
      in if input_root \<noteq> None \<and> input_root \<noteq> Some []
         then (let rel_path = os_path_relpath env pdf (the input_root);
                   sub_dir = os_path_dirname rel_path;
                   target_dir = os_path_join output_dir sub_dir
               in os_path_join target_dir (base @ ''_sanitized.pdf''))
         else os_path_join output_dir (base @ ''_sanitized.pdf''))"

text \<open>\<^verbatim>\<open>_normalize_pages_dict(p)\<close> on a dict from pages to lists of boxes.\<close>

definition normalize_pages_dict :: "(int \<times> bbox list) list \<Rightarrow> (int \<times> bbox list) list" where
  "normalize_pages_dict p = fold (\<lambda>(k, v) norm. dict_set k v norm) p []"

definition pdf_entries :: "low_conf_report list \<Rightarrow> low_conf_report list" where
  "pdf_entries low_conf =
     map (\<lambda>entry. \<lparr>lc_pdf = lc_pdf entry,
                    lc_low_rects = normalize_pages_dict (lc_low_rects entry)\<rparr>) low_conf"

text \<open>The replicated rectangles: the active rectangles of the template on every page.\<close>

definition replicate_rectangles :: "nat \<Rightarrow> saved_rect list \<Rightarrow> (int \<times> bbox) list" where
  "replicate_rectangles num_pages active_rectangles =
     concat (map (\<lambda>i. map (\<lambda>r. (int i, u_bbox (sv_rect r))) active_rectangles) [0..<num_pages])"

definition replica_rect :: "int \<times> bbox \<Rightarrow> rect_in" where
  "replica_rect r = \<lparr>r_page = Some (fst r), r_bbox = Some (snd r), r_paper = None,
                     r_orientation = None\<rparr>"

text \<open>The report built from the out-of-bounds issues of a PDF.\<close>

definition oob_page_to_bboxes :: "oob_issues \<Rightarrow> (int \<times> bbox list) list" where
  "oob_page_to_bboxes oob =
     fold (\<lambda>(p0, lst) d. fold (\<lambda>b d. dict_append p0 b d) lst d) (oob_by_page oob)
       (fold (\<lambda>(p, b) d. dict_append p b d)
          (case oob_page_out_of_range oob of None \<Rightarrow> [] | Some metas \<Rightarrow> metas) [])"

text \<open>Step 2: one entry of \<open>record_scores\<close> for each triple of the \<open>zip\<close>.\<close>

record sec_score =
  ss_page :: int
  ss_bbox :: bbox
  ss_tscore :: rat
  ss_iscore :: rat
  ss_rscore :: rat

definition secondary_scores ::
  "secondary_env \<Rightarrow> zone_content list \<Rightarrow> zone_content list \<Rightarrow> (int \<times> bbox) list
     \<Rightarrow> sec_score list" where
  "secondary_scores env ref_contents tgt_contents replicated_rectangles =
     map (\<lambda>(ref, tgt, rect).
            let tscore = score_text env (zc_text ref) (zc_text tgt);
                iscore = score_image env (zc_image_hash ref) (zc_image_hash tgt)
            in \<lparr>ss_page = zc_page tgt, ss_bbox = snd rect, ss_tscore = tscore,
                ss_iscore = iscore, ss_rscore = (tscore + iscore) / 2\<rparr>)
         (zip ref_contents (zip tgt_contents replicated_rectangles))"

text \<open>
  The two loops over the pages and their records, with \<open>high_conf_rects\<close> and
  \<open>low_confidence_by_page\<close> as the state; \<open>THRESH_T\<close> and \<open>THRESH_I\<close> are 0.85.
\<close>

fun sec_scan_recs ::
  "rat \<Rightarrow> int \<Rightarrow> sec_score list \<Rightarrow> redact_rect list \<times> (int \<times> bbox list) list
     \<Rightarrow> redact_rect list \<times> (int \<times> bbox list) list" where
  "sec_scan_recs thresh_r pg [] st = st"
| "sec_scan_recs thresh_r pg (rec # recs) st =
     (if ss_rscore rec < thresh_r \<or> ss_tscore rec < 85 / 100 \<or> ss_iscore rec < 85 / 100
      then sec_scan_recs thresh_r pg recs (fst st, dict_append pg (ss_bbox rec) (snd st))
      else sec_scan_recs thresh_r pg recs
             (fst st @ [\<lparr>rr_page = ss_page rec, rr_bbox = ss_bbox rec\<rparr>], snd st))"

fun sec_scan_pages ::
  "rat \<Rightarrow> (int \<times> sec_score list) list \<Rightarrow> redact_rect list \<times> (int \<times> bbox list) list
     \<Rightarrow> redact_rect list \<times> (int \<times> bbox list) list" where
  "sec_scan_pages thresh_r [] st = st"
| "sec_scan_pages thresh_r ((pg, recs) # pages) st =
     sec_scan_pages thresh_r pages (sec_scan_recs thresh_r pg recs st)"

text \<open>A high-confidence rectangle turned for the rotation of its page.\<close>

definition rotaware :: "page_info list \<Rightarrow> redact_rect \<Rightarrow> redact_rect" where
  "rotaware doc rc =
     (let p0 = rr_page rc;
          pr = rotation (doc ! nat p0) mod 360;
          pw = fz_width (doc ! nat p0);
          ph = fz_height (doc ! nat p0)
      in \<lparr>rr_page = p0, rr_bbox = transform_bbox_for_rotation (rr_bbox rc) pw ph pr\<rparr>)"

text \<open>
  The body of the loop for one PDF: the events it adds, and either the error it raises
  or the report it appends to \<open>results_low_conf\<close>, if any.
\<close>

definition secondary_pdf ::
  "secondary_env \<Rightarrow> profile \<Rightarrow> string \<Rightarrow> string option \<Rightarrow> rat \<Rightarrow> string
     \<Rightarrow> batch_event list \<times> (pipeline_error + low_conf_report option)" where
  "secondary_pdf env profile output_dir input_root threshold pdf =
     (let rectangles = p_rectangles profile;
          ref_contents = p_contents profile;
          sanitized = sanitized_path env output_dir input_root pdf
      in case classify_pdf_layout env pdf (5 / 100) of
           PageLayouts layouts \<Rightarrow> ([ProcessingPdf pdf], Inl (UnpackFailed pdf))
         | Layout paper orient pw ph \<Rightarrow>
             (let active_rectangles = filter_rectangles_for_layout env rectangles paper orient
              in if active_rectangles = [] then
                   (case fitz_open env pdf of
                      None \<Rightarrow> ([ProcessingPdf pdf], Inl (OpenFailed pdf))
                    | Some doc \<Rightarrow>
                        ([ProcessingPdf pdf,
                          AppendedToInput
                            \<lparr>lc_pdf = pdf,
                             lc_low_rects =
                               map (\<lambda>i. (int i, map (\<lambda>r. u_bbox (sv_rect r)) rectangles))
                                 [0..<length doc]\<rparr>],
                         Inr None))
                 else
                   (case fitz_open env pdf of
                      None \<Rightarrow> ([ProcessingPdf pdf], Inl (OpenFailed pdf))
                    | Some doc \<Rightarrow>
                        (let replicated_rectangles =
                               replicate_rectangles (length doc) active_rectangles;
                             oob = validate_replicated_rects_for_pdf env pdf replicated_rectangles
                         in if oob_page_out_of_range oob \<noteq> None \<or> oob_by_page oob \<noteq> [] then
                              ([ProcessingPdf pdf],
                               Inr (Some \<lparr>lc_pdf = pdf, lc_low_rects = oob_page_to_bboxes oob\<rparr>))
                            else
                              (case extract_zones_content doc
                                      (map replica_rect replicated_rectangles) of
                                 Inl e \<Rightarrow> ([ProcessingPdf pdf], Inl (ExtractFailed pdf e))
                               | Inr (tgt_contents, used, skp) \<Rightarrow>
                                   (let record_scores =
                                          secondary_scores env ref_contents tgt_contents
                                            replicated_rectangles;
                                        pages = group_by_key ss_page record_scores;
                                        st = sec_scan_pages threshold pages ([], []);
                                        all_rects = map (rotaware doc) (fst st)
                                    in ([ProcessingPdf pdf, Redacted pdf all_rects sanitized],
                                        Inr (if snd st \<noteq> []
                                             then Some \<lparr>lc_pdf = pdf, lc_low_rects = snd st\<rparr>
                                             else None))))))))"

text \<open>
  The loop over \<open>pdf_entries\<close>, with the events so far and \<open>results_low_conf\<close> as the
  state. An error raised for one PDF ends the run.
\<close>

fun secondary_loop ::
  "secondary_env \<Rightarrow> profile \<Rightarrow> string \<Rightarrow> string option \<Rightarrow> rat \<Rightarrow> low_conf_report list
     \<Rightarrow> batch_event list \<Rightarrow> low_conf_report list
     \<Rightarrow> batch_event list \<times> (pipeline_error + low_conf_report list)" where
  "secondary_loop env profile output_dir input_root threshold [] ev results_low_conf =
     (ev, Inr results_low_conf)"
| "secondary_loop env profile output_dir input_root threshold (item # items) ev results_low_conf =
     (case secondary_pdf env profile output_dir input_root threshold (lc_pdf item) of
        (ev1, Inl e) \<Rightarrow> (ev @ ev1, Inl e)
      | (ev1, Inr None) \<Rightarrow>
          secondary_loop env profile output_dir input_root threshold items (ev @ ev1)
            results_low_conf
      | (ev1, Inr (Some report)) \<Rightarrow>
          secondary_loop env profile output_dir input_root threshold items (ev @ ev1)
            (results_low_conf @ [report]))"

text \<open>
  \<^verbatim>\<open>process_low_conf_batch(low_conf, new_template_id, output_dir, threshold, image_map,
  input_root, device_id)\<close>; \<open>image_map\<close> is not read. The two guards come first, then the
  template manager, the resolution of the template, the load of the chosen profile and
  the loop over the PDFs.
\<close>

definition process_low_conf_batch ::
  "disk \<Rightarrow> (string \<Rightarrow> profile option) \<Rightarrow> secondary_env
     \<Rightarrow> low_conf_report list \<Rightarrow> string \<Rightarrow> string \<Rightarrow> rat \<Rightarrow> string option \<Rightarrow> string option
     \<Rightarrow> batch_event list \<times> (pipeline_error + low_conf_report list)" where
  "process_low_conf_batch listdir profiles env low_conf new_template_id output_dir threshold
       input_root dev =
     (if low_conf = [] then
        ([Printed ''No low-confidence PDFs provided to secondary process. Nothing to do.''], Inr [])
      else if length low_conf < 3 then
        ([Printed (''Secondary process is limited to 3 PDFs. Received: ''
                   @ show_nat (length low_conf) @ ''. Skipping.'')], Inr [])
      else
        (case template_manager_init dev of
           Inl e \<Rightarrow> ([], Inl e)
         | Inr tm \<Rightarrow>
             (case resolve_template listdir profiles tm new_template_id of
                (ev, Inl e) \<Rightarrow> (ev, Inl e)
              | (ev, Inr chosen_template_id) \<Rightarrow>
                  (case profiles chosen_template_id of
                     None \<Rightarrow> (ev @ [LoadedProfile chosen_template_id],
                               Inl (ProfileNotFound chosen_template_id))
                   | Some profile \<Rightarrow>
                       secondary_loop env profile output_dir input_root threshold
                         (pdf_entries low_conf) (ev @ [LoadedProfile chosen_template_id]) []))))"

text \<open>
  The ids of the profiles a run tried to load, and the PDFs it started to work on, both
  in order.
\<close>

fun loaded_ids :: "batch_event list \<Rightarrow> string list" where
  "loaded_ids [] = []"
| "loaded_ids (LoadedProfile i # ev) = i # loaded_ids ev"
| "loaded_ids (e # ev) = loaded_ids ev"

fun processed_pdfs :: "batch_event list \<Rightarrow> string list" where
  "processed_pdfs [] = []"
| "processed_pdfs (ProcessingPdf p # ev) = p # processed_pdfs ev"
| "processed_pdfs (e # ev) = processed_pdfs ev"

section \<open>Properties\<close>

subsection \<open>Dicts of lists and grouping\<close>

lemma dict_extend_mset:
  "mset (concat (map snd (dict_extend k vs d))) = mset (concat (map snd d)) + mset vs"
  by (induction d) auto

lemma dict_extend_map_of:
  "map_of (dict_extend k vs d) k' =
     (if k' = k then Some ((case map_of d k of None \<Rightarrow> [] | Some old \<Rightarrow> old) @ vs)
      else map_of d k')"
  by (induction d) auto

lemma dict_extend_keys: "fst ` set (dict_extend k vs d) = insert k (fst ` set d)"
proof (induction d)
  case Nil
  show ?case by simp
next
  case (Cons a d)
  obtain k' vs' where a: "a = (k', vs')" by (cases a)
  show ?case
  proof (cases "k = k'")
    case True
    then show ?thesis unfolding a by simp
  next
    case False
    then show ?thesis unfolding a by (simp add: Cons.IH insert_commute)
  qed
qed

lemma dict_extend_distinct:
  "distinct (map fst d) \<Longrightarrow> distinct (map fst (dict_extend k vs d))"
proof (induction d)
  case Nil
  show ?case by simp
next
  case (Cons a d)
  obtain k' vs' where a: "a = (k', vs')" by (cases a)
  show ?case
  proof (cases "k = k'")
    case True
    with Cons.prems show ?thesis unfolding a by simp
  next
    case False
    have "k' \<notin> fst ` set (dict_extend k vs d)"
      using Cons.prems False unfolding a dict_extend_keys by simp
    with Cons False show ?thesis unfolding a by simp
  qed
qed

lemma group_loop_mset:
  "mset (concat (map snd (group_loop key recs d))) = mset (concat (map snd d)) + mset recs"
  by (induction recs arbitrary: d) (simp_all add: dict_append_def dict_extend_mset)

lemma group_loop_distinct:
  "distinct (map fst d) \<Longrightarrow> distinct (map fst (group_loop key recs d))"
  by (induction recs arbitrary: d) (simp_all add: dict_append_def dict_extend_distinct)

lemma group_loop_map_of:
  "map_of (group_loop key recs d) k =
     (case map_of d k of
        None \<Rightarrow> (if filter (\<lambda>r. key r = k) recs = [] then None
                 else Some (filter (\<lambda>r. key r = k) recs))
      | Some old \<Rightarrow> Some (old @ filter (\<lambda>r. key r = k) recs))"
proof (induction recs arbitrary: d)
  case Nil
  show ?case by (simp split: option.splits)
next
  case (Cons r recs)
  show ?case
    by (simp add: Cons.IH dict_append_def dict_extend_map_of split: option.splits)
qed

lemma group_by_key_entries:
  "(k, vs) \<in> set (group_by_key key recs) \<longleftrightarrow> vs = filter (\<lambda>r. key r = k) recs \<and> vs \<noteq> []"
proof -
  have d: "distinct (map fst (group_by_key key recs))"
    unfolding group_by_key_def by (rule group_loop_distinct) simp
  have "(k, vs) \<in> set (group_by_key key recs) \<longleftrightarrow> map_of (group_by_key key recs) k = Some vs"
    using d by simp
  also have "\<dots> \<longleftrightarrow> vs = filter (\<lambda>r. key r = k) recs \<and> vs \<noteq> []"
    unfolding group_by_key_def group_loop_map_of by auto
  finally show ?thesis .
qed

lemma group_by_key_mset: "mset (concat (map snd (group_by_key key recs))) = mset recs"
  by (simp add: group_by_key_def group_loop_mset)

lemma list_all2_map_eq: "list_all2 (\<lambda>x y. f x = g y) xs ys \<Longrightarrow> map f xs = map g ys"
  by (induction rule: list_all2_induct) simp_all

subsection \<open>Which zones are redacted and which are reported\<close>

lemma scan_group_eq:
  "scan_group t lst ps gf =
     (ps\<lparr>page_passing_rects := page_passing_rects ps @ filter (rect_pass t) lst,
         page_failing_rects := page_failing_rects ps @ filter (\<lambda>r. \<not> rect_pass t r) lst\<rparr>,
      gf @ filter (\<lambda>r. \<not> rect_pass t r) lst)"
  by (induction lst arbitrary: ps gf) simp_all

lemma scan_groups_eq:
  "scan_groups t groups ps =
     \<lparr>page_passing_rects = page_passing_rects ps @ filter (rect_pass t) (concat (map snd groups)),
      page_failing_rects = page_failing_rects ps
                             @ filter (\<lambda>r. \<not> rect_pass t r) (concat (map snd groups)),
      page_has_passing_group =
        (page_has_passing_group ps \<or> (\<exists>g\<in>set groups. \<forall>r\<in>set (snd g). rect_pass t r))\<rparr>"
proof (induction groups arbitrary: ps)
  case Nil
  show ?case by simp
next
  case (Cons a groups)
  obtain gid lst where a: "a = (gid, lst)" by (cases a)
  have e: "(filter (\<lambda>r. \<not> rect_pass t r) lst = []) = (\<forall>r\<in>set lst. rect_pass t r)"
    by (simp add: filter_empty_conv)
  show ?case
    unfolding a by (auto simp: scan_group_eq Cons.IH e)
qed

lemma scan_page_eq:
  "scan_page t pg recs bs =
     \<lparr>high_conf_rects =
        high_conf_rects bs @ map to_high_conf (filter (rect_pass t) (in_group_order recs)),
      low_confidence_by_page =
        (if filter (\<lambda>r. \<not> rect_pass t r) (in_group_order recs) \<noteq> [] \<and> \<not> some_group_passes t recs
         then dict_extend pg (map sr_bbox (filter (\<lambda>r. \<not> rect_pass t r) (in_group_order recs)))
                (low_confidence_by_page bs)
         else low_confidence_by_page bs),
      pdf_all_pages_have_passing_group =
        (pdf_all_pages_have_passing_group bs \<and> some_group_passes t recs)\<rparr>"
  by (simp add: scan_page_def scan_groups_eq in_group_order_def some_group_passes_def Let_def)

lemma scan_pages_high:
  "high_conf_rects (scan_pages t pages bs) =
     high_conf_rects bs
       @ map to_high_conf (filter (rect_pass t) (concat (map (\<lambda>p. in_group_order (snd p)) pages)))"
proof (induction pages arbitrary: bs)
  case Nil
  show ?case by simp
next
  case (Cons a pages)
  obtain pg recs where a: "a = (pg, recs)" by (cases a)
  show ?case
    unfolding a by (simp add: Cons.IH scan_page_eq)
qed

lemma scan_pages_low:
  assumes "distinct (map fst pages)"
  shows "map_of (low_confidence_by_page (scan_pages t pages bs)) pg =
     (case map_of pages pg of
        None \<Rightarrow> map_of (low_confidence_by_page bs) pg
      | Some recs \<Rightarrow>
          if filter (\<lambda>r. \<not> rect_pass t r) (in_group_order recs) \<noteq> [] \<and> \<not> some_group_passes t recs
          then Some ((case map_of (low_confidence_by_page bs) pg of None \<Rightarrow> [] | Some old \<Rightarrow> old)
                     @ map sr_bbox (filter (\<lambda>r. \<not> rect_pass t r) (in_group_order recs)))
          else map_of (low_confidence_by_page bs) pg)"
  using assms
proof (induction pages arbitrary: bs)
  case Nil
  show ?case by simp
next
  case (Cons a pages)
  obtain pg0 recs0 where a: "a = (pg0, recs0)" by (cases a)
  from Cons.prems have d: "distinct (map fst pages)" and n: "pg0 \<notin> fst ` set pages"
    unfolding a by simp_all
  let ?bs' = "scan_page t pg0 recs0 bs"
  let ?fail0 = "filter (\<lambda>r. \<not> rect_pass t r) (in_group_order recs0)"
  have step: "scan_pages t (a # pages) bs = scan_pages t pages ?bs'"
    unfolding a by simp
  have low': "low_confidence_by_page ?bs' =
                (if ?fail0 \<noteq> [] \<and> \<not> some_group_passes t recs0
                 then dict_extend pg0 (map sr_bbox ?fail0) (low_confidence_by_page bs)
                 else low_confidence_by_page bs)"
    by (simp add: scan_page_eq)
  have ih: "map_of (low_confidence_by_page (scan_pages t (a # pages) bs)) pg =
     (case map_of pages pg of
        None \<Rightarrow> map_of (low_confidence_by_page ?bs') pg
      | Some recs \<Rightarrow>
          if filter (\<lambda>r. \<not> rect_pass t r) (in_group_order recs) \<noteq> [] \<and> \<not> some_group_passes t recs
          then Some ((case map_of (low_confidence_by_page ?bs') pg of None \<Rightarrow> [] | Some old \<Rightarrow> old)
                     @ map sr_bbox (filter (\<lambda>r. \<not> rect_pass t r) (in_group_order recs)))
          else map_of (low_confidence_by_page ?bs') pg)"
    unfolding step by (rule Cons.IH[OF d])
  show ?case
  proof (cases "pg = pg0")
    case True
    from n have m: "map_of pages pg = None"
      unfolding True by (simp add: map_of_eq_None_iff)
    have m2: "map_of (a # pages) pg = Some recs0"
      unfolding a True by simp
    show ?thesis
      unfolding ih m m2 low' using True by (simp add: dict_extend_map_of)
  next
    case False
    have m2: "map_of (a # pages) pg = map_of pages pg"
      unfolding a using False by simp
    have o: "map_of (low_confidence_by_page ?bs') pg = map_of (low_confidence_by_page bs) pg"
      unfolding low' using False by (simp add: dict_extend_map_of)
    show ?thesis
      unfolding ih m2 o ..
  qed
qed

lemma in_group_order_mset: "mset (in_group_order recs) = mset recs"
  by (simp add: in_group_order_def group_by_key_mset)

lemma pages_mset:
  "mset (concat (map (\<lambda>p. in_group_order (snd p)) pages)) = mset (concat (map snd pages))"
  by (induction pages) (simp_all add: in_group_order_mset)

lemma some_group_passes_spec:
  "some_group_passes t (filter (\<lambda>r. sr_page r = pg) recs) = page_has_passing_group_spec t recs pg"
proof
  assume "some_group_passes t (filter (\<lambda>r. sr_page r = pg) recs)"
  then obtain k vs where g: "(k, vs) \<in> set (group_by_key sr_group_id (filter (\<lambda>r. sr_page r = pg) recs))"
    and p: "\<forall>r\<in>set vs. rect_pass t r"
    unfolding some_group_passes_def by auto
  from g have gv: "vs = filter (\<lambda>r. sr_group_id r = k) (filter (\<lambda>r. sr_page r = pg) recs) \<and> vs \<noteq> []"
    by (rule iffD1[OF group_by_key_entries])
  have vs: "vs = filter (\<lambda>r. sr_group_id r = k) (filter (\<lambda>r. sr_page r = pg) recs)"
    using gv by (rule conjunct1)
  have vne: "vs \<noteq> []"
    using gv by (rule conjunct2)
  from vne obtain r0 where r0: "r0 \<in> set vs"
    by (cases vs) auto
  with vs have "r0 \<in> set recs" "sr_page r0 = pg" "sr_group_id r0 = k"
    by auto
  moreover have "\<forall>r'\<in>set recs. sr_page r' = pg \<and> sr_group_id r' = k \<longrightarrow> zone_passes t r'"
    using p vs by (auto simp: zone_passes_def rect_pass_def)
  ultimately show "page_has_passing_group_spec t recs pg"
    unfolding page_has_passing_group_spec_def by blast
next
  assume "page_has_passing_group_spec t recs pg"
  then obtain r0 where r0: "r0 \<in> set recs" "sr_page r0 = pg"
    and p: "\<forall>r'\<in>set recs. sr_page r' = pg \<and> sr_group_id r' = sr_group_id r0 \<longrightarrow> zone_passes t r'"
    unfolding page_has_passing_group_spec_def by blast
  let ?vs = "filter (\<lambda>r. sr_group_id r = sr_group_id r0) (filter (\<lambda>r. sr_page r = pg) recs)"
  from r0 have "r0 \<in> set ?vs" by simp
  then have "0 < length ?vs" by (rule length_pos_if_in_set)
  then have ne: "?vs \<noteq> []" by (rule iffD1[OF length_greater_0_conv])
  have "?vs = ?vs \<and> ?vs \<noteq> []"
    using ne by simp
  then have gm: "(sr_group_id r0, ?vs) \<in> set (group_by_key sr_group_id (filter (\<lambda>r. sr_page r = pg) recs))"
    by (rule iffD2[OF group_by_key_entries])
  have "\<forall>r\<in>set ?vs. rect_pass t r"
    using p by (auto simp: zone_passes_def rect_pass_def)
  then have pp: "\<forall>r\<in>set (snd (sr_group_id r0, ?vs)). rect_pass t r"
    by (simp only: snd_conv)
  show "some_group_passes t (filter (\<lambda>r. sr_page r = pg) recs)"
    unfolding some_group_passes_def
  proof (rule bexI[where x = "(sr_group_id r0, ?vs)"])
    show "\<forall>r\<in>set (snd (sr_group_id r0, ?vs)). rect_pass t r"
      by (rule pp)
    show "(sr_group_id r0, ?vs) \<in> set (group_by_key sr_group_id (filter (\<lambda>r. sr_page r = pg) recs))"
      by (rule gm)
  qed
qed

lemma pages_lookup:
  "map_of (group_by_key sr_page recs) pg =
     (if filter (\<lambda>r. sr_page r = pg) recs = [] then None
      else Some (filter (\<lambda>r. sr_page r = pg) recs))"
  by (simp add: group_by_key_def group_loop_map_of)

lemma pages_distinct: "distinct (map fst (group_by_key key recs))"
  unfolding group_by_key_def by (rule group_loop_distinct) simp

lemma classify_high_mset:
  "mset (high_conf_rects (classify_scores thr recs))
     = mset (map to_high_conf (filter (zone_passes thr) recs))"
proof -
  have z: "rect_pass thr = zone_passes thr"
    by (simp add: fun_eq_iff rect_pass_def zone_passes_def)
  have "mset (high_conf_rects (classify_scores thr recs))
          = image_mset to_high_conf (filter_mset (zone_passes thr)
              (mset (concat (map (\<lambda>p. in_group_order (snd p)) (group_by_key sr_page recs)))))"
    by (simp add: classify_scores_def scan_pages_high z)
  also have "\<dots> = image_mset to_high_conf (filter_mset (zone_passes thr) (mset recs))"
    by (simp only: pages_mset group_by_key_mset)
  finally show ?thesis by simp
qed

lemma classify_low_lookup:
  "page_lookup (low_confidence_by_page (classify_scores thr recs)) pg =
     (if (\<exists>r\<in>set recs. sr_page r = pg \<and> \<not> zone_passes thr r)
         \<and> \<not> page_has_passing_group_spec thr recs pg
      then Some (map sr_bbox
                   (filter (\<lambda>r. \<not> rect_pass thr r) (in_group_order (filter (\<lambda>r. sr_page r = pg) recs))))
      else None)"
proof -
  let ?recs = "filter (\<lambda>r. sr_page r = pg) recs"
  have f: "(filter (\<lambda>r. \<not> rect_pass thr r) (in_group_order ?recs) \<noteq> [])
             = (\<exists>r\<in>set recs. sr_page r = pg \<and> \<not> zone_passes thr r)"
  proof -
    have "set (in_group_order ?recs) = set ?recs"
      using in_group_order_mset[of ?recs] by (metis set_mset_mset)
    then show ?thesis
      by (auto simp: filter_empty_conv zone_passes_def rect_pass_def)
  qed
  have e: "?recs = [] \<Longrightarrow> \<not> (\<exists>r\<in>set recs. sr_page r = pg \<and> \<not> zone_passes thr r)"
    by (auto simp: filter_empty_conv)
  show ?thesis
    unfolding page_lookup_def classify_scores_def Let_def
    by (simp add: scan_pages_low[OF pages_distinct] pages_lookup f some_group_passes_spec e)
qed

lemma rescore_fields:
  "sr_page (rescore f g r) = sr_page r" "sr_group_id (rescore f g r) = sr_group_id r"
  "sr_bbox (rescore f g r) = sr_bbox r" "sr_iscore (rescore f g r) = sr_iscore r"
  "to_high_conf (rescore f g r) = to_high_conf r" "rect_pass t (rescore f g r) = rect_pass t r"
  by (simp_all add: rescore_def to_high_conf_def rect_pass_def)

lemma dict_extend_map:
  "dict_extend k (map h vs) (map (apsnd (map h)) d) = map (apsnd (map h)) (dict_extend k vs d)"
  by (induction d) auto

lemma group_loop_map:
  assumes "\<And>r. key (h r) = key r"
  shows "group_loop key (map h recs) (map (apsnd (map h)) d)
           = map (apsnd (map h)) (group_loop key recs d)"
proof (induction recs arbitrary: d)
  case Nil
  show ?case by simp
next
  case (Cons r recs)
  have "dict_append (key r) (h r) (map (apsnd (map h)) d)
          = map (apsnd (map h)) (dict_append (key r) r d)"
    using dict_extend_map[of "key r" h "[r]" d] by (simp add: dict_append_def)
  then show ?case
    by (simp add: assms Cons.IH)
qed

lemma group_by_key_map:
  assumes "\<And>r. key (h r) = key r"
  shows "group_by_key key (map h recs) = map (apsnd (map h)) (group_by_key key recs)"
  using group_loop_map[of key h recs "[]", OF assms] by (simp add: group_by_key_def)

lemma in_group_order_rescore:
  "in_group_order (map (rescore f g) recs) = map (rescore f g) (in_group_order recs)"
  by (simp add: in_group_order_def group_by_key_map rescore_fields map_concat comp_def)

lemma filter_pass_rescore:
  "filter (rect_pass t) (map (rescore f g) xs) = map (rescore f g) (filter (rect_pass t) xs)"
  "filter (\<lambda>r. \<not> rect_pass t r) (map (rescore f g) xs)
     = map (rescore f g) (filter (\<lambda>r. \<not> rect_pass t r) xs)"
  by (simp_all add: filter_map comp_def rescore_fields)

lemma some_group_passes_rescore:
  "some_group_passes t (map (rescore f g) recs) = some_group_passes t recs"
  by (simp add: some_group_passes_def group_by_key_map rescore_fields)

lemma scan_page_rescore:
  "scan_page t pg (map (rescore f g) recs) bs = scan_page t pg recs bs"
  by (simp add: scan_page_eq in_group_order_rescore filter_pass_rescore some_group_passes_rescore
                comp_def rescore_fields)

lemma scan_pages_rescore:
  "scan_pages t (map (apsnd (map (rescore f g))) pages) bs = scan_pages t pages bs"
proof (induction pages arbitrary: bs)
  case Nil
  show ?case by simp
next
  case (Cons a pages)
  obtain pg recs where a: "a = (pg, recs)" by (cases a)
  show ?case
    unfolding a by (simp add: scan_page_rescore Cons.IH)
qed

lemma classify_scores_rescore:
  "classify_scores thr (map (rescore f g) recs) = classify_scores thr recs"
  by (simp add: classify_scores_def group_by_key_map rescore_fields scan_pages_rescore)

text \<open>
  C1 as stated fails where a page has several groups. With threshold 0.9, a zone of image
  score 0.80 alone in its group, on a page whose other group (one zone, image score 0.95)
  passes, is not redacted and is not reported either: the page has a passing group.
\<close>

theorem classify_scores_other_group_counterexample:
  "classify_scores (9 / 10)
     [\<lparr>sr_page = 0, sr_bbox = (10, 10, 20, 20), sr_tidx = 0, sr_tscore = 1,
       sr_iscore = 8 / 10, sr_rscore = 9 / 10, sr_group_id = Some ''src0|p0''\<rparr>,
      \<lparr>sr_page = 0, sr_bbox = (30, 30, 40, 40), sr_tidx = 1, sr_tscore = 1,
       sr_iscore = 95 / 100, sr_rscore = 39 / 40, sr_group_id = Some ''src1|p0''\<rparr>]
   = \<lparr>high_conf_rects = [\<lparr>hc_page = 0, hc_bbox = (30, 30, 40, 40), hc_tidx = 1\<rparr>],
      low_confidence_by_page = [],
      pdf_all_pages_have_passing_group = True\<rparr>"
  by code_simp

text \<open>
  C1, amended. For every list of scored zones and every threshold: a zone passes exactly
  when its image score is at least the threshold; the redaction set holds every passing
  zone once and nothing else, whatever its group does; a page is reported exactly when
  one of its zones fails and none of its groups has all its zones passing, and the boxes
  reported for it are then those of its failing zones; and changing text scores and
  combined scores changes nothing. With threshold 0.9, a zone of image score 0.80 on a
  page that has no group with all zones passing is reported, and is redacted only if a
  passing zone has the same page, box and index; a zone of image score 0.95 is redacted.
\<close>

theorem classify_scores_gating:
  "(\<forall>r. rect_pass thr r = (sr_iscore r \<ge> thr))
   \<and> mset (high_conf_rects (classify_scores thr recs))
       = mset (map to_high_conf (filter (zone_passes thr) recs))
   \<and> (\<forall>pg. (page_lookup (low_confidence_by_page (classify_scores thr recs)) pg \<noteq> None)
             = ((\<exists>r\<in>set recs. sr_page r = pg \<and> \<not> zone_passes thr r)
                \<and> \<not> page_has_passing_group_spec thr recs pg))
   \<and> (\<forall>pg bbs. page_lookup (low_confidence_by_page (classify_scores thr recs)) pg = Some bbs
         \<longrightarrow> mset bbs = mset (map sr_bbox (filter (\<lambda>r. sr_page r = pg \<and> \<not> zone_passes thr r) recs)))
   \<and> (\<forall>f g. classify_scores thr (map (rescore f g) recs) = classify_scores thr recs)
   \<and> (\<forall>r\<in>set recs. sr_iscore r = 8 / 10
         \<and> \<not> page_has_passing_group_spec (9 / 10) recs (sr_page r)
         \<longrightarrow> (\<exists>bbs. page_lookup (low_confidence_by_page (classify_scores (9 / 10) recs)) (sr_page r)
                       = Some bbs \<and> sr_bbox r \<in> set bbs)
             \<and> (to_high_conf r \<in> set (high_conf_rects (classify_scores (9 / 10) recs))
                  \<longrightarrow> (\<exists>r'\<in>set recs. zone_passes (9 / 10) r' \<and> to_high_conf r' = to_high_conf r)))
   \<and> (\<forall>r\<in>set recs. sr_iscore r = 95 / 100
         \<longrightarrow> to_high_conf r \<in> set (high_conf_rects (classify_scores (9 / 10) recs)))"
proof -
  have z: "rect_pass t = zone_passes t" for t
    by (simp add: fun_eq_iff rect_pass_def zone_passes_def)
  have low_mset: "mset (map sr_bbox (filter (\<lambda>r. \<not> rect_pass t r)
                                      (in_group_order (filter (\<lambda>r. sr_page r = pg) recs))))
                    = mset (map sr_bbox (filter (\<lambda>r. sr_page r = pg \<and> \<not> zone_passes t r) recs))"
    for t pg
  proof -
    have "mset (filter (\<lambda>r. \<not> rect_pass t r) (in_group_order (filter (\<lambda>r. sr_page r = pg) recs)))
            = filter_mset (\<lambda>r. \<not> rect_pass t r) (mset (filter (\<lambda>r. sr_page r = pg) recs))"
      by (simp only: mset_filter in_group_order_mset)
    also have "\<dots> = mset (filter (\<lambda>r. sr_page r = pg \<and> \<not> zone_passes t r) recs)"
      by (simp add: z filter_filter_mset)
    finally show ?thesis
      by (metis mset_map)
  qed
  have in_high: "to_high_conf r \<in> set (high_conf_rects (classify_scores t recs))
                   \<longleftrightarrow> (\<exists>r'\<in>set recs. zone_passes t r' \<and> to_high_conf r' = to_high_conf r)"
    for t r
  proof -
    have "set (high_conf_rects (classify_scores t recs))
            = set (map to_high_conf (filter (zone_passes t) recs))"
      using classify_high_mset[of t recs] by (metis set_mset_mset)
    then have eq: "set (high_conf_rects (classify_scores t recs))
                 = to_high_conf ` {x \<in> set recs. zone_passes t x}"
      by simp
    show ?thesis
    proof
      assume "to_high_conf r \<in> set (high_conf_rects (classify_scores t recs))"
      then have "to_high_conf r \<in> to_high_conf ` {x \<in> set recs. zone_passes t x}"
        by (simp only: eq)
      then obtain r' where "r' \<in> {x \<in> set recs. zone_passes t x}" "to_high_conf r = to_high_conf r'"
        by (rule imageE)
      then have "r' \<in> set recs" "zone_passes t r' \<and> to_high_conf r' = to_high_conf r"
        by simp_all
      then show "\<exists>r'\<in>set recs. zone_passes t r' \<and> to_high_conf r' = to_high_conf r"
        by (rule bexI[rotated])
    next
      assume "\<exists>r'\<in>set recs. zone_passes t r' \<and> to_high_conf r' = to_high_conf r"
      then obtain r' where r': "r' \<in> set recs" "zone_passes t r'" "to_high_conf r' = to_high_conf r"
        by blast
      then have "r' \<in> {x \<in> set recs. zone_passes t x}"
        by simp
      then have "to_high_conf r' \<in> to_high_conf ` {x \<in> set recs. zone_passes t x}"
        by (rule imageI)
      then show "to_high_conf r \<in> set (high_conf_rects (classify_scores t recs))"
        by (simp only: eq r'(3))
    qed
  qed
  have a: "\<forall>r. rect_pass thr r = (sr_iscore r \<ge> thr)"
    by (simp add: rect_pass_def)
  have b: "mset (high_conf_rects (classify_scores thr recs))
             = mset (map to_high_conf (filter (zone_passes thr) recs))"
    by (rule classify_high_mset)
  have c: "\<forall>pg. (page_lookup (low_confidence_by_page (classify_scores thr recs)) pg \<noteq> None)
             = ((\<exists>r\<in>set recs. sr_page r = pg \<and> \<not> zone_passes thr r)
                \<and> \<not> page_has_passing_group_spec thr recs pg)"
    by (simp add: classify_low_lookup)
  have d: "\<forall>pg bbs. page_lookup (low_confidence_by_page (classify_scores thr recs)) pg = Some bbs
         \<longrightarrow> mset bbs = mset (map sr_bbox (filter (\<lambda>r. sr_page r = pg \<and> \<not> zone_passes thr r) recs))"
    using low_mset[of thr] by (auto simp: classify_low_lookup split: if_splits)
  have e: "\<forall>f g. classify_scores thr (map (rescore f g) recs) = classify_scores thr recs"
    by (simp add: classify_scores_rescore)
  have f: "\<forall>r\<in>set recs. sr_iscore r = 8 / 10
         \<and> \<not> page_has_passing_group_spec (9 / 10) recs (sr_page r)
         \<longrightarrow> (\<exists>bbs. page_lookup (low_confidence_by_page (classify_scores (9 / 10) recs)) (sr_page r)
                       = Some bbs \<and> sr_bbox r \<in> set bbs)
             \<and> (to_high_conf r \<in> set (high_conf_rects (classify_scores (9 / 10) recs))
                  \<longrightarrow> (\<exists>r'\<in>set recs. zone_passes (9 / 10) r' \<and> to_high_conf r' = to_high_conf r))"
  proof (intro ballI impI conjI)
    fix r
    assume r: "r \<in> set recs"
      and h: "sr_iscore r = 8 / 10 \<and> \<not> page_has_passing_group_spec (9 / 10) recs (sr_page r)"
    let ?bbs = "map sr_bbox (filter (\<lambda>x. \<not> rect_pass (9 / 10) x)
                  (in_group_order (filter (\<lambda>x. sr_page x = sr_page r) recs)))"
    from h have nf: "\<not> zone_passes (9 / 10) r"
      by (simp add: zone_passes_def)
    with r have ex: "\<exists>x\<in>set recs. sr_page x = sr_page r \<and> \<not> zone_passes (9 / 10) x"
      by blast
    have l: "page_lookup (low_confidence_by_page (classify_scores (9 / 10) recs)) (sr_page r) = Some ?bbs"
      using ex h by (simp add: classify_low_lookup)
    have "sr_bbox r \<in># mset (map sr_bbox (filter (\<lambda>x. sr_page x = sr_page r \<and> \<not> zone_passes (9 / 10) x) recs))"
      using r nf by simp
    then have "sr_bbox r \<in># mset ?bbs"
      by (simp only: low_mset)
    then have "sr_bbox r \<in> set ?bbs"
      by (simp only: set_mset_mset)
    with l show "\<exists>bbs. page_lookup (low_confidence_by_page (classify_scores (9 / 10) recs)) (sr_page r)
                       = Some bbs \<and> sr_bbox r \<in> set bbs"
      by blast
  next
    fix r
    assume "to_high_conf r \<in> set (high_conf_rects (classify_scores (9 / 10) recs))"
    then show "\<exists>r'\<in>set recs. zone_passes (9 / 10) r' \<and> to_high_conf r' = to_high_conf r"
      by (simp only: in_high)
  qed
  have g: "\<forall>r\<in>set recs. sr_iscore r = 95 / 100
         \<longrightarrow> to_high_conf r \<in> set (high_conf_rects (classify_scores (9 / 10) recs))"
  proof (intro ballI impI)
    fix r
    assume r: "r \<in> set recs" and s: "sr_iscore r = 95 / 100"
    then have "zone_passes (9 / 10) r"
      by (simp add: zone_passes_def)
    with r show "to_high_conf r \<in> set (high_conf_rects (classify_scores (9 / 10) recs))"
      unfolding in_high by blast
  qed
  show ?thesis
    by (intro conjI a b c d e f g)
qed

theorem classify_scores_gating_witness:
  "to_high_conf \<lparr>sr_page = 0, sr_bbox = (30, 30, 40, 40), sr_tidx = 1, sr_tscore = 0,
                  sr_iscore = 95 / 100, sr_rscore = 19 / 40, sr_group_id = Some ''src1|p0''\<rparr>
     \<in> set (high_conf_rects (classify_scores (9 / 10)
          [\<lparr>sr_page = 1, sr_bbox = (10, 10, 20, 20), sr_tidx = 0, sr_tscore = 1,
            sr_iscore = 8 / 10, sr_rscore = 9 / 10, sr_group_id = Some ''src0|p0''\<rparr>,
           \<lparr>sr_page = 1, sr_bbox = (50, 50, 60, 60), sr_tidx = 2, sr_tscore = 1,
            sr_iscore = 1, sr_rscore = 1, sr_group_id = Some ''src0|p0''\<rparr>,
           \<lparr>sr_page = 0, sr_bbox = (30, 30, 40, 40), sr_tidx = 1, sr_tscore = 0,
            sr_iscore = 95 / 100, sr_rscore = 19 / 40, sr_group_id = Some ''src1|p0''\<rparr>]))
   \<and> (\<exists>bbs. page_lookup (low_confidence_by_page (classify_scores (9 / 10)
          [\<lparr>sr_page = 1, sr_bbox = (10, 10, 20, 20), sr_tidx = 0, sr_tscore = 1,
            sr_iscore = 8 / 10, sr_rscore = 9 / 10, sr_group_id = Some ''src0|p0''\<rparr>,
           \<lparr>sr_page = 1, sr_bbox = (50, 50, 60, 60), sr_tidx = 2, sr_tscore = 1,
            sr_iscore = 1, sr_rscore = 1, sr_group_id = Some ''src0|p0''\<rparr>,
           \<lparr>sr_page = 0, sr_bbox = (30, 30, 40, 40), sr_tidx = 1, sr_tscore = 0,
            sr_iscore = 95 / 100, sr_rscore = 19 / 40, sr_group_id = Some ''src1|p0''\<rparr>])) 1
          = Some bbs \<and> (10, 10, 20, 20) \<in> set bbs)
   \<and> classify_scores (9 / 10)
          [\<lparr>sr_page = 1, sr_bbox = (10, 10, 20, 20), sr_tidx = 0, sr_tscore = 1,
            sr_iscore = 8 / 10, sr_rscore = 9 / 10, sr_group_id = Some ''src0|p0''\<rparr>,
           \<lparr>sr_page = 1, sr_bbox = (50, 50, 60, 60), sr_tidx = 2, sr_tscore = 1,
            sr_iscore = 1, sr_rscore = 1, sr_group_id = Some ''src0|p0''\<rparr>,
           \<lparr>sr_page = 0, sr_bbox = (30, 30, 40, 40), sr_tidx = 1, sr_tscore = 0,
            sr_iscore = 95 / 100, sr_rscore = 19 / 40, sr_group_id = Some ''src1|p0''\<rparr>]
       = \<lparr>high_conf_rects = [\<lparr>hc_page = 1, hc_bbox = (50, 50, 60, 60), hc_tidx = 2\<rparr>,
                              \<lparr>hc_page = 0, hc_bbox = (30, 30, 40, 40), hc_tidx = 1\<rparr>],
          low_confidence_by_page = [(1, [(10, 10, 20, 20)])],
          pdf_all_pages_have_passing_group = False\<rparr>"
proof -
  let ?c = "\<lparr>sr_page = 1, sr_bbox = (10, 10, 20, 20), sr_tidx = 0, sr_tscore = 1,
            sr_iscore = 8 / 10, sr_rscore = 9 / 10, sr_group_id = Some ''src0|p0''\<rparr>"
  let ?d = "\<lparr>sr_page = 1, sr_bbox = (50, 50, 60, 60), sr_tidx = 2, sr_tscore = 1,
            sr_iscore = 1, sr_rscore = 1, sr_group_id = Some ''src0|p0''\<rparr>"
  let ?b = "\<lparr>sr_page = 0, sr_bbox = (30, 30, 40, 40), sr_tidx = 1, sr_tscore = 0,
            sr_iscore = 95 / 100, sr_rscore = 19 / 40, sr_group_id = Some ''src1|p0''\<rparr>"
  let ?recs = "[?c, ?d, ?b]"
  note t = classify_scores_gating [of "9 / 10" ?recs]
  have low: "\<forall>r\<in>set ?recs. sr_iscore r = 8 / 10
         \<and> \<not> page_has_passing_group_spec (9 / 10) ?recs (sr_page r)
         \<longrightarrow> (\<exists>bbs. page_lookup (low_confidence_by_page (classify_scores (9 / 10) ?recs)) (sr_page r)
                       = Some bbs \<and> sr_bbox r \<in> set bbs)
             \<and> (to_high_conf r \<in> set (high_conf_rects (classify_scores (9 / 10) ?recs))
                  \<longrightarrow> (\<exists>r'\<in>set ?recs. zone_passes (9 / 10) r' \<and> to_high_conf r' = to_high_conf r))"
    using t by (elim conjE)
  have high: "\<forall>r\<in>set ?recs. sr_iscore r = 95 / 100
         \<longrightarrow> to_high_conf r \<in> set (high_conf_rects (classify_scores (9 / 10) ?recs))"
    using t by (elim conjE)
  have cm: "?c \<in> set ?recs" and bm: "?b \<in> set ?recs"
    by simp_all
  have np: "\<not> page_has_passing_group_spec (9 / 10) ?recs 1"
    by code_simp
  have "sr_iscore ?c = 8 / 10 \<and> \<not> page_has_passing_group_spec (9 / 10) ?recs (sr_page ?c)"
    using np by simp
  with bspec[OF low cm]
  have "\<exists>bbs. page_lookup (low_confidence_by_page (classify_scores (9 / 10) ?recs)) (sr_page ?c)
                 = Some bbs \<and> sr_bbox ?c \<in> set bbs"
    by blast
  then have a: "\<exists>bbs. page_lookup (low_confidence_by_page (classify_scores (9 / 10) ?recs)) 1
                 = Some bbs \<and> (10, 10, 20, 20) \<in> set bbs"
    by simp
  have "sr_iscore ?b = 95 / 100"
    by simp
  with bspec[OF high bm]
  have b: "to_high_conf ?b \<in> set (high_conf_rects (classify_scores (9 / 10) ?recs))"
    by blast
  have c: "classify_scores (9 / 10) ?recs
       = \<lparr>high_conf_rects = [\<lparr>hc_page = 1, hc_bbox = (50, 50, 60, 60), hc_tidx = 2\<rparr>,
                              \<lparr>hc_page = 0, hc_bbox = (30, 30, 40, 40), hc_tidx = 1\<rparr>],
          low_confidence_by_page = [(1, [(10, 10, 20, 20)])],
          pdf_all_pages_have_passing_group = False\<rparr>"
    by code_simp
  show ?thesis
    by (intro conjI b a c)
qed

subsection \<open>Rotation of a bounding box\<close>

text \<open>
  C2. For every box, page size and rotation, \<open>transform_bbox_for_rotation\<close> returns the
  table value of the rotation reduced modulo 360 (identity for 0 and for every angle that
  is not 90, 180 or 270), with the two x coordinates and the two y coordinates put in
  order and nothing else done to them: the result is ordered, and it is not clamped to
  the page (a box reaching outside a 600 by 800 page comes back as it is). On a 600 by
  800 page the box (50,50,150,150) goes to (50,50,150,150), (50,450,150,550),
  (450,650,550,750) and (650,50,750,150) under rotations 0, 90, 180 and 270.
\<close>

theorem transform_bbox_for_rotation_table:
  "transform_bbox_for_rotation b pw ph r = normalized_bbox (spec_rotation_table (r mod 360) b pw ph)
   \<and> bbox_ordered (transform_bbox_for_rotation b pw ph r)
   \<and> transform_bbox_for_rotation (50, 50, 150, 150) 600 800 0 = (50, 50, 150, 150)
   \<and> transform_bbox_for_rotation (50, 50, 150, 150) 600 800 90 = (50, 450, 150, 550)
   \<and> transform_bbox_for_rotation (50, 50, 150, 150) 600 800 180 = (450, 650, 550, 750)
   \<and> transform_bbox_for_rotation (50, 50, 150, 150) 600 800 270 = (650, 50, 750, 150)
   \<and> transform_bbox_for_rotation (- 10, - 20, 700, 900) 600 800 0 = (- 10, - 20, 700, 900)"
proof -
  obtain x1 y1 x2 y2 where b: "b = (x1, y1, x2, y2)"
    by (cases b) auto
  have eq: "transform_bbox_for_rotation b pw ph r
            = normalized_bbox (spec_rotation_table (r mod 360) b pw ph)"
    unfolding b transform_bbox_for_rotation_def spec_rotation_table_def
    by (simp add: Let_def min_def max_def)
  have ord: "bbox_ordered (normalized_bbox c)" for c :: bbox
    by (cases c) (auto simp: min_def max_def)
  have ex: "transform_bbox_for_rotation (50, 50, 150, 150) 600 800 0 = (50, 50, 150, 150)"
    "transform_bbox_for_rotation (50, 50, 150, 150) 600 800 90 = (50, 450, 150, 550)"
    "transform_bbox_for_rotation (50, 50, 150, 150) 600 800 180 = (450, 650, 550, 750)"
    "transform_bbox_for_rotation (50, 50, 150, 150) 600 800 270 = (650, 50, 750, 150)"
    "transform_bbox_for_rotation (- 10, - 20, 700, 900) 600 800 0 = (- 10, - 20, 700, 900)"
    by (simp_all add: transform_bbox_for_rotation_def)
  from eq ord ex show ?thesis by simp
qed

theorem transform_bbox_for_rotation_table_witness:
  "transform_bbox_for_rotation (150, 150, 50, 50) 600 800 (- 270) = (50, 450, 150, 550)
   \<and> bbox_ordered (transform_bbox_for_rotation (150, 150, 50, 50) 600 800 (- 270))"
  using transform_bbox_for_rotation_table [of "(150, 150, 50, 50)" 600 800 "- 270"]
  by (simp add: spec_rotation_table_def)

subsection \<open>The PassLog grows and filters the report\<close>

lemma set_sorted_set: "set (sorted_set xs) = set xs"
  by (simp add: sorted_set_def)

lemma passlog_update_loop_mono:
  "set (passlog_get pl k) \<subseteq> set (passlog_get (passlog_update_loop pc fb paths pl) k)"
proof (induction paths arbitrary: pl)
  case Nil
  show ?case by simp
next
  case (Cons p paths)
  let ?key = "norm_key_from_path p"
  let ?failing = "case fb ?key of None \<Rightarrow> [] | Some v \<Rightarrow> v"
  let ?new = "case pc p of None \<Rightarrow> []
              | Some n \<Rightarrow> if n > 0 then filter (\<lambda>i. i \<notin> set ?failing) (map int [0..<n]) else []"
  let ?pl' = "if ?new \<noteq> [] then pl(?key \<mapsto> sorted_set (passlog_get pl ?key @ ?new)) else pl"
  have step: "passlog_update_loop pc fb (p # paths) pl = passlog_update_loop pc fb paths ?pl'"
    by (simp add: Let_def)
  have "set (passlog_get pl k) \<subseteq> set (passlog_get ?pl' k)"
    by (auto simp: passlog_get_def set_sorted_set split: option.splits)
  also have "\<dots> \<subseteq> set (passlog_get (passlog_update_loop pc fb paths ?pl') k)"
    by (rule Cons.IH)
  finally show ?case
    unfolding step .
qed

lemma dict_set_keys: "fst ` set (dict_set k v d) = insert k (fst ` set d)"
proof (induction d)
  case Nil
  show ?case by simp
next
  case (Cons a d)
  obtain k' v' where a: "a = (k', v')" by (cases a)
  show ?case
  proof (cases "k = k'")
    case True
    then show ?thesis unfolding a by simp
  next
    case False
    then show ?thesis unfolding a by (simp add: Cons.IH insert_commute)
  qed
qed

lemma dict_set_entries: "(p, w) \<in> set (dict_set k v d) \<Longrightarrow> (p, w) = (k, v) \<or> (p, w) \<in> set d"
  by (induction d) (auto split: if_splits)

lemma kept_pages_keys:
  "fst ` set (kept_pages already lr kept)
     = fst ` set kept \<union> {p \<in> fst ` set lr. p \<notin> set already}"
proof (induction lr arbitrary: kept)
  case Nil
  show ?case by simp
next
  case (Cons a lr)
  obtain pidx v where a: "a = (pidx, v)" by (cases a)
  show ?case
  proof (cases "pidx \<in> set already")
    case True
    then show ?thesis unfolding a by (simp add: Cons.IH) blast
  next
    case False
    then show ?thesis unfolding a by (simp add: Cons.IH dict_set_keys) blast
  qed
qed

lemma kept_pages_entries:
  "(p, w) \<in> set (kept_pages already lr kept) \<Longrightarrow> (p, w) \<in> set kept \<or> (p, w) \<in> set lr"
proof (induction lr arbitrary: kept)
  case Nil
  then show ?case by simp
next
  case (Cons a lr)
  obtain pidx v where a: "a = (pidx, v)" by (cases a)
  show ?case
  proof (cases "pidx \<in> set already")
    case True
    with Cons.prems have "(p, w) \<in> set (kept_pages already lr kept)"
      unfolding a by simp
    from Cons.IH[OF this] show ?thesis by auto
  next
    case False
    with Cons.prems have "(p, w) \<in> set (kept_pages already lr (dict_set pidx v kept))"
      unfolding a by simp
    from Cons.IH[OF this] show ?thesis
      unfolding a by (auto dest: dict_set_entries)
  qed
qed

lemma filter_low_conf_loop_eq:
  "filter_low_conf_loop pl items filtered
     = filtered @ map (\<lambda>it. \<lparr>lc_pdf = lc_pdf it, lc_low_rects = kept_of pl it\<rparr>)
                    (filter (\<lambda>it. kept_of pl it \<noteq> []) items)"
  by (induction items arbitrary: filtered) (simp_all add: Let_def kept_of_def)

lemma kept_of_pages:
  "fst ` set (kept_of pl item)
     = {p \<in> report_pages item. p \<notin> set (passlog_get pl (norm_key_from_path (lc_pdf item)))}"
  by (simp add: kept_of_def kept_pages_keys report_pages_def)

lemma kept_of_entries: "e \<in> set (kept_of pl item) \<Longrightarrow> e \<in> set (lc_low_rects item)"
  using kept_pages_entries[of "fst e" "snd e" _ "lc_low_rects item" "[]"]
  by (simp add: kept_of_def)

text \<open>
  C3. For every loaded PassLog, list of uploaded paths with their page counts and list of
  reports from the pipeline: the pages the updated PassLog holds for a key include the
  pages it held before; the returned list holds, in order, the reports that keep at
  least one page, each with its path and the pages it keeps; and the pages a report
  keeps are exactly its failing pages that are not in the updated PassLog under its
  key, each still with the boxes the pipeline gave it. For a 3-page PDF with page 2 in
  the PassLog and pages 0 and 2 reported, the returned report has page 0 only and the
  PassLog then holds pages 1 and 2.
\<close>

theorem passlog_grows_and_filters:
  "(\<forall>k. set (passlog_get passlog k)
          \<subseteq> set (passlog_get (fst (passlog_update_and_filter page_count passlog paths low_conf)) k))
   \<and> snd (passlog_update_and_filter page_count passlog paths low_conf)
       = map (\<lambda>it. \<lparr>lc_pdf = lc_pdf it,
                     lc_low_rects = kept_of (fst (passlog_update_and_filter page_count passlog paths low_conf)) it\<rparr>)
           (filter (\<lambda>it. kept_of (fst (passlog_update_and_filter page_count passlog paths low_conf)) it \<noteq> [])
              low_conf)
   \<and> (\<forall>pl item. fst ` set (kept_of pl item)
          = {p \<in> report_pages item. p \<notin> set (passlog_get pl (norm_key_from_path (lc_pdf item)))})
   \<and> (\<forall>pl item. set (kept_of pl item) \<subseteq> set (lc_low_rects item))
   \<and> passlog_get (fst (passlog_update_and_filter (\<lambda>p. Some 3) [''doc'' \<mapsto> [2]]
        [''/tmp/uploads/doc.pdf'']
        [\<lparr>lc_pdf = ''/tmp/uploads/doc.pdf'',
          lc_low_rects = [(0, [(10, 10, 20, 20)]), (2, [(30, 30, 40, 40)])]\<rparr>])) ''doc'' = [1, 2]
   \<and> snd (passlog_update_and_filter (\<lambda>p. Some 3) [''doc'' \<mapsto> [2]]
        [''/tmp/uploads/doc.pdf'']
        [\<lparr>lc_pdf = ''/tmp/uploads/doc.pdf'',
          lc_low_rects = [(0, [(10, 10, 20, 20)]), (2, [(30, 30, 40, 40)])]\<rparr>])
       = [\<lparr>lc_pdf = ''/tmp/uploads/doc.pdf'', lc_low_rects = [(0, [(10, 10, 20, 20)])]\<rparr>]"
proof -
  let ?pl' = "passlog_update_loop page_count (failing_by_base_loop low_conf Map.empty) paths passlog"
  have f: "fst (passlog_update_and_filter page_count passlog paths low_conf) = ?pl'"
    by (simp add: passlog_update_and_filter_def Let_def)
  have a: "\<forall>k. set (passlog_get passlog k)
          \<subseteq> set (passlog_get (fst (passlog_update_and_filter page_count passlog paths low_conf)) k)"
    unfolding f by (intro allI passlog_update_loop_mono)
  have b: "snd (passlog_update_and_filter page_count passlog paths low_conf)
       = map (\<lambda>it. \<lparr>lc_pdf = lc_pdf it,
                     lc_low_rects = kept_of (fst (passlog_update_and_filter page_count passlog paths low_conf)) it\<rparr>)
           (filter (\<lambda>it. kept_of (fst (passlog_update_and_filter page_count passlog paths low_conf)) it \<noteq> [])
              low_conf)"
    unfolding f by (simp add: passlog_update_and_filter_def Let_def filter_low_conf_loop_eq)
  have c: "\<forall>pl item. fst ` set (kept_of pl item)
          = {p \<in> report_pages item. p \<notin> set (passlog_get pl (norm_key_from_path (lc_pdf item)))}"
    by (intro allI kept_of_pages)
  have d: "\<forall>pl item. set (kept_of pl item) \<subseteq> set (lc_low_rects item)"
    by (auto dest: kept_of_entries)
  have e: "passlog_get (fst (passlog_update_and_filter (\<lambda>p. Some 3) [''doc'' \<mapsto> [2]]
        [''/tmp/uploads/doc.pdf'']
        [\<lparr>lc_pdf = ''/tmp/uploads/doc.pdf'',
          lc_low_rects = [(0, [(10, 10, 20, 20)]), (2, [(30, 30, 40, 40)])]\<rparr>])) ''doc'' = [1, 2]
   \<and> snd (passlog_update_and_filter (\<lambda>p. Some 3) [''doc'' \<mapsto> [2]]
        [''/tmp/uploads/doc.pdf'']
        [\<lparr>lc_pdf = ''/tmp/uploads/doc.pdf'',
          lc_low_rects = [(0, [(10, 10, 20, 20)]), (2, [(30, 30, 40, 40)])]\<rparr>])
       = [\<lparr>lc_pdf = ''/tmp/uploads/doc.pdf'', lc_low_rects = [(0, [(10, 10, 20, 20)])]\<rparr>]"
    by code_simp
  show ?thesis
    by (intro conjI a b c d e)
qed

theorem passlog_grows_and_filters_witness:
  "set (passlog_get [''a'' \<mapsto> [0, 5]] ''a'')
     \<subseteq> set (passlog_get (fst (passlog_update_and_filter
                (\<lambda>p. if p = ''up/A.pdf'' then Some 2 else None) [''a'' \<mapsto> [0, 5]]
                [''up/A.pdf'', ''up/b.pdf'']
                [\<lparr>lc_pdf = ''up/A.pdf'', lc_low_rects = [(0, [(1, 1, 2, 2)])]\<rparr>,
                 \<lparr>lc_pdf = ''up/b.pdf'', lc_low_rects = [(3, [(1, 1, 2, 2)])]\<rparr>])) ''a'')
   \<and> passlog_get (fst (passlog_update_and_filter
                (\<lambda>p. if p = ''up/A.pdf'' then Some 2 else None) [''a'' \<mapsto> [0, 5]]
                [''up/A.pdf'', ''up/b.pdf'']
                [\<lparr>lc_pdf = ''up/A.pdf'', lc_low_rects = [(0, [(1, 1, 2, 2)])]\<rparr>,
                 \<lparr>lc_pdf = ''up/b.pdf'', lc_low_rects = [(3, [(1, 1, 2, 2)])]\<rparr>])) ''a'' = [0, 1, 5]
   \<and> snd (passlog_update_and_filter
                (\<lambda>p. if p = ''up/A.pdf'' then Some 2 else None) [''a'' \<mapsto> [0, 5]]
                [''up/A.pdf'', ''up/b.pdf'']
                [\<lparr>lc_pdf = ''up/A.pdf'', lc_low_rects = [(0, [(1, 1, 2, 2)])]\<rparr>,
                 \<lparr>lc_pdf = ''up/b.pdf'', lc_low_rects = [(3, [(1, 1, 2, 2)])]\<rparr>])
       = [\<lparr>lc_pdf = ''up/b.pdf'', lc_low_rects = [(3, [(1, 1, 2, 2)])]\<rparr>]"
proof -
  let ?pc = "\<lambda>p. if p = ''up/A.pdf'' then Some (2::nat) else None"
  let ?pl = "[''a'' \<mapsto> [0, 5::int]]"
  let ?paths = "[''up/A.pdf'', ''up/b.pdf'']"
  let ?lc = "[\<lparr>lc_pdf = ''up/A.pdf'', lc_low_rects = [(0, [(1, 1, 2, 2)])]\<rparr>,
              \<lparr>lc_pdf = ''up/b.pdf'', lc_low_rects = [(3, [(1, 1, 2, 2)])]\<rparr>]"
  have "\<forall>k. set (passlog_get ?pl k)
          \<subseteq> set (passlog_get (fst (passlog_update_and_filter ?pc ?pl ?paths ?lc)) k)"
    using passlog_grows_and_filters [of ?pl ?pc ?paths ?lc] by (rule conjunct1)
  then have a: "set (passlog_get ?pl ''a'')
          \<subseteq> set (passlog_get (fst (passlog_update_and_filter ?pc ?pl ?paths ?lc)) ''a'')"
    by (rule spec)
  have b: "passlog_get (fst (passlog_update_and_filter ?pc ?pl ?paths ?lc)) ''a'' = [0, 1, 5]"
    by code_simp
  have c: "snd (passlog_update_and_filter ?pc ?pl ?paths ?lc)
             = [\<lparr>lc_pdf = ''up/b.pdf'', lc_low_rects = [(3, [(1, 1, 2, 2)])]\<rparr>]"
    by code_simp
  show ?thesis
    by (intro conjI a b c)
qed

subsection \<open>A classification failure while saving a template\<close>

lemma classify_source_unbound:
  "classify_page_layout env p = None \<Longrightarrow> ms_local_e st = None
     \<Longrightarrow> classify_source env p st = Inl (UnboundLocalError ''e'')"
  by (simp add: classify_source_def)

lemma classify_source_error:
  "classify_source env p st = Inl err \<Longrightarrow> err = UnboundLocalError ''e''"
  by (auto simp: classify_source_def split: option.splits prod.splits)

lemma classify_source_local_e:
  "classify_source env p st = Inr st' \<Longrightarrow> ms_local_e st' = ms_local_e st"
  by (auto simp: classify_source_def split: option.splits prod.splits)

lemma extract_source_local_e:
  "ms_local_e st = None \<Longrightarrow> ms_local_e (extract_source env fidx p rs st) = None"
  by (auto simp: extract_source_def Let_def split: option.splits sum.splits prod.splits)

lemma save_group_error:
  "save_group env i2p fidx rects st = Inl err \<Longrightarrow> err = UnboundLocalError ''e''"
  by (auto simp: save_group_def Let_def split: option.splits if_splits sum.splits
           dest: classify_source_error)

lemma save_group_local_e:
  "ms_local_e st = None \<Longrightarrow> save_group env i2p fidx rects st = Inr st'
     \<Longrightarrow> ms_local_e st' = None"
  by (auto simp: save_group_def Let_def extract_source_local_e
           split: option.splits if_splits sum.splits dest: classify_source_local_e)

lemma save_group_fails:
  assumes "i2p fidx = Some p" and "p \<noteq> []" and "path_exists env p"
    and "classify_page_layout env p = None" and "ms_local_e st = None"
  shows "save_group env i2p fidx rects st = Inl (UnboundLocalError ''e'')"
  using assms by (simp add: save_group_def classify_source_unbound)

lemma save_groups_fails:
  assumes "(fidx, rects) \<in> set grouped" and "i2p fidx = Some p" and "p \<noteq> []"
    and "path_exists env p" and "classify_page_layout env p = None"
  shows "ms_local_e st = None \<Longrightarrow> save_groups env i2p grouped st = Inl (UnboundLocalError ''e'')"
  using assms(1)
proof (induction grouped arbitrary: st)
  case Nil
  then show ?case by simp
next
  case (Cons a grouped)
  obtain f0 r0 where a: "a = (f0, r0)" by (cases a)
  show ?case
  proof (cases "save_group env i2p f0 r0 st")
    case (Inl err)
    then have "err = UnboundLocalError ''e''"
      by (rule save_group_error)
    with Inl show ?thesis unfolding a by simp
  next
    case (Inr st')
    have e: "ms_local_e st' = None"
      using Cons.prems(1) Inr by (rule save_group_local_e)
    have "f0 \<noteq> fidx"
    proof
      assume "f0 = fidx"
      then have "save_group env i2p f0 r0 st = Inl (UnboundLocalError ''e'')"
        using save_group_fails[of i2p fidx p env st r0, OF assms(2-5) Cons.prems(1)] by simp
      with Inr show False by simp
    qed
    with Cons.prems(2) have "(fidx, rects) \<in> set grouped"
      unfolding a by auto
    from Cons.IH[OF e this] Inr show ?thesis
      unfolding a by simp
  qed
qed

text \<open>
  C4 does not hold of the code. Whenever a rectangle belongs to a source PDF that exists
  and whose layout classification raises, \<open>save_profile_multi\<close> raises as well: the
  handler of the classification failure reads the unbound local \<open>e\<close> while it formats
  its log line, and that error leaves the handler, the loop and the function. Nothing
  is extracted for the group and no profile is saved.
\<close>

theorem save_profile_multi_classify_failure_raises:
  assumes "r \<in> set rectangles" and "index_to_path (rect_file_idx r) = Some p" and "p \<noteq> []"
    and "path_exists env p" and "classify_page_layout env p = None"
  shows "save_profile_multi env rectangles index_to_path image_map
           = Inl (UnboundLocalError ''e'')"
proof -
  let ?vs = "filter (\<lambda>x. rect_file_idx x = rect_file_idx r) rectangles"
  from assms(1) have "r \<in> set ?vs" by simp
  then have "0 < length ?vs" by (rule length_pos_if_in_set)
  then have ne: "?vs \<noteq> []" by (rule iffD1[OF length_greater_0_conv])
  have "?vs = ?vs \<and> ?vs \<noteq> []"
    using ne by simp
  then have g: "(rect_file_idx r, ?vs) \<in> set (group_by_key rect_file_idx rectangles)"
    by (rule iffD2[OF group_by_key_entries])
  then have n: "group_by_key rect_file_idx rectangles \<noteq> []"
    by auto
  have "save_groups env index_to_path (group_by_key rect_file_idx rectangles)
          \<lparr>ms_used_rects = [], ms_contents = [], ms_skipped_total = 0,
           ms_log = [], ms_local_e = None\<rparr> = Inl (UnboundLocalError ''e'')"
    by (rule save_groups_fails[of "rect_file_idx r" ?vs _ index_to_path p env, OF g assms(2-5)]) simp
  with n show ?thesis
    by (simp add: save_profile_multi_def)
qed

theorem save_profile_multi_classify_failure_raises_witness:
  "save_profile_multi
     \<lparr>path_exists = (\<lambda>p. True), classify_page_layout = (\<lambda>p. None),
      open_pdf = (\<lambda>p. Some [\<lparr>rotation = 0, fz_width = 600, fz_height = 800, pl_width = 600,
                              pl_height = 800, page_words = [], clip_hash = (\<lambda>b. ''00ff'')\<rparr>])\<rparr>
     [\<lparr>m_file_idx = None, m_page = Some 0, m_bbox = Some (10, 10, 50, 50), m_paper = None,
       m_orientation = None\<rparr>]
     [0 \<mapsto> ''uploads/a.pdf''] []
   = Inl (UnboundLocalError ''e'')"
proof -
  let ?env = "\<lparr>path_exists = (\<lambda>p. True), classify_page_layout = (\<lambda>p. None),
      open_pdf = (\<lambda>p. Some [\<lparr>rotation = 0, fz_width = 600, fz_height = 800, pl_width = 600,
                              pl_height = 800, page_words = [], clip_hash = (\<lambda>b. ''00ff'')\<rparr>])\<rparr>"
  let ?r = "\<lparr>m_file_idx = None, m_page = Some 0, m_bbox = Some (10, 10, 50, 50), m_paper = None,
       m_orientation = None\<rparr>"
  have 1: "?r \<in> set [?r]" by simp
  have 2: "[0 \<mapsto> ''uploads/a.pdf''] (rect_file_idx ?r) = Some ''uploads/a.pdf''"
    by (simp add: rect_file_idx_def)
  have 3: "''uploads/a.pdf'' \<noteq> []" by simp
  have 4: "path_exists ?env ''uploads/a.pdf''" by simp
  have 5: "classify_page_layout ?env ''uploads/a.pdf'' = None" by simp
  show ?thesis
    by (rule save_profile_multi_classify_failure_raises
          [of ?r "[?r]" "[0 \<mapsto> ''uploads/a.pdf'']" "''uploads/a.pdf''" ?env "[]", OF 1 2 3 4 5])
qed

subsection \<open>The gate of the secondary pass\<close>

lemma loaded_ids_append: "loaded_ids (a @ b) = loaded_ids a @ loaded_ids b"
  by (induction a rule: loaded_ids.induct) simp_all

lemma processed_pdfs_append: "processed_pdfs (a @ b) = processed_pdfs a @ processed_pdfs b"
  by (induction a rule: processed_pdfs.induct) simp_all

lemma resolve_template_cases:
  "resolve_template listdir profiles tm new_id =
     (case profiles new_id of
        Some _ \<Rightarrow> ([LoadedProfile new_id], Inr new_id)
      | None \<Rightarrow>
          (case profiles (next_version_id listdir tm (fst (parse_template_id new_id))) of
             Some _ \<Rightarrow>
               ([LoadedProfile new_id,
                 LoadedProfile (next_version_id listdir tm (fst (parse_template_id new_id))),
                 Printed (''Note: '' @ [CHR 0x27] @ new_id @ [CHR 0x27]
                          @ '' not found. Using '' @ [CHR 0x27]
                          @ next_version_id listdir tm (fst (parse_template_id new_id))
                          @ [CHR 0x27] @ '' instead.'')],
                Inr (next_version_id listdir tm (fst (parse_template_id new_id))))
           | None \<Rightarrow>
               ([LoadedProfile new_id,
                 LoadedProfile (next_version_id listdir tm (fst (parse_template_id new_id)))],
                Inl (TemplateNotFound new_id
                       (next_version_id listdir tm (fst (parse_template_id new_id)))))))"
  by (cases "parse_template_id new_id")
     (simp add: resolve_template_def Let_def split: option.splits)

text \<open>One PDF: its opening line is its only one, and it loads no profile.\<close>

lemma secondary_pdf_events:
  "processed_pdfs (fst (secondary_pdf env p od ir th pdf)) = [pdf]
   \<and> loaded_ids (fst (secondary_pdf env p od ir th pdf)) = []"
  by (simp add: secondary_pdf_def Let_def
           split: pdf_layout.splits option.splits sum.splits prod.splits)

lemma secondary_pdf_report:
  "snd (secondary_pdf env p od ir th pdf) = Inr (Some rep) \<Longrightarrow> lc_pdf rep = pdf"
  by (auto simp: secondary_pdf_def Let_def
           split: pdf_layout.splits option.splits sum.splits prod.splits if_splits)

text \<open>The events a loop starts with stay in front, and do not change its result.\<close>

lemma secondary_loop_ev:
  "secondary_loop env p od ir th items ev res
     = (ev @ fst (secondary_loop env p od ir th items [] res),
        snd (secondary_loop env p od ir th items [] res))"
proof (induction items arbitrary: ev res)
  case Nil
  show ?case by simp
next
  case (Cons item items)
  obtain ev1 r1 where s: "secondary_pdf env p od ir th (lc_pdf item) = (ev1, r1)"
    by (cases "secondary_pdf env p od ir th (lc_pdf item)")
  show ?case
  proof (cases r1)
    case (Inl e)
    with s show ?thesis by simp
  next
    case (Inr rep)
    show ?thesis
    proof (cases rep)
      case None
      have a: "secondary_loop env p od ir th (item # items) ev res
                 = secondary_loop env p od ir th items (ev @ ev1) res"
        using s Inr None by simp
      have b: "secondary_loop env p od ir th (item # items) [] res
                 = secondary_loop env p od ir th items ev1 res"
        using s Inr None by simp
      have i1: "secondary_loop env p od ir th items (ev @ ev1) res
                  = ((ev @ ev1) @ fst (secondary_loop env p od ir th items [] res),
                     snd (secondary_loop env p od ir th items [] res))"
        by (rule Cons.IH)
      have i2: "secondary_loop env p od ir th items ev1 res
                  = (ev1 @ fst (secondary_loop env p od ir th items [] res),
                     snd (secondary_loop env p od ir th items [] res))"
        by (rule Cons.IH)
      show ?thesis
        unfolding a b by (simp only: i1 i2 fst_conv snd_conv append_assoc)
    next
      case (Some report)
      have a: "secondary_loop env p od ir th (item # items) ev res
                 = secondary_loop env p od ir th items (ev @ ev1) (res @ [report])"
        using s Inr Some by simp
      have b: "secondary_loop env p od ir th (item # items) [] res
                 = secondary_loop env p od ir th items ev1 (res @ [report])"
        using s Inr Some by simp
      have i1: "secondary_loop env p od ir th items (ev @ ev1) (res @ [report])
                  = ((ev @ ev1) @ fst (secondary_loop env p od ir th items [] (res @ [report])),
                     snd (secondary_loop env p od ir th items [] (res @ [report])))"
        by (rule Cons.IH)
      have i2: "secondary_loop env p od ir th items ev1 (res @ [report])
                  = (ev1 @ fst (secondary_loop env p od ir th items [] (res @ [report])),
                     snd (secondary_loop env p od ir th items [] (res @ [report])))"
        by (rule Cons.IH)
      show ?thesis
        unfolding a b by (simp only: i1 i2 fst_conv snd_conv append_assoc)
    qed
  qed
qed

text \<open>
  The loop works on the PDFs in the order of the entries, as far as it gets; it loads no
  profile; when it returns, it has worked on all of them, and the reports it added are
  reports on some of them, in their order.
\<close>

lemma secondary_loop_trace:
  "loaded_ids (fst (secondary_loop env p od ir th items [] res)) = []
   \<and> prefix (processed_pdfs (fst (secondary_loop env p od ir th items [] res))) (map lc_pdf items)
   \<and> (items \<noteq> [] \<longrightarrow> processed_pdfs (fst (secondary_loop env p od ir th items [] res)) \<noteq> [])
   \<and> (\<forall>reports. snd (secondary_loop env p od ir th items [] res) = Inr reports \<longrightarrow>
          processed_pdfs (fst (secondary_loop env p od ir th items [] res)) = map lc_pdf items
          \<and> (\<exists>rs. reports = res @ rs \<and> subseq (map lc_pdf rs) (map lc_pdf items)))"
proof (induction items arbitrary: res)
  case Nil
  show ?case by simp
next
  case (Cons item items)
  obtain ev1 r1 where s: "secondary_pdf env p od ir th (lc_pdf item) = (ev1, r1)"
    by (cases "secondary_pdf env p od ir th (lc_pdf item)")
  have e1: "processed_pdfs ev1 = [lc_pdf item]" "loaded_ids ev1 = []"
    using secondary_pdf_events[of env p od ir th "lc_pdf item"] s by simp_all
  show ?case
  proof (cases r1)
    case (Inl e)
    have "secondary_loop env p od ir th (item # items) [] res = (ev1, Inl e)"
      using s Inl by simp
    then show ?thesis
      using e1 by simp
  next
    case (Inr rep)
    define res' where "res' = (case rep of None \<Rightarrow> res | Some report \<Rightarrow> res @ [report])"
    have step: "secondary_loop env p od ir th (item # items) [] res
                  = secondary_loop env p od ir th items ev1 res'"
      using s Inr by (cases rep) (simp_all add: res'_def)
    let ?t = "secondary_loop env p od ir th items [] res'"
    have split: "secondary_loop env p od ir th items ev1 res' = (ev1 @ fst ?t, snd ?t)"
      by (rule secondary_loop_ev)
    note ih = Cons.IH[of res']
    have l: "loaded_ids (fst (secondary_loop env p od ir th (item # items) [] res)) = []"
      unfolding step split using ih e1 by (simp add: loaded_ids_append)
    have pr: "processed_pdfs (fst (secondary_loop env p od ir th (item # items) [] res))
                = lc_pdf item # processed_pdfs (fst ?t)"
      unfolding step split using e1 by (simp add: processed_pdfs_append)
    have a: "prefix (processed_pdfs (fst (secondary_loop env p od ir th (item # items) [] res)))
               (map lc_pdf (item # items))"
      unfolding pr using ih by simp
    have b: "item # items \<noteq> [] \<longrightarrow>
               processed_pdfs (fst (secondary_loop env p od ir th (item # items) [] res)) \<noteq> []"
      unfolding pr by simp
    have c: "\<forall>reports. snd (secondary_loop env p od ir th (item # items) [] res) = Inr reports \<longrightarrow>
          processed_pdfs (fst (secondary_loop env p od ir th (item # items) [] res))
            = map lc_pdf (item # items)
          \<and> (\<exists>rs. reports = res @ rs \<and> subseq (map lc_pdf rs) (map lc_pdf (item # items)))"
    proof (intro allI impI)
      fix reports
      assume "snd (secondary_loop env p od ir th (item # items) [] res) = Inr reports"
      then have r: "snd ?t = Inr reports"
        unfolding step split by simp
      with ih have all: "processed_pdfs (fst ?t) = map lc_pdf items"
        and "\<exists>rs. reports = res' @ rs \<and> subseq (map lc_pdf rs) (map lc_pdf items)"
        by blast+
      then obtain rs where rs: "reports = res' @ rs" "subseq (map lc_pdf rs) (map lc_pdf items)"
        by blast
      have "\<exists>rs. reports = res @ rs \<and> subseq (map lc_pdf rs) (map lc_pdf (item # items))"
      proof (cases rep)
        case None
        then have "reports = res @ rs"
          using rs(1) by (simp add: res'_def)
        moreover have "subseq (map lc_pdf rs) (map lc_pdf (item # items))"
          unfolding list.map using rs(2) by (rule list_emb_Cons)
        ultimately show ?thesis by blast
      next
        case (Some report)
        have "snd (secondary_pdf env p od ir th (lc_pdf item)) = Inr (Some report)"
          using s Inr Some by simp
        then have k: "lc_pdf report = lc_pdf item"
          by (rule secondary_pdf_report)
        have "reports = res @ (report # rs)"
          using rs(1) Some by (simp add: res'_def)
        moreover have "subseq (map lc_pdf (report # rs)) (map lc_pdf (item # items))"
          unfolding list.map k using rs(2) by (rule subseq_Cons2)
        ultimately show ?thesis by blast
      qed
      with all show "processed_pdfs (fst (secondary_loop env p od ir th (item # items) [] res))
            = map lc_pdf (item # items)
          \<and> (\<exists>rs. reports = res @ rs \<and> subseq (map lc_pdf rs) (map lc_pdf (item # items)))"
        unfolding pr by simp
    qed
    show ?thesis
      by (intro conjI l a b c)
  qed
qed

lemma pdf_entries_pdfs: "map lc_pdf (pdf_entries low_conf) = map lc_pdf low_conf"
  by (simp add: pdf_entries_def comp_def)

lemma pdf_entries_Nil: "(pdf_entries low_conf = []) = (low_conf = [])"
  by (simp add: pdf_entries_def)

text \<open>The run once the template manager is built, by what the store holds.\<close>

lemma process_low_conf_batch_resolved:
  assumes "3 \<le> length low_conf" and "dev = Some d" and "d \<noteq> []"
  shows "process_low_conf_batch listdir profiles env low_conf new_id od th ir dev =
     (case resolve_template listdir profiles \<lparr>device_id = sanitize d, store_dir = ''templates''\<rparr>
             new_id of
        (ev, Inl e) \<Rightarrow> (ev, Inl e)
      | (ev, Inr chosen) \<Rightarrow>
          (case profiles chosen of
             None \<Rightarrow> (ev @ [LoadedProfile chosen], Inl (ProfileNotFound chosen))
           | Some profile \<Rightarrow>
               secondary_loop env profile od ir th (pdf_entries low_conf)
                 (ev @ [LoadedProfile chosen]) []))"
proof -
  from assms(1) have "low_conf \<noteq> []" "\<not> length low_conf < 3"
    by auto
  then show ?thesis
    using assms(2,3) by (simp add: process_low_conf_batch_def template_manager_init_def)
qed

text \<open>
  C5 as stated fails for three entries when no device id is given, which is the default
  of the parameter: the template manager is built before any template is resolved, and
  building it without a device id raises. Nothing is loaded and no PDF is worked on,
  though the store holds the requested template.
\<close>

theorem process_low_conf_batch_no_device_counterexample:
  "process_low_conf_batch (\<lambda>dir. None)
     (\<lambda>i. if i = ''acme_v2''
           then Some \<lparr>p_rectangles = [], p_contents = [], p_image_map = []\<rparr> else None)
     \<lparr>classify_pdf_layout = (\<lambda>p tol. Layout ''A4'' ''portrait'' 595 842),
      filter_rectangles_for_layout = (\<lambda>rs paper orient. rs),
      validate_replicated_rects_for_pdf =
        (\<lambda>p rs. \<lparr>oob_page_out_of_range = None, oob_by_page = []\<rparr>),
      fitz_open = (\<lambda>p. Some []),
      score_text = (\<lambda>a b. 1), score_image = (\<lambda>a b. 1),
      os_path_relpath = (\<lambda>p root. p)\<rparr>
     [\<lparr>lc_pdf = ''in/a.pdf'', lc_low_rects = []\<rparr>,
      \<lparr>lc_pdf = ''in/b.pdf'', lc_low_rects = []\<rparr>,
      \<lparr>lc_pdf = ''in/c.pdf'', lc_low_rects = []\<rparr>]
     ''acme_v2'' ''out'' (9 / 10) None None
   = ([], Inl DeviceIdRequired)"
  by (simp add: process_low_conf_batch_def template_manager_init_def)

text \<open>
  C5, amended. \<open>process_low_conf_batch\<close> returns an empty list at once for no entries, and
  an empty list for one or two entries, in both cases after one printed line, without
  loading any template and without working on any PDF. With three or more entries and no
  device id (none, or an empty one) it raises before it resolves any template. With three
  or more entries and a device id it goes on to resolve a template: it loads the
  requested id; if that is missing it loads the next expected version of the client of
  the requested id in the store of that device; if both are missing it raises not-found,
  having tried these two and nothing else. Once a template is resolved it loads it once
  more and goes on to the PDFs: it works on the PDFs of the entries in the order of the
  entries, starting with the first, its result is that of the loop over the PDFs with
  the resolved profile, and when it returns a list it has worked on the PDF of every
  entry and the reports it returns are on PDFs of the entries, in their order.
\<close>

theorem process_low_conf_batch_gate:
  assumes "process_low_conf_batch listdir profiles env low_conf new_id output_dir threshold
             input_root dev = (ev, res)"
  shows
   "(low_conf = [] \<longrightarrow>
       ev = [Printed ''No low-confidence PDFs provided to secondary process. Nothing to do.'']
       \<and> res = Inr [])
    \<and> (length low_conf < 3 \<longrightarrow> res = Inr [] \<and> loaded_ids ev = [] \<and> processed_pdfs ev = [])
    \<and> (3 \<le> length low_conf \<and> (dev = None \<or> dev = Some []) \<longrightarrow>
         ev = [] \<and> res = Inl DeviceIdRequired)
    \<and> (\<forall>d. 3 \<le> length low_conf \<and> dev = Some d \<and> d \<noteq> [] \<longrightarrow>
         (let expected_next =
                next_version_id listdir \<lparr>device_id = sanitize d, store_dir = ''templates''\<rparr>
                  (fst (parse_template_id new_id))
          in (profiles new_id = None \<and> profiles expected_next = None \<longrightarrow>
                ev = [LoadedProfile new_id, LoadedProfile expected_next]
                \<and> res = Inl (TemplateNotFound new_id expected_next))
             \<and> (\<forall>p. profiles (if profiles new_id = None then expected_next else new_id) = Some p
                  \<longrightarrow>
                  loaded_ids ev = (if profiles new_id = None
                                   then [new_id, expected_next, expected_next]
                                   else [new_id, new_id])
                  \<and> res = snd (secondary_loop env p output_dir input_root threshold
                                 (pdf_entries low_conf) [] [])
                  \<and> prefix (processed_pdfs ev) (map lc_pdf low_conf)
                  \<and> processed_pdfs ev \<noteq> []
                  \<and> (\<forall>reports. res = Inr reports \<longrightarrow>
                         processed_pdfs ev = map lc_pdf low_conf
                         \<and> subseq (map lc_pdf reports) (map lc_pdf low_conf)))))"
proof -
  let ?run = "process_low_conf_batch listdir profiles env low_conf new_id output_dir threshold
                input_root dev"
  have a: "low_conf = [] \<longrightarrow>
       ev = [Printed ''No low-confidence PDFs provided to secondary process. Nothing to do.'']
       \<and> res = Inr []"
  proof (intro impI)
    assume e: "low_conf = []"
    show "ev = [Printed ''No low-confidence PDFs provided to secondary process. Nothing to do.'']
       \<and> res = Inr []"
      using assms e by (simp add: process_low_conf_batch_def)
  qed
  have b: "length low_conf < 3 \<longrightarrow> res = Inr [] \<and> loaded_ids ev = [] \<and> processed_pdfs ev = []"
  proof (intro impI)
    assume l: "length low_conf < 3"
    show "res = Inr [] \<and> loaded_ids ev = [] \<and> processed_pdfs ev = []"
      using assms l by (cases "low_conf = []") (auto simp: process_low_conf_batch_def)
  qed
  have c: "3 \<le> length low_conf \<and> (dev = None \<or> dev = Some []) \<longrightarrow>
         ev = [] \<and> res = Inl DeviceIdRequired"
  proof (intro impI)
    assume h: "3 \<le> length low_conf \<and> (dev = None \<or> dev = Some [])"
    then have "low_conf \<noteq> []" "\<not> length low_conf < 3"
      by auto
    moreover from h have "template_manager_init dev = Inl DeviceIdRequired"
      by (auto simp: template_manager_init_def)
    ultimately have "?run = ([], Inl DeviceIdRequired)"
      by (simp add: process_low_conf_batch_def)
    with assms show "ev = [] \<and> res = Inl DeviceIdRequired"
      by simp
  qed
  have d: "\<forall>d. 3 \<le> length low_conf \<and> dev = Some d \<and> d \<noteq> [] \<longrightarrow>
         (let expected_next =
                next_version_id listdir \<lparr>device_id = sanitize d, store_dir = ''templates''\<rparr>
                  (fst (parse_template_id new_id))
          in (profiles new_id = None \<and> profiles expected_next = None \<longrightarrow>
                ev = [LoadedProfile new_id, LoadedProfile expected_next]
                \<and> res = Inl (TemplateNotFound new_id expected_next))
             \<and> (\<forall>p. profiles (if profiles new_id = None then expected_next else new_id) = Some p
                  \<longrightarrow>
                  loaded_ids ev = (if profiles new_id = None
                                   then [new_id, expected_next, expected_next]
                                   else [new_id, new_id])
                  \<and> res = snd (secondary_loop env p output_dir input_root threshold
                                 (pdf_entries low_conf) [] [])
                  \<and> prefix (processed_pdfs ev) (map lc_pdf low_conf)
                  \<and> processed_pdfs ev \<noteq> []
                  \<and> (\<forall>reports. res = Inr reports \<longrightarrow>
                         processed_pdfs ev = map lc_pdf low_conf
                         \<and> subseq (map lc_pdf reports) (map lc_pdf low_conf))))"
  proof (intro allI impI)
    fix d
    assume h: "3 \<le> length low_conf \<and> dev = Some d \<and> d \<noteq> []"
    let ?tm = "\<lparr>device_id = sanitize d, store_dir = ''templates''\<rparr>"
    define nx where "nx = next_version_id listdir ?tm (fst (parse_template_id new_id))"
    from h have ne: "low_conf \<noteq> []"
      by auto
    have run: "?run =
       (case resolve_template listdir profiles ?tm new_id of
          (ev, Inl e) \<Rightarrow> (ev, Inl e)
        | (ev, Inr chosen) \<Rightarrow>
            (case profiles chosen of
               None \<Rightarrow> (ev @ [LoadedProfile chosen], Inl (ProfileNotFound chosen))
             | Some profile \<Rightarrow>
                 secondary_loop env profile output_dir input_root threshold (pdf_entries low_conf)
                   (ev @ [LoadedProfile chosen]) []))"
      using h by (intro process_low_conf_batch_resolved) simp_all
    have missing: "profiles new_id = None \<and> profiles nx = None \<longrightarrow>
                ev = [LoadedProfile new_id, LoadedProfile nx]
                \<and> res = Inl (TemplateNotFound new_id nx)"
    proof (intro impI)
      assume m: "profiles new_id = None \<and> profiles nx = None"
      then have "resolve_template listdir profiles ?tm new_id
                   = ([LoadedProfile new_id, LoadedProfile nx], Inl (TemplateNotFound new_id nx))"
        unfolding resolve_template_cases nx_def by simp
      then have "?run = ([LoadedProfile new_id, LoadedProfile nx], Inl (TemplateNotFound new_id nx))"
        unfolding run by simp
      with assms show "ev = [LoadedProfile new_id, LoadedProfile nx]
                \<and> res = Inl (TemplateNotFound new_id nx)"
        by simp
    qed
    have found: "\<forall>p. profiles (if profiles new_id = None then nx else new_id) = Some p
                  \<longrightarrow>
                  loaded_ids ev = (if profiles new_id = None then [new_id, nx, nx]
                                   else [new_id, new_id])
                  \<and> res = snd (secondary_loop env p output_dir input_root threshold
                                 (pdf_entries low_conf) [] [])
                  \<and> prefix (processed_pdfs ev) (map lc_pdf low_conf)
                  \<and> processed_pdfs ev \<noteq> []
                  \<and> (\<forall>reports. res = Inr reports \<longrightarrow>
                         processed_pdfs ev = map lc_pdf low_conf
                         \<and> subseq (map lc_pdf reports) (map lc_pdf low_conf))"
    proof (intro allI impI)
      fix p
      assume f: "profiles (if profiles new_id = None then nx else new_id) = Some p"
      let ?chosen = "if profiles new_id = None then nx else new_id"
      let ?pre = "if profiles new_id = None
                  then [LoadedProfile new_id, LoadedProfile nx,
                        Printed (''Note: '' @ [CHR 0x27] @ new_id @ [CHR 0x27]
                                 @ '' not found. Using '' @ [CHR 0x27] @ nx
                                 @ [CHR 0x27] @ '' instead.''),
                        LoadedProfile nx]
                  else [LoadedProfile new_id, LoadedProfile new_id]"
      let ?t = "secondary_loop env p output_dir input_root threshold (pdf_entries low_conf) [] []"
      have "?run = secondary_loop env p output_dir input_root threshold (pdf_entries low_conf)
                     ?pre []"
      proof (cases "profiles new_id")
        case None
        with f have nxp: "profiles nx = Some p"
          by simp
        have "resolve_template listdir profiles ?tm new_id
                = ([LoadedProfile new_id, LoadedProfile nx,
                    Printed (''Note: '' @ [CHR 0x27] @ new_id @ [CHR 0x27]
                             @ '' not found. Using '' @ [CHR 0x27] @ nx
                             @ [CHR 0x27] @ '' instead.'')], Inr nx)"
          unfolding resolve_template_cases nx_def[symmetric] using None nxp by simp
        then show ?thesis
          unfolding run using None nxp by simp
      next
        case (Some q)
        with f have q: "q = p"
          by simp
        have "resolve_template listdir profiles ?tm new_id = ([LoadedProfile new_id], Inr new_id)"
          unfolding resolve_template_cases using Some by simp
        then show ?thesis
          unfolding run using Some q by simp
      qed
      also have "\<dots> = (?pre @ fst ?t, snd ?t)"
        by (rule secondary_loop_ev)
      finally have "(ev, res) = (?pre @ fst ?t, snd ?t)"
        using assms by simp
      then have ev: "ev = ?pre @ fst ?t" and res: "res = snd ?t"
        by simp_all
      note tr = secondary_loop_trace[of env p output_dir input_root threshold
                  "pdf_entries low_conf" "[]"]
      have pre_l: "loaded_ids ?pre = (if profiles new_id = None then [new_id, nx, nx]
                                      else [new_id, new_id])"
        by simp
      have pre_p: "processed_pdfs ?pre = []"
        by simp
      have l: "loaded_ids ev = (if profiles new_id = None then [new_id, nx, nx]
                                 else [new_id, new_id])"
        unfolding ev loaded_ids_append pre_l using tr by simp
      have pe: "processed_pdfs ev = processed_pdfs (fst ?t)"
        unfolding ev processed_pdfs_append pre_p by simp
      have pf: "prefix (processed_pdfs ev) (map lc_pdf low_conf)"
        unfolding pe using tr by (simp add: pdf_entries_pdfs)
      have st: "processed_pdfs ev \<noteq> []"
        unfolding pe using tr ne by (simp add: pdf_entries_Nil)
      have fin: "\<forall>reports. res = Inr reports \<longrightarrow>
                         processed_pdfs ev = map lc_pdf low_conf
                         \<and> subseq (map lc_pdf reports) (map lc_pdf low_conf)"
      proof (intro allI impI)
        fix reports assume "res = Inr reports"
        then have "snd ?t = Inr reports"
          unfolding res .
        with tr have "processed_pdfs (fst ?t) = map lc_pdf (pdf_entries low_conf)"
          and "\<exists>rs. reports = [] @ rs \<and> subseq (map lc_pdf rs) (map lc_pdf (pdf_entries low_conf))"
          by blast+
        then show "processed_pdfs ev = map lc_pdf low_conf
                         \<and> subseq (map lc_pdf reports) (map lc_pdf low_conf)"
          unfolding pe by (auto simp: pdf_entries_pdfs)
      qed
      show "loaded_ids ev = (if profiles new_id = None then [new_id, nx, nx]
                                   else [new_id, new_id])
                  \<and> res = snd (secondary_loop env p output_dir input_root threshold
                                 (pdf_entries low_conf) [] [])
                  \<and> prefix (processed_pdfs ev) (map lc_pdf low_conf)
                  \<and> processed_pdfs ev \<noteq> []
                  \<and> (\<forall>reports. res = Inr reports \<longrightarrow>
                         processed_pdfs ev = map lc_pdf low_conf
                         \<and> subseq (map lc_pdf reports) (map lc_pdf low_conf))"
        by (intro conjI l res pf st fin)
    qed
    show "(let expected_next =
                next_version_id listdir \<lparr>device_id = sanitize d, store_dir = ''templates''\<rparr>
                  (fst (parse_template_id new_id))
          in (profiles new_id = None \<and> profiles expected_next = None \<longrightarrow>
                ev = [LoadedProfile new_id, LoadedProfile expected_next]
                \<and> res = Inl (TemplateNotFound new_id expected_next))
             \<and> (\<forall>p. profiles (if profiles new_id = None then expected_next else new_id) = Some p
                  \<longrightarrow>
                  loaded_ids ev = (if profiles new_id = None
                                   then [new_id, expected_next, expected_next]
                                   else [new_id, new_id])
                  \<and> res = snd (secondary_loop env p output_dir input_root threshold
                                 (pdf_entries low_conf) [] [])
                  \<and> prefix (processed_pdfs ev) (map lc_pdf low_conf)
                  \<and> processed_pdfs ev \<noteq> []
                  \<and> (\<forall>reports. res = Inr reports \<longrightarrow>
                         processed_pdfs ev = map lc_pdf low_conf
                         \<and> subseq (map lc_pdf reports) (map lc_pdf low_conf))))"
      unfolding Let_def nx_def[symmetric] by (intro conjI missing found)
  qed
  show ?thesis
    by (intro conjI a b c d)
qed

theorem process_low_conf_batch_gate_witness:
  "let listdir = (\<lambda>dir. if dir = ''templates/dev1/acme'' then Some [''acme_v1.json''] else None);
       page = \<lparr>rotation = 0, fz_width = 595, fz_height = 842, pl_width = 595, pl_height = 842,
               page_words = [((60, 60, 100, 80), ''ACME''), ((210, 210, 250, 230), ''Eve'')],
               clip_hash = (\<lambda>b. if b = (50, 50, 150, 150) then ''h1'' else ''h2'')\<rparr>;
       env = \<lparr>classify_pdf_layout =
                (\<lambda>p tol. if p = ''in/b.pdf'' then Layout ''A3'' ''landscape'' 1191 842
                          else Layout ''A4'' ''portrait'' 595 842),
              filter_rectangles_for_layout =
                (\<lambda>rs paper orient. if paper = ''A4'' then rs else []),
              validate_replicated_rects_for_pdf =
                (\<lambda>p rs. if p = ''in/c.pdf''
                         then \<lparr>oob_page_out_of_range = Some [(3, (1, 1, 2, 2))],
                               oob_by_page = [(0, [(5, 5, 700, 9)])]\<rparr>
                         else \<lparr>oob_page_out_of_range = None, oob_by_page = []\<rparr>),
              fitz_open = (\<lambda>p. Some [page]),
              score_text = (\<lambda>a b. if a = b then 1 else 0),
              score_image = (\<lambda>a b. if a = b then 1 else 0),
              os_path_relpath = (\<lambda>p root. p)\<rparr>;
       acme_v2 = \<lparr>p_rectangles =
                    [\<lparr>sv_rect = \<lparr>u_page = 0, u_bbox = (50, 50, 150, 150), u_paper = None,
                                  u_orientation = None\<rparr>,
                      sv_source_index = 0, sv_source_pdf = ''ref.pdf''\<rparr>,
                     \<lparr>sv_rect = \<lparr>u_page = 0, u_bbox = (200, 200, 300, 300), u_paper = None,
                                  u_orientation = None\<rparr>,
                      sv_source_index = 0, sv_source_pdf = ''ref.pdf''\<rparr>],
                  p_contents =
                    [\<lparr>zc_page = 0, zc_bbox = (50, 50, 150, 150), zc_text = ''ACME'',
                      zc_image_hash = ''h1''\<rparr>,
                     \<lparr>zc_page = 0, zc_bbox = (200, 200, 300, 300), zc_text = ''Bob'',
                      zc_image_hash = ''h2''\<rparr>],
                  p_image_map = []\<rparr>;
       profiles = (\<lambda>i. if i = ''acme_v2'' then Some acme_v2 else None);
       a = \<lparr>lc_pdf = ''in/a.pdf'', lc_low_rects = [(0, [(50, 50, 150, 150)])]\<rparr>;
       b = \<lparr>lc_pdf = ''in/b.pdf'', lc_low_rects = []\<rparr>;
       c = \<lparr>lc_pdf = ''in/c.pdf'', lc_low_rects = []\<rparr>
   in process_low_conf_batch listdir profiles env [a, b, c] ''acme_v9'' ''out'' (9 / 10) None
        (Some ''dev1'')
      = ([LoadedProfile ''acme_v9'', LoadedProfile ''acme_v2'',
          Printed (''Note: '' @ [CHR 0x27] @ ''acme_v9'' @ [CHR 0x27] @ '' not found. Using ''
                   @ [CHR 0x27] @ ''acme_v2'' @ [CHR 0x27] @ '' instead.''),
          LoadedProfile ''acme_v2'',
          ProcessingPdf ''in/a.pdf'',
          Redacted ''in/a.pdf'' [\<lparr>rr_page = 0, rr_bbox = (50, 50, 150, 150)\<rparr>]
            ''out/a_sanitized.pdf'',
          ProcessingPdf ''in/b.pdf'',
          AppendedToInput
            \<lparr>lc_pdf = ''in/b.pdf'',
             lc_low_rects = [(0, [(50, 50, 150, 150), (200, 200, 300, 300)])]\<rparr>,
          ProcessingPdf ''in/c.pdf''],
         Inr [\<lparr>lc_pdf = ''in/a.pdf'', lc_low_rects = [(0, [(200, 200, 300, 300)])]\<rparr>,
              \<lparr>lc_pdf = ''in/c.pdf'',
               lc_low_rects = [(3, [(1, 1, 2, 2)]), (0, [(5, 5, 700, 9)])]\<rparr>])
      \<and> loaded_ids (fst (process_low_conf_batch listdir profiles env [a, b, c] ''acme_v9''
                            ''out'' (9 / 10) None (Some ''dev1'')))
          = [''acme_v9'', ''acme_v2'', ''acme_v2'']
      \<and> processed_pdfs (fst (process_low_conf_batch listdir profiles env [a, b, c] ''acme_v9''
                                ''out'' (9 / 10) None (Some ''dev1'')))
          = [''in/a.pdf'', ''in/b.pdf'', ''in/c.pdf'']
      \<and> fst (process_low_conf_batch listdir (\<lambda>i. None) env [a, b, c] ''acme_v9''
                 ''out'' (9 / 10) None (Some ''dev1''))
          = [LoadedProfile ''acme_v9'', LoadedProfile ''acme_v2'']
      \<and> snd (process_low_conf_batch listdir (\<lambda>i. None) env [a, b, c] ''acme_v9''
                 ''out'' (9 / 10) None (Some ''dev1''))
          = Inl (TemplateNotFound ''acme_v9'' ''acme_v2'')
      \<and> fst (process_low_conf_batch listdir profiles env [a, b, c] ''acme_v9''
                 ''out'' (9 / 10) None (Some []))
          = []
      \<and> snd (process_low_conf_batch listdir profiles env [a, b, c] ''acme_v9''
                 ''out'' (9 / 10) None (Some []))
          = Inl DeviceIdRequired
      \<and> snd (process_low_conf_batch listdir profiles env [a, b] ''acme_v9''
                 ''out'' (9 / 10) None (Some ''dev1''))
          = Inr []
      \<and> loaded_ids (fst (process_low_conf_batch listdir profiles env [a, b] ''acme_v9''
                            ''out'' (9 / 10) None (Some ''dev1'')))
          = []
      \<and> processed_pdfs (fst (process_low_conf_batch listdir profiles env [a, b] ''acme_v9''
                                ''out'' (9 / 10) None (Some ''dev1'')))
          = []
      \<and> snd (process_low_conf_batch listdir profiles env [] ''acme_v9''
                 ''out'' (9 / 10) None (Some ''dev1''))
          = Inr []
      \<and> process_low_conf_batch listdir profiles
          (env\<lparr>classify_pdf_layout :=
                  (\<lambda>p tol. PageLayouts [(''A4'', ''portrait'', 595, 842)])\<rparr>)
          [a, b, c] ''acme_v2'' ''out'' (9 / 10) None (Some ''dev1'')
          = ([LoadedProfile ''acme_v2'', LoadedProfile ''acme_v2'', ProcessingPdf ''in/a.pdf''],
             Inl (UnpackFailed ''in/a.pdf''))"
proof -
  let ?L = "\<lambda>dir. if dir = ''templates/dev1/acme'' then Some [''acme_v1.json''] else None"
  let ?page = "\<lparr>rotation = 0, fz_width = 595, fz_height = 842, pl_width = 595, pl_height = 842,
               page_words = [((60, 60, 100, 80), ''ACME''), ((210, 210, 250, 230), ''Eve'')],
               clip_hash = (\<lambda>b. if b = (50, 50, 150, 150) then ''h1'' else ''h2'')\<rparr>"
  let ?E = "\<lparr>classify_pdf_layout =
                (\<lambda>p tol. if p = ''in/b.pdf'' then Layout ''A3'' ''landscape'' 1191 842
                          else Layout ''A4'' ''portrait'' 595 842),
              filter_rectangles_for_layout =
                (\<lambda>rs paper orient. if paper = ''A4'' then rs else []),
              validate_replicated_rects_for_pdf =
                (\<lambda>p rs. if p = ''in/c.pdf''
                         then \<lparr>oob_page_out_of_range = Some [(3, (1, 1, 2, 2))],
                               oob_by_page = [(0, [(5, 5, 700, 9)])]\<rparr>
                         else \<lparr>oob_page_out_of_range = None, oob_by_page = []\<rparr>),
              fitz_open = (\<lambda>p. Some [?page]),
              score_text = (\<lambda>a b. if a = b then 1 else 0),
              score_image = (\<lambda>a b. if a = b then 1 else 0),
              os_path_relpath = (\<lambda>p root. p)\<rparr>"
  let ?V2 = "\<lparr>p_rectangles =
                    [\<lparr>sv_rect = \<lparr>u_page = 0, u_bbox = (50, 50, 150, 150), u_paper = None,
                                  u_orientation = None\<rparr>,
                      sv_source_index = 0, sv_source_pdf = ''ref.pdf''\<rparr>,
                     \<lparr>sv_rect = \<lparr>u_page = 0, u_bbox = (200, 200, 300, 300), u_paper = None,
                                  u_orientation = None\<rparr>,
                      sv_source_index = 0, sv_source_pdf = ''ref.pdf''\<rparr>],
                  p_contents =
                    [\<lparr>zc_page = 0, zc_bbox = (50, 50, 150, 150), zc_text = ''ACME'',
                      zc_image_hash = ''h1''\<rparr>,
                     \<lparr>zc_page = 0, zc_bbox = (200, 200, 300, 300), zc_text = ''Bob'',
                      zc_image_hash = ''h2''\<rparr>],
                  p_image_map = []\<rparr>"
  let ?P = "\<lambda>i. if i = ''acme_v2'' then Some ?V2 else None"
  let ?N = "\<lambda>i::string. (None :: profile option)"
  let ?a = "\<lparr>lc_pdf = ''in/a.pdf'', lc_low_rects = [(0, [(50, 50, 150, 150)])]\<rparr>"
  let ?b = "\<lparr>lc_pdf = ''in/b.pdf'', lc_low_rects = []\<rparr>"
  let ?c = "\<lparr>lc_pdf = ''in/c.pdf'', lc_low_rects = []\<rparr>"
  let ?ev = "[LoadedProfile ''acme_v9'', LoadedProfile ''acme_v2'',
          Printed (''Note: '' @ [CHR 0x27] @ ''acme_v9'' @ [CHR 0x27] @ '' not found. Using ''
                   @ [CHR 0x27] @ ''acme_v2'' @ [CHR 0x27] @ '' instead.''),
          LoadedProfile ''acme_v2'',
          ProcessingPdf ''in/a.pdf'',
          Redacted ''in/a.pdf'' [\<lparr>rr_page = 0, rr_bbox = (50, 50, 150, 150)\<rparr>]
            ''out/a_sanitized.pdf'',
          ProcessingPdf ''in/b.pdf'',
          AppendedToInput
            \<lparr>lc_pdf = ''in/b.pdf'',
             lc_low_rects = [(0, [(50, 50, 150, 150), (200, 200, 300, 300)])]\<rparr>,
          ProcessingPdf ''in/c.pdf'']"
  let ?res = "Inr [\<lparr>lc_pdf = ''in/a.pdf'', lc_low_rects = [(0, [(200, 200, 300, 300)])]\<rparr>,
              \<lparr>lc_pdf = ''in/c.pdf'',
               lc_low_rects = [(3, [(1, 1, 2, 2)]), (0, [(5, 5, 700, 9)])]\<rparr>]
              :: pipeline_error + low_conf_report list"
  let ?fb = "process_low_conf_batch ?L ?P ?E [?a, ?b, ?c] ''acme_v9'' ''out'' (9 / 10) None
               (Some ''dev1'')"
  let ?nf = "process_low_conf_batch ?L ?N ?E [?a, ?b, ?c] ''acme_v9'' ''out'' (9 / 10) None
               (Some ''dev1'')"
  let ?nd = "process_low_conf_batch ?L ?P ?E [?a, ?b, ?c] ''acme_v9'' ''out'' (9 / 10) None
               (Some [])"
  let ?two = "process_low_conf_batch ?L ?P ?E [?a, ?b] ''acme_v9'' ''out'' (9 / 10) None
               (Some ''dev1'')"
  let ?zero = "process_low_conf_batch ?L ?P ?E [] ''acme_v9'' ''out'' (9 / 10) None
               (Some ''dev1'')"
  have nx: "next_version_id ?L \<lparr>device_id = sanitize ''dev1'', store_dir = ''templates''\<rparr>
              (fst (parse_template_id ''acme_v9'')) = ''acme_v2''"
    by code_simp
  have three: "3 \<le> length [?a, ?b, ?c] \<and> Some ''dev1'' = Some ''dev1'' \<and> ''dev1'' \<noteq> []"
    by simp

  have w1: "?fb = (?ev, ?res)"
    by code_simp
  note g_fb = process_low_conf_batch_gate [OF w1]
  have "let expected_next =
                next_version_id ?L \<lparr>device_id = sanitize ''dev1'', store_dir = ''templates''\<rparr>
                  (fst (parse_template_id ''acme_v9''))
          in (?P ''acme_v9'' = None \<and> ?P expected_next = None \<longrightarrow>
                ?ev = [LoadedProfile ''acme_v9'', LoadedProfile expected_next]
                \<and> ?res = Inl (TemplateNotFound ''acme_v9'' expected_next))
             \<and> (\<forall>p. ?P (if ?P ''acme_v9'' = None then expected_next else ''acme_v9'') = Some p
                  \<longrightarrow>
                  loaded_ids ?ev = (if ?P ''acme_v9'' = None
                                   then [''acme_v9'', expected_next, expected_next]
                                   else [''acme_v9'', ''acme_v9''])
                  \<and> ?res = snd (secondary_loop ?E p ''out'' None (9 / 10)
                                 (pdf_entries [?a, ?b, ?c]) [] [])
                  \<and> prefix (processed_pdfs ?ev) (map lc_pdf [?a, ?b, ?c])
                  \<and> processed_pdfs ?ev \<noteq> []
                  \<and> (\<forall>reports. ?res = Inr reports \<longrightarrow>
                         processed_pdfs ?ev = map lc_pdf [?a, ?b, ?c]
                         \<and> subseq (map lc_pdf reports) (map lc_pdf [?a, ?b, ?c])))"
    using g_fb three by blast
  then have fb4: "\<forall>p. ?P (if ?P ''acme_v9'' = None then ''acme_v2'' else ''acme_v9'') = Some p
                  \<longrightarrow>
                  loaded_ids ?ev = (if ?P ''acme_v9'' = None
                                   then [''acme_v9'', ''acme_v2'', ''acme_v2'']
                                   else [''acme_v9'', ''acme_v9''])
                  \<and> ?res = snd (secondary_loop ?E p ''out'' None (9 / 10)
                                 (pdf_entries [?a, ?b, ?c]) [] [])
                  \<and> prefix (processed_pdfs ?ev) (map lc_pdf [?a, ?b, ?c])
                  \<and> processed_pdfs ?ev \<noteq> []
                  \<and> (\<forall>reports. ?res = Inr reports \<longrightarrow>
                         processed_pdfs ?ev = map lc_pdf [?a, ?b, ?c]
                         \<and> subseq (map lc_pdf reports) (map lc_pdf [?a, ?b, ?c]))"
    unfolding Let_def nx by (rule conjunct2)
  have sel: "?P (if ?P ''acme_v9'' = None then ''acme_v2'' else ''acme_v9'') = Some ?V2"
    by simp
  from fb4 sel have fb5: "loaded_ids ?ev = (if ?P ''acme_v9'' = None
                                   then [''acme_v9'', ''acme_v2'', ''acme_v2'']
                                   else [''acme_v9'', ''acme_v9''])"
    and fb6: "\<forall>reports. ?res = Inr reports \<longrightarrow>
                         processed_pdfs ?ev = map lc_pdf [?a, ?b, ?c]
                         \<and> subseq (map lc_pdf reports) (map lc_pdf [?a, ?b, ?c])"
    by blast+
  have w2: "loaded_ids (fst ?fb) = [''acme_v9'', ''acme_v2'', ''acme_v2'']"
    unfolding w1 fst_conv using fb5 by simp
  from fb6 have "processed_pdfs ?ev = map lc_pdf [?a, ?b, ?c]"
    by blast
  then have w3: "processed_pdfs (fst ?fb) = [''in/a.pdf'', ''in/b.pdf'', ''in/c.pdf'']"
    unfolding w1 fst_conv by simp

  have p_nf: "?nf = (fst ?nf, snd ?nf)"
    by (rule surjective_pairing)
  note g_nf = process_low_conf_batch_gate [OF p_nf]
  have "let expected_next =
                next_version_id ?L \<lparr>device_id = sanitize ''dev1'', store_dir = ''templates''\<rparr>
                  (fst (parse_template_id ''acme_v9''))
          in (?N ''acme_v9'' = None \<and> ?N expected_next = None \<longrightarrow>
                fst ?nf = [LoadedProfile ''acme_v9'', LoadedProfile expected_next]
                \<and> snd ?nf = Inl (TemplateNotFound ''acme_v9'' expected_next))
             \<and> (\<forall>p. ?N (if ?N ''acme_v9'' = None then expected_next else ''acme_v9'') = Some p
                  \<longrightarrow>
                  loaded_ids (fst ?nf) = (if ?N ''acme_v9'' = None
                                   then [''acme_v9'', expected_next, expected_next]
                                   else [''acme_v9'', ''acme_v9''])
                  \<and> snd ?nf = snd (secondary_loop ?E p ''out'' None (9 / 10)
                                 (pdf_entries [?a, ?b, ?c]) [] [])
                  \<and> prefix (processed_pdfs (fst ?nf)) (map lc_pdf [?a, ?b, ?c])
                  \<and> processed_pdfs (fst ?nf) \<noteq> []
                  \<and> (\<forall>reports. snd ?nf = Inr reports \<longrightarrow>
                         processed_pdfs (fst ?nf) = map lc_pdf [?a, ?b, ?c]
                         \<and> subseq (map lc_pdf reports) (map lc_pdf [?a, ?b, ?c])))"
    using g_nf three by blast
  then have "?N ''acme_v9'' = None \<and> ?N ''acme_v2'' = None \<longrightarrow>
                fst ?nf = [LoadedProfile ''acme_v9'', LoadedProfile ''acme_v2'']
                \<and> snd ?nf = Inl (TemplateNotFound ''acme_v9'' ''acme_v2'')"
    unfolding Let_def nx by (rule conjunct1)
  then have w4: "fst ?nf = [LoadedProfile ''acme_v9'', LoadedProfile ''acme_v2'']"
    and w5: "snd ?nf = Inl (TemplateNotFound ''acme_v9'' ''acme_v2'')"
    by simp_all

  have p_nd: "?nd = (fst ?nd, snd ?nd)"
    by (rule surjective_pairing)
  note g_nd = process_low_conf_batch_gate [OF p_nd]
  have "3 \<le> length [?a, ?b, ?c] \<and> (Some [] = (None :: string option) \<or> Some [] = Some ([] :: string))"
    by simp
  with g_nd have "fst ?nd = [] \<and> snd ?nd = Inl DeviceIdRequired"
    by blast
  then have w6: "fst ?nd = []" and w7: "snd ?nd = Inl DeviceIdRequired"
    by simp_all

  have p_two: "?two = (fst ?two, snd ?two)"
    by (rule surjective_pairing)
  note g_two = process_low_conf_batch_gate [OF p_two]
  have "length [?a, ?b] < 3"
    by simp
  with g_two have "snd ?two = Inr [] \<and> loaded_ids (fst ?two) = [] \<and> processed_pdfs (fst ?two) = []"
    by blast
  then have w8: "snd ?two = Inr []" and w9: "loaded_ids (fst ?two) = []"
    and w10: "processed_pdfs (fst ?two) = []"
    by simp_all

  have p_zero: "?zero = (fst ?zero, snd ?zero)"
    by (rule surjective_pairing)
  note g_zero = process_low_conf_batch_gate [OF p_zero]
  have "([] :: low_conf_report list) = []"
    by simp
  with g_zero have w11: "snd ?zero = Inr []"
    by blast

  have w12: "process_low_conf_batch ?L ?P
          (?E\<lparr>classify_pdf_layout :=
                  (\<lambda>p tol. PageLayouts [(''A4'', ''portrait'', 595, 842)])\<rparr>)
          [?a, ?b, ?c] ''acme_v2'' ''out'' (9 / 10) None (Some ''dev1'')
          = ([LoadedProfile ''acme_v2'', LoadedProfile ''acme_v2'', ProcessingPdf ''in/a.pdf''],
             Inl (UnpackFailed ''in/a.pdf''))"
    by code_simp

  show ?thesis
    unfolding Let_def
    by (intro conjI w1 w2 w3 w4 w5 w6 w7 w8 w9 w10 w11 w12)
qed

subsection \<open>Sentence chunks\<close>





















subsection \<open>Sanitised upload names\<close>

lemma py_split_nonempty: "py_split sep s \<noteq> []"
  by (induction s) (auto split: list.splits)

lemma py_split_no_sep: "sep \<notin> set s \<Longrightarrow> py_split sep s = [s]"
  by (induction s) auto

lemma last_py_split_Cons:
  "last (py_split sep (c # cs)) = (if sep \<in> set cs then last (py_split sep cs)
                                   else if c = sep then cs else c # cs)"
proof (cases "sep \<in> set cs")
  case False
  then show ?thesis by (simp add: py_split_no_sep)
next
  case True
  have "py_split sep cs \<noteq> []" by (rule py_split_nonempty)
  moreover have "length (py_split sep cs) \<ge> 2" using True
    by (induction cs) (auto split: list.splits simp: py_split_nonempty Suc_le_eq)
  ultimately show ?thesis using True
    by (cases "py_split sep cs") (auto split: list.splits)
qed

lemma last_py_split: "last (py_split sep s) = rev (takeWhile (\<lambda>c. c \<noteq> sep) (rev s))"
proof (induction s)
  case Nil
  show ?case by simp
next
  case (Cons c cs)
  show ?case
  proof (cases "sep \<in> set cs")
    case True
    then have "takeWhile (\<lambda>c. c \<noteq> sep) (rev cs @ [c]) = takeWhile (\<lambda>c. c \<noteq> sep) (rev cs)"
      by (intro takeWhile_append1[where x = sep]) auto
    with True Cons show ?thesis by (simp add: last_py_split_Cons del: py_split.simps)
  next
    case False
    then have "takeWhile (\<lambda>c. c \<noteq> sep) (rev cs @ [c]) = rev cs @ takeWhile (\<lambda>c. c \<noteq> sep) [c]"
      by (intro takeWhile_append2) auto
    with False show ?thesis by (simp add: last_py_split_Cons del: py_split.simps)
  qed
qed

lemma basename_replace:
  "last (py_split (CHR ''/'') (py_replace_char (CHR 0x5C) (CHR ''/'') s)) = spec_basename s"
proof -
  let ?f = "\<lambda>c. if c = CHR 0x5C then CHR ''/'' else c"
  have "takeWhile (\<lambda>c. c \<noteq> CHR ''/'') (map ?f xs)
        = takeWhile (\<lambda>c. c \<noteq> CHR ''/'' \<and> c \<noteq> CHR 0x5C) xs" for xs
    by (induction xs) auto
  then show ?thesis
    by (simp add: last_py_split py_replace_char_def spec_basename_def rev_map)
qed


lemma py_strip_decomp:
  "\<exists>a b. s = a @ py_strip s @ b \<and> (\<forall>c\<in>set a. py_isspace c) \<and> (\<forall>c\<in>set b. py_isspace c)"
proof -
  let ?m = "dropWhile py_isspace s"
  have 1: "s = takeWhile py_isspace s @ ?m" by simp
  have "rev (dropWhile py_isspace (rev ?m)) @ rev (takeWhile py_isspace (rev ?m))
        = rev (takeWhile py_isspace (rev ?m) @ dropWhile py_isspace (rev ?m))"
    by (simp only: rev_append)
  also have "\<dots> = ?m"
    by (simp only: takeWhile_dropWhile_id rev_rev_ident)
  finally have 2: "?m = py_strip s @ rev (takeWhile py_isspace (rev ?m))"
    by (simp add: py_strip_def)
  have 3: "\<forall>c\<in>set (takeWhile py_isspace s). py_isspace c"
    by (auto dest: set_takeWhileD)
  have 4: "\<forall>c\<in>set (rev (takeWhile py_isspace (rev ?m))). py_isspace c"
    by (auto dest: set_takeWhileD)
  from 1 2 have "s = takeWhile py_isspace s @ py_strip s @ rev (takeWhile py_isspace (rev ?m))"
    by metis
  with 3 4 show ?thesis by blast
qed

lemma subseq_py_strip: "subseq (py_strip s) s"
proof -
  obtain a b where "s = a @ py_strip s @ b" using py_strip_decomp by blast
  then have "subseq (py_strip s) (a @ py_strip s @ b) \<Longrightarrow> subseq (py_strip s) s" by simp
  moreover have "subseq (py_strip s) (a @ py_strip s @ b)"
    by (simp add: list_emb_append2 list_emb_prefix)
  ultimately show ?thesis .
qed

lemma spec_basename_suffix: "suffix (spec_basename m) (spec_basename (a @ m))"
proof -
  have "prefix (takeWhile (\<lambda>c. c \<noteq> CHR ''/'' \<and> c \<noteq> CHR 0x5C) (rev m))
               (takeWhile (\<lambda>c. c \<noteq> CHR ''/'' \<and> c \<noteq> CHR 0x5C) (rev m @ rev a))"
    by (rule prefix_takeWhile) simp
  then show ?thesis
    by (simp add: spec_basename_def suffix_to_prefix)
qed

lemma spec_basename_trailing:
  assumes "\<forall>c\<in>set b. c \<noteq> CHR ''/'' \<and> c \<noteq> CHR 0x5C"
  shows "spec_basename (m @ b) = spec_basename m @ b"
proof -
  have "takeWhile (\<lambda>c. c \<noteq> CHR ''/'' \<and> c \<noteq> CHR 0x5C) (rev b @ rev m)
        = rev b @ takeWhile (\<lambda>c. c \<noteq> CHR ''/'' \<and> c \<noteq> CHR 0x5C) (rev m)"
    using assms by (intro takeWhile_append2) auto
  then show ?thesis by (simp add: spec_basename_def)
qed

lemma py_isspace_not_sep: "py_isspace c \<Longrightarrow> c \<noteq> CHR ''/'' \<and> c \<noteq> CHR 0x5C"
  by (auto simp: py_isspace_def)

lemma subseq_basename_strip: "subseq (spec_basename (py_strip s)) (spec_basename s)"
proof -
  obtain a b where s: "s = a @ py_strip s @ b" and b: "\<forall>c\<in>set b. py_isspace c"
    using py_strip_decomp by blast
  have "spec_basename ((a @ py_strip s) @ b) = spec_basename (a @ py_strip s) @ b"
    using b by (intro spec_basename_trailing) (auto dest: py_isspace_not_sep)
  then have e: "spec_basename s = spec_basename (a @ py_strip s) @ b"
    using s by simp
  have "subseq (spec_basename (py_strip s)) (spec_basename (a @ py_strip s))"
    by (rule suffix_imp_subseq) (rule spec_basename_suffix)
  then have "subseq (spec_basename (py_strip s)) (spec_basename (a @ py_strip s) @ b)"
    by (simp add: list_emb_prefix)
  with e show ?thesis by simp
qed

lemma subseq_set: "subseq xs ys \<Longrightarrow> set xs \<subseteq> set ys"
  by (auto elim: list_emb_set)

lemma sep_not_allowed:
  "\<not> allowed_filename_char (CHR ''/'')" "\<not> allowed_filename_char (CHR 0x5C)"
  by (simp_all add: allowed_filename_char_def py_isalnum_def keep_chars_def)

lemma safe_filename_cases:
  "safe_filename n = ''file.pdf''
   \<or> (safe_filename n \<noteq> [] \<and> subseq (safe_filename n) (filter allowed_filename_char (spec_basename n)))"
proof (cases "n = []")
  case True
  have "safe_filename [] = ''file.pdf''" by code_simp
  with True show ?thesis by simp
next
  case False
  let ?f = "filter allowed_filename_char (spec_basename (py_strip n))"
  have sf: "safe_filename n = (if py_strip ?f = [] then ''file.pdf'' else py_strip ?f)"
    using False unfolding safe_filename_def allowed_filename_char_def[abs_def]
    by (simp add: basename_replace Let_def)
  have "subseq (py_strip ?f) ?f" by (rule subseq_py_strip)
  moreover have "subseq ?f (filter allowed_filename_char (spec_basename n))"
    by (intro subseq_filter subseq_basename_strip)
  ultimately have "subseq (py_strip ?f) (filter allowed_filename_char (spec_basename n))"
    by (rule subseq_order.trans)
  with sf show ?thesis by auto
qed

lemma safe_filename_exact:
  "safe_filename n =
     (let c = py_strip (filter allowed_filename_char
                (spec_basename (py_strip (if n = [] then ''file.pdf'' else n))))
      in if c = [] then ''file.pdf'' else c)"
  unfolding safe_filename_def allowed_filename_char_def[abs_def]
  by (simp add: basename_replace Let_def)

text \<open>
  C7. For every input string the result of \<open>_safe_filename\<close> is not empty, holds neither
  \<open>/\<close> nor a backslash, and holds only alphanumeric characters and the characters of
  \<open>-_.() \<close>; unless it is the fallback \<open>"file.pdf"\<close>, it is made of characters of the part
  of the input after its last \<open>/\<close> or backslash, in their order, with only allowed
  characters kept; and it is \<open>"file.pdf"\<close> whenever nothing of that part is allowed. The
  name \<open>"../../etc/passwd.pdf"\<close> gives \<open>"passwd.pdf"\<close>. In full, the result is the last
  component of the name trimmed of whitespace, with the allowed characters kept and the
  outcome trimmed once more, or \<open>"file.pdf"\<close> when that is empty.
\<close>

theorem safe_filename_sanitized:
  "safe_filename n \<noteq> []
   \<and> CHR ''/'' \<notin> set (safe_filename n) \<and> CHR 0x5C \<notin> set (safe_filename n)
   \<and> (\<forall>c\<in>set (safe_filename n). allowed_filename_char c)
   \<and> (safe_filename n = ''file.pdf''
        \<or> subseq (safe_filename n) (filter allowed_filename_char (spec_basename n)))
   \<and> (filter allowed_filename_char (spec_basename n) = [] \<longrightarrow> safe_filename n = ''file.pdf'')
   \<and> spec_basename ''../../etc/passwd.pdf'' = ''passwd.pdf''
   \<and> safe_filename ''../../etc/passwd.pdf'' = ''passwd.pdf''
   \<and> safe_filename n =
        (let c = py_strip (filter allowed_filename_char
                   (spec_basename (py_strip (if n = [] then ''file.pdf'' else n))))
         in if c = [] then ''file.pdf'' else c)"
proof -
  have fixed: "\<forall>c\<in>set ''file.pdf''. allowed_filename_char c"
    by (simp add: allowed_filename_char_def py_isalnum_def keep_chars_def)
  have all: "\<forall>c\<in>set (safe_filename n). allowed_filename_char c"
  proof (rule disjE[OF safe_filename_cases[of n]])
    assume "safe_filename n = ''file.pdf''"
    with fixed show ?thesis by simp
  next
    assume "safe_filename n \<noteq> [] \<and> subseq (safe_filename n) (filter allowed_filename_char (spec_basename n))"
    then have "set (safe_filename n) \<subseteq> set (filter allowed_filename_char (spec_basename n))"
      using subseq_set by blast
    then show ?thesis by auto
  qed
  have ne: "safe_filename n \<noteq> []"
    using safe_filename_cases[of n] by auto
  have nosep: "CHR ''/'' \<notin> set (safe_filename n)" "CHR 0x5C \<notin> set (safe_filename n)"
    using all sep_not_allowed by blast+
  have fb: "filter allowed_filename_char (spec_basename n) = [] \<longrightarrow> safe_filename n = ''file.pdf''"
    using safe_filename_cases[of n] by auto
  have ex1: "spec_basename ''../../etc/passwd.pdf'' = ''passwd.pdf''"
    by (simp add: spec_basename_def)
  have ex2: "safe_filename ''../../etc/passwd.pdf'' = ''passwd.pdf''"
    by code_simp
  have sub: "safe_filename n = ''file.pdf''
             \<or> subseq (safe_filename n) (filter allowed_filename_char (spec_basename n))"
    using safe_filename_cases[of n] by (rule disj_forward) simp_all
  show ?thesis
    by (intro conjI ne nosep all sub fb ex1 ex2 safe_filename_exact)
qed

theorem safe_filename_sanitized_witness:
  "safe_filename (''C:'' @ [CHR 0x5C] @ ''up/ my file*.pdf '') \<noteq> []
   \<and> safe_filename (''C:'' @ [CHR 0x5C] @ ''up/ my file*.pdf '') = ''my file.pdf''"
proof -
  have e: "safe_filename (''C:'' @ [CHR 0x5C] @ ''up/ my file*.pdf '') = ''my file.pdf''"
    by code_simp
  have "safe_filename (''C:'' @ [CHR 0x5C] @ ''up/ my file*.pdf '') \<noteq> []"
    using safe_filename_sanitized [of "''C:'' @ [CHR 0x5C] @ ''up/ my file*.pdf ''"]
    by (rule conjunct1)
  then show ?thesis using e by (intro conjI)
qed

subsection \<open>Extraction partitions its rectangles\<close>

lemma extract_loop_filter:
  assumes "doc \<noteq> []" and "\<forall>r\<in>set rects. r_bbox r \<noteq> None"
  shows "extract_loop doc rects st =
           Inr \<lparr>results = results st
                   @ map (\<lambda>r. zone_result doc r (the (r_bbox r))) (filter (zone_kept doc) rects),
                used_rects = used_rects st
                   @ map (\<lambda>r. zone_used_rect doc r (the (r_bbox r))) (filter (zone_kept doc) rects),
                skipped = skipped st
                   @ map (\<lambda>r. zone_skip doc r (the (r_bbox r)))
                       (filter (\<lambda>r. \<not> zone_kept doc r) rects)\<rparr>"
  using assms(2)
proof (induction rects arbitrary: st)
  case Nil
  show ?case by simp
next
  case (Cons r rects)
  from Cons.prems obtain raw where raw: "r_bbox r = Some raw"
    by auto
  from Cons.prems have rest: "\<forall>r\<in>set rects. r_bbox r \<noteq> None"
    by simp
  show ?case
  proof (cases "zone_kept doc r")
    case True
    then have "extract_loop doc (r # rects) st =
                 extract_loop doc rects
                   (st\<lparr>results := results st @ [zone_result doc r raw],
                       used_rects := used_rects st @ [zone_used_rect doc r raw]\<rparr>)"
      using assms(1) raw by (simp add: zone_kept_def)
    then show ?thesis
      using True raw by (simp add: Cons.IH[OF rest])
  next
    case False
    then have "extract_loop doc (r # rects) st =
                 extract_loop doc rects (st\<lparr>skipped := skipped st @ [zone_skip doc r raw]\<rparr>)"
      using assms(1) raw by (simp add: zone_kept_def)
    then show ?thesis
      using False raw by (simp add: Cons.IH[OF rest])
  qed
qed

lemma zone_page_num_range:
  assumes "doc \<noteq> []"
  shows "0 \<le> zone_page_num doc r \<and> zone_page_num doc r < int (length doc)"
  using assms by (cases doc) (auto simp: zone_page_num_def Let_def split: option.splits)

text \<open>The code's page, box and test are the ones of the specification.\<close>

lemma zone_page_num_spec:
  assumes "doc \<noteq> []"
  shows "zone_page_num doc r = spec_clamped_page (length doc) r"
proof -
  have "0 < length doc"
    using assms by simp
  then show ?thesis
    by (cases "r_page r") (auto simp: zone_page_num_def spec_clamped_page_def Let_def)
qed

lemma normalized_bbox_spec: "normalized_bbox b = spec_ordered_box b"
  by (cases b) (auto simp: spec_ordered_box_def min_def max_def)

lemma bbox_inside_page_spec:
  "bbox_inside_page pg (normalized_bbox b) (1 / 10)
     = spec_within_page (fz_width pg) (fz_height pg) (spec_ordered_box b)"
proof -
  obtain x0 y0 x1 y1 where b: "b = (x0, y0, x1, y1)"
    by (cases b) auto
  show ?thesis
    unfolding b bbox_inside_page_def spec_within_page_def spec_ordered_box_def
    by (auto simp: Let_def min_def max_def)
qed

lemma zone_kept_spec:
  assumes "doc \<noteq> []"
  shows "zone_kept doc r = spec_kept doc r"
  by (simp add: zone_kept_def spec_kept_def zone_page_def zone_page_num_spec[OF assms]
                bbox_inside_page_spec)

lemma transform_bbox_spec:
  "transform_bbox_for_rotation b pw ph r
     = spec_ordered_box (spec_rotation_table (r mod 360) b pw ph)"
proof -
  obtain x1 y1 x2 y2 where b: "b = (x1, y1, x2, y2)"
    by (cases b) auto
  show ?thesis
    unfolding b transform_bbox_for_rotation_def spec_rotation_table_def spec_ordered_box_def
    by (simp add: Let_def)
qed

text \<open>
  C8. On a document with at least one page, for rectangles that all carry a box,
  \<open>extract_zones_content\<close> with \<open>_return_skips\<close> returns three lists that partition the
  input. The used rectangles come, in order, one from each rectangle whose box as drawn
  lies within its page, and the skipped entries, in order, one from each of the others;
  so the results and the used rectangles have the same length and together with the
  skipped list they account for every input rectangle once. A used rectangle carries the
  page of its rectangle clamped into the document (0 when the rectangle has no page,
  0 for a negative page, the last page for a page beyond it), the box as drawn with its
  coordinates put in order, and the rectangle's paper and orientation tags; a skipped
  entry carries the clamped page and the box as the caller passed it. The i-th result
  has the page of the i-th used rectangle, and its box is the box of that used rectangle
  put through the rotation table for the rotation of that page of the document, with
  that page's width and height, and put in order.
\<close>

theorem extract_zones_content_partition:
  assumes "doc \<noteq> []" and "\<forall>r\<in>set rectangles. r_bbox r \<noteq> None"
  shows "\<exists>res used skp.
           extract_zones_content doc rectangles = Inr (res, used, skp)
           \<and> length res = length used
           \<and> length res + length skp = length rectangles
           \<and> list_all2
               (\<lambda>u r. u_page u = spec_clamped_page (length doc) r
                      \<and> u_bbox u = spec_ordered_box (the (r_bbox r))
                      \<and> u_paper u = r_paper r \<and> u_orientation u = r_orientation r)
               used (filter (spec_kept doc) rectangles)
           \<and> list_all2
               (\<lambda>s r. s_page s = spec_clamped_page (length doc) r \<and> s_bbox s = the (r_bbox r))
               skp (filter (\<lambda>r. \<not> spec_kept doc r) rectangles)
           \<and> (\<forall>i<length res.
                  zc_page (res ! i) = u_page (used ! i)
                  \<and> 0 \<le> u_page (used ! i) \<and> u_page (used ! i) < int (length doc)
                  \<and> zc_bbox (res ! i) =
                      spec_ordered_box
                        (spec_rotation_table (rotation (doc ! nat (u_page (used ! i))) mod 360)
                           (u_bbox (used ! i))
                           (pl_width (doc ! nat (u_page (used ! i))))
                           (pl_height (doc ! nat (u_page (used ! i))))))"
proof -
  let ?keep = "filter (spec_kept doc) rectangles"
  let ?drop = "filter (\<lambda>r. \<not> spec_kept doc r) rectangles"
  let ?res = "map (\<lambda>r. zone_result doc r (the (r_bbox r))) ?keep"
  let ?used = "map (\<lambda>r. zone_used_rect doc r (the (r_bbox r))) ?keep"
  let ?skp = "map (\<lambda>r. zone_skip doc r (the (r_bbox r))) ?drop"
  have kept: "zone_kept doc = spec_kept doc"
    using zone_kept_spec[OF assms(1)] by (intro ext)
  have run: "extract_zones_content doc rectangles = Inr (?res, ?used, ?skp)"
    by (simp add: extract_zones_content_def extract_loop_filter[OF assms] kept)
  have len1: "length ?res = length ?used"
    by simp
  have len2: "length ?res + length ?skp = length rectangles"
    using sum_length_filter_compl[of "spec_kept doc" rectangles] by simp
  have u: "list_all2
               (\<lambda>u r. u_page u = spec_clamped_page (length doc) r
                      \<and> u_bbox u = spec_ordered_box (the (r_bbox r))
                      \<and> u_paper u = r_paper r \<and> u_orientation u = r_orientation r)
               ?used ?keep"
    by (simp add: list_all2_map1 list_all2_same zone_used_rect_def
                  zone_page_num_spec[OF assms(1)] normalized_bbox_spec)
  have s: "list_all2
               (\<lambda>s r. s_page s = spec_clamped_page (length doc) r \<and> s_bbox s = the (r_bbox r))
               ?skp ?drop"
    by (simp add: list_all2_map1 list_all2_same zone_skip_def zone_page_num_spec[OF assms(1)])
  have pt: "\<forall>i<length ?res.
                  zc_page (?res ! i) = u_page (?used ! i)
                  \<and> 0 \<le> u_page (?used ! i) \<and> u_page (?used ! i) < int (length doc)
                  \<and> zc_bbox (?res ! i) =
                      spec_ordered_box
                        (spec_rotation_table (rotation (doc ! nat (u_page (?used ! i))) mod 360)
                           (u_bbox (?used ! i))
                           (pl_width (doc ! nat (u_page (?used ! i))))
                           (pl_height (doc ! nat (u_page (?used ! i)))))"
  proof (intro allI impI)
    fix i assume "i < length ?res"
    then have i: "i < length ?keep" by simp
    let ?r = "?keep ! i"
    have r: "?res ! i = zone_result doc ?r (the (r_bbox ?r))"
      "?used ! i = zone_used_rect doc ?r (the (r_bbox ?r))"
      using i by simp_all
    show "zc_page (?res ! i) = u_page (?used ! i)
                  \<and> 0 \<le> u_page (?used ! i) \<and> u_page (?used ! i) < int (length doc)
                  \<and> zc_bbox (?res ! i) =
                      spec_ordered_box
                        (spec_rotation_table (rotation (doc ! nat (u_page (?used ! i))) mod 360)
                           (u_bbox (?used ! i))
                           (pl_width (doc ! nat (u_page (?used ! i))))
                           (pl_height (doc ! nat (u_page (?used ! i)))))"
      unfolding r using zone_page_num_range[OF assms(1), of ?r]
      by (simp add: zone_result_def zone_used_rect_def Let_def zone_page_def zone_rotation_def
                    transform_bbox_spec)
  qed
  show ?thesis
    apply (rule exI[of _ ?res], rule exI[of _ ?used], rule exI[of _ ?skp])
    apply (intro conjI run len1 len2 u s pt)
    done
qed

theorem extract_zones_content_partition_witness:
  "\<exists>res used skp.
     extract_zones_content
       [\<lparr>rotation = 0, fz_width = 600, fz_height = 800, pl_width = 600, pl_height = 800,
         page_words = [((5, 5, 15, 15), ''ZERO'')], clip_hash = (\<lambda>b. ''a1b2'')\<rparr>,
        \<lparr>rotation = 90, fz_width = 800, fz_height = 600, pl_width = 600, pl_height = 800,
         page_words = [((40, 440, 60, 460), ''ACME''), ((300, 300, 320, 320), ''far'')],
         clip_hash = (\<lambda>b. ''c3d4'')\<rparr>]
       [\<lparr>r_page = Some 1, r_bbox = Some (150, 150, 50, 50), r_paper = Some ''A4'',
         r_orientation = None\<rparr>,
        \<lparr>r_page = Some 7, r_bbox = Some (10, 10, 20, 20), r_paper = None, r_orientation = None\<rparr>,
        \<lparr>r_page = Some (- 3), r_bbox = Some (10, 10, 20, 20), r_paper = None,
         r_orientation = None\<rparr>,
        \<lparr>r_page = None, r_bbox = Some (0, 0, 700, 100), r_paper = None, r_orientation = None\<rparr>,
        \<lparr>r_page = Some 1, r_bbox = Some (0, 0, 700, 100), r_paper = None, r_orientation = None\<rparr>]
       = Inr (res, used, skp)
     \<and> res = [\<lparr>zc_page = 1, zc_bbox = (50, 450, 150, 550), zc_text = ''ACME'',
                zc_image_hash = ''c3d4''\<rparr>,
               \<lparr>zc_page = 1, zc_bbox = (10, 580, 20, 590), zc_text = [],
                zc_image_hash = ''c3d4''\<rparr>,
               \<lparr>zc_page = 0, zc_bbox = (10, 10, 20, 20), zc_text = ''ZERO'',
                zc_image_hash = ''a1b2''\<rparr>,
               \<lparr>zc_page = 1, zc_bbox = (0, - 100, 100, 600), zc_text = ''ACME'',
                zc_image_hash = ''c3d4''\<rparr>]
     \<and> map u_page used = [1, 1, 0, 1]
     \<and> map u_bbox used = [(50, 50, 150, 150), (10, 10, 20, 20), (10, 10, 20, 20), (0, 0, 700, 100)]
     \<and> map u_paper used = [Some ''A4'', None, None, None]
     \<and> map s_page skp = [0]
     \<and> map s_bbox skp = [(0, 0, 700, 100)]"
proof -
  let ?doc = "[\<lparr>rotation = 0, fz_width = 600, fz_height = 800, pl_width = 600, pl_height = 800,
         page_words = [((5, 5, 15, 15), ''ZERO'')], clip_hash = (\<lambda>b. ''a1b2'')\<rparr>,
        \<lparr>rotation = 90, fz_width = 800, fz_height = 600, pl_width = 600, pl_height = 800,
         page_words = [((40, 440, 60, 460), ''ACME''), ((300, 300, 320, 320), ''far'')],
         clip_hash = (\<lambda>b. ''c3d4'')\<rparr>]"
  let ?r1 = "\<lparr>r_page = Some 1, r_bbox = Some (150, 150, 50, 50), r_paper = Some ''A4'',
         r_orientation = None\<rparr>"
  let ?r2 = "\<lparr>r_page = Some 7, r_bbox = Some (10, 10, 20, 20), r_paper = None,
         r_orientation = None\<rparr>"
  let ?r3 = "\<lparr>r_page = Some (- 3), r_bbox = Some (10, 10, 20, 20), r_paper = None,
         r_orientation = None\<rparr>"
  let ?r4 = "\<lparr>r_page = None, r_bbox = Some (0, 0, 700, 100), r_paper = None,
         r_orientation = None\<rparr>"
  let ?r5 = "\<lparr>r_page = Some 1, r_bbox = Some (0, 0, 700, 100), r_paper = None,
         r_orientation = None\<rparr>"
  let ?rects = "[?r1, ?r2, ?r3, ?r4, ?r5]"
  have d: "?doc \<noteq> []"
    by simp
  have b: "\<forall>r\<in>set ?rects. r_bbox r \<noteq> None"
    by simp
  have k: "filter (spec_kept ?doc) ?rects = [?r1, ?r2, ?r3, ?r5]"
    by code_simp
  have n: "filter (\<lambda>r. \<not> spec_kept ?doc r) ?rects = [?r4]"
    by code_simp
  have pk: "map (spec_clamped_page (length ?doc)) [?r1, ?r2, ?r3, ?r5] = [1, 1, 0, 1]"
    by (simp add: spec_clamped_page_def)
  have bk: "map (\<lambda>r. spec_ordered_box (the (r_bbox r))) [?r1, ?r2, ?r3, ?r5]
              = [(50, 50, 150, 150), (10, 10, 20, 20), (10, 10, 20, 20), (0, 0, 700, 100)]"
    by (simp add: spec_ordered_box_def)
  have pn: "map (spec_clamped_page (length ?doc)) [?r4] = [0]"
    by (simp add: spec_clamped_page_def)
  have ev: "map_sum id fst (extract_zones_content ?doc ?rects)
              = Inr [\<lparr>zc_page = 1, zc_bbox = (50, 450, 150, 550), zc_text = ''ACME'',
                zc_image_hash = ''c3d4''\<rparr>,
               \<lparr>zc_page = 1, zc_bbox = (10, 580, 20, 590), zc_text = [],
                zc_image_hash = ''c3d4''\<rparr>,
               \<lparr>zc_page = 0, zc_bbox = (10, 10, 20, 20), zc_text = ''ZERO'',
                zc_image_hash = ''a1b2''\<rparr>,
               \<lparr>zc_page = 1, zc_bbox = (0, - 100, 100, 600), zc_text = ''ACME'',
                zc_image_hash = ''c3d4''\<rparr>]"
    by code_simp
  from extract_zones_content_partition [OF d b] obtain res used skp where
    h: "extract_zones_content ?doc ?rects = Inr (res, used, skp)"
       "list_all2
               (\<lambda>u r. u_page u = spec_clamped_page (length ?doc) r
                      \<and> u_bbox u = spec_ordered_box (the (r_bbox r))
                      \<and> u_paper u = r_paper r \<and> u_orientation u = r_orientation r)
               used (filter (spec_kept ?doc) ?rects)"
       "list_all2
               (\<lambda>s r. s_page s = spec_clamped_page (length ?doc) r \<and> s_bbox s = the (r_bbox r))
               skp (filter (\<lambda>r. \<not> spec_kept ?doc r) ?rects)"
    by blast
  have r1: "res = [\<lparr>zc_page = 1, zc_bbox = (50, 450, 150, 550), zc_text = ''ACME'',
                zc_image_hash = ''c3d4''\<rparr>,
               \<lparr>zc_page = 1, zc_bbox = (10, 580, 20, 590), zc_text = [],
                zc_image_hash = ''c3d4''\<rparr>,
               \<lparr>zc_page = 0, zc_bbox = (10, 10, 20, 20), zc_text = ''ZERO'',
                zc_image_hash = ''a1b2''\<rparr>,
               \<lparr>zc_page = 1, zc_bbox = (0, - 100, 100, 600), zc_text = ''ACME'',
                zc_image_hash = ''c3d4''\<rparr>]"
    using ev unfolding h(1) by simp
  have "list_all2 (\<lambda>u r. u_page u = spec_clamped_page (length ?doc) r) used [?r1, ?r2, ?r3, ?r5]"
    using h(2) unfolding k by (rule list_all2_mono) simp
  then have "map u_page used = map (spec_clamped_page (length ?doc)) [?r1, ?r2, ?r3, ?r5]"
    by (rule list_all2_map_eq)
  then have r2: "map u_page used = [1, 1, 0, 1]"
    unfolding pk .
  have "list_all2 (\<lambda>u r. u_bbox u = spec_ordered_box (the (r_bbox r))) used [?r1, ?r2, ?r3, ?r5]"
    using h(2) unfolding k by (rule list_all2_mono) simp
  then have "map u_bbox used = map (\<lambda>r. spec_ordered_box (the (r_bbox r))) [?r1, ?r2, ?r3, ?r5]"
    by (rule list_all2_map_eq)
  then have r3: "map u_bbox used
                   = [(50, 50, 150, 150), (10, 10, 20, 20), (10, 10, 20, 20), (0, 0, 700, 100)]"
    unfolding bk .
  have "list_all2 (\<lambda>u r. u_paper u = r_paper r) used [?r1, ?r2, ?r3, ?r5]"
    using h(2) unfolding k by (rule list_all2_mono) simp
  then have "map u_paper used = map r_paper [?r1, ?r2, ?r3, ?r5]"
    by (rule list_all2_map_eq)
  then have r4: "map u_paper used = [Some ''A4'', None, None, None]"
    by simp
  have "list_all2 (\<lambda>s r. s_page s = spec_clamped_page (length ?doc) r) skp [?r4]"
    using h(3) unfolding n by (rule list_all2_mono) simp
  then have "map s_page skp = map (spec_clamped_page (length ?doc)) [?r4]"
    by (rule list_all2_map_eq)
  then have r5: "map s_page skp = [0]"
    unfolding pn .
  have "list_all2 (\<lambda>s r. s_bbox s = the (r_bbox r)) skp [?r4]"
    using h(3) unfolding n by (rule list_all2_mono) simp
  then have "map s_bbox skp = map (\<lambda>r. the (r_bbox r)) [?r4]"
    by (rule list_all2_map_eq)
  then have r6: "map s_bbox skp = [(0, 0, 700, 100)]"
    by simp
  show ?thesis
    apply (rule exI[of _ res], rule exI[of _ used], rule exI[of _ skp])
    apply (intro conjI h(1) r1 r2 r3 r4 r5 r6)
    done
qed

subsection \<open>Template identifiers round-trip\<close>

lemma digit_char_props:
  assumes "d < 10"
  shows "is_digit (digit_char d)" and "digit_val (digit_char d) = d"
  using assms by (simp_all add: is_digit_def digit_val_def digit_char_def)

lemma show_nat_digits: "\<forall>c\<in>set (show_nat n). is_digit c"
proof (induction n rule: show_nat.induct)
  case (1 n)
  show ?case
  proof (cases "n < 10")
    case True
    then show ?thesis by (simp add: show_nat.simps[of n] digit_char_props)
  next
    case False
    with 1 show ?thesis by (simp add: show_nat.simps[of n] digit_char_props)
  qed
qed

lemma show_nat_nonempty: "show_nat n \<noteq> []"
  by (simp add: show_nat.simps[of n])

lemma digits_to_nat_show_nat: "digits_to_nat (show_nat n) = n"
proof (induction n rule: show_nat.induct)
  case (1 n)
  show ?case
  proof (cases "n < 10")
    case True
    then show ?thesis
      by (simp add: show_nat.simps[of n] digits_to_nat_def digit_char_props)
  next
    case False
    with 1 have "digits_to_nat (show_nat (n div 10)) = n div 10" by simp
    then show ?thesis using False
      by (simp add: show_nat.simps[of n] digits_to_nat_def digit_char_props)
  qed
qed

lemma digit_is_id_char: "is_digit c \<Longrightarrow> is_id_char c"
  by (simp add: is_digit_def is_id_char_def)

lemma digit_not_underscore: "is_digit c \<Longrightarrow> c \<noteq> CHR ''_''"
  by (auto simp: is_digit_def)

lemma takeWhile_all: "\<forall>x\<in>set xs. P x \<Longrightarrow> takeWhile P xs = xs"
  by simp

lemma dropWhile_all: "\<forall>x\<in>set xs. P x \<Longrightarrow> dropWhile P xs = []"
  by simp

lemma match_ver_tail_digits:
  assumes "ds \<noteq> []" and "\<forall>c\<in>set ds. is_digit c"
  shows "match_ver_tail (''_v'' @ ds) = Some (digits_to_nat ds)"
  using assms by (simp add: match_ver_tail_def Let_def takeWhile_all dropWhile_all)

lemma match_ver_tail_not_underscore:
  assumes "r = [] \<or> hd r \<noteq> CHR ''_''"
  shows "match_ver_tail r = None"
  using assms by (auto simp: match_ver_tail_def split: list.splits)

lemma match_ver_tail_suffix:
  assumes "\<forall>c\<in>set ds. is_digit c"
  shows "match_ver_tail (drop (Suc j) (''_v'' @ ds)) = None"
proof (cases j)
  case 0
  then show ?thesis by (simp add: match_ver_tail_not_underscore)
next
  case (Suc j')
  have "drop j' ds = [] \<or> hd (drop j' ds) \<noteq> CHR ''_''"
  proof (cases "drop j' ds")
    case Nil
    then show ?thesis by simp
  next
    case (Cons a as)
    then have "a \<in> set ds" by (metis in_set_dropD list.set_intros(1))
    with assms Cons show ?thesis by (auto dest: digit_not_underscore)
  qed
  with Suc show ?thesis by (simp add: match_ver_tail_not_underscore)
qed

lemma id_re_try_back:
  assumes "c \<noteq> []" and "ds \<noteq> []" and "\<forall>x\<in>set ds. is_digit x"
  shows "id_re_try (length c + j) (c @ ''_v'' @ ds) = Some (c, digits_to_nat ds)"
proof (induction j)
  case 0
  from assms(1) obtain k where k: "length c = Suc k" by (cases c) auto
  have "match_ver_tail (drop (Suc k) (c @ ''_v'' @ ds)) = Some (digits_to_nat ds)"
    using match_ver_tail_digits[OF assms(2,3)] k[symmetric] by simp
  then have "id_re_try (Suc k) (c @ ''_v'' @ ds) = Some (take (Suc k) (c @ ''_v'' @ ds), digits_to_nat ds)"
    by simp
  then show ?case using k[symmetric] by simp
next
  case (Suc j)
  have "drop (Suc (length c + j)) (c @ ''_v'' @ ds) = drop (Suc j) (''_v'' @ ds)"
    by simp
  then have "match_ver_tail (drop (Suc (length c + j)) (c @ ''_v'' @ ds)) = None"
    using match_ver_tail_suffix[OF assms(3)] by simp
  then have "id_re_try (Suc (length c + j)) (c @ ''_v'' @ ds) = id_re_try (length c + j) (c @ ''_v'' @ ds)"
    by simp
  with Suc show ?case by simp
qed

lemma id_re_match_versioned:
  assumes "c \<noteq> []" and "\<forall>x\<in>set c. is_id_char x" and "ds \<noteq> []" and "\<forall>x\<in>set ds. is_digit x"
  shows "id_re_match (c @ ''_v'' @ ds) = Some (c, digits_to_nat ds)"
proof -
  have "is_id_char (CHR ''_'')" "is_id_char (CHR ''v'')"
    by (simp_all add: is_id_char_def)
  then have "\<forall>x\<in>set (c @ ''_v'' @ ds). is_id_char x"
    using assms(2,4) by (auto simp: digit_is_id_char)
  then have tw: "takeWhile is_id_char (c @ ''_v'' @ ds) = c @ ''_v'' @ ds"
    by (rule takeWhile_all)
  have len: "length (c @ ''_v'' @ ds) = length c + (2 + length ds)"
    by simp
  show ?thesis
    unfolding id_re_match_def tw len by (rule id_re_try_back[OF assms(1,3,4)])
qed

lemma parse_template_id_versioned:
  assumes "c \<noteq> []" and "\<forall>x\<in>set c. is_id_char x"
  shows "parse_template_id (c @ ''_v'' @ show_nat n) = (c, Some n)"
  using id_re_match_versioned[OF assms show_nat_nonempty show_nat_digits]
  by (simp add: parse_template_id_def digits_to_nat_show_nat)

text \<open>
  C9. For every client identifier (a non-empty string) made of the letters \<open>A-Z\<close> and
  \<open>a-z\<close>, digits, \<open>_\<close> and \<open>-\<close>, whatever the disk holds, parsing the next version id
  gives back the client and the latest version number plus one; and parsing
  \<open><c>_v<n>\<close> gives \<open>(c, n)\<close> for every such client and every number \<open>n\<close>.
\<close>

theorem parse_next_version_id_roundtrip:
  assumes "c \<noteq> []" and "\<forall>x\<in>set c. is_id_char x"
  shows "parse_template_id (next_version_id listdir tm c)
           = (c, Some (latest_version_number listdir tm c + 1))
         \<and> parse_template_id (c @ ''_v'' @ show_nat n) = (c, Some n)"
  using parse_template_id_versioned[OF assms] by (simp add: next_version_id_def)

theorem parse_next_version_id_roundtrip_witness:
  "next_version_id
     (\<lambda>p. if p = ''templates/dev1/acme''
          then Some [''acme_v1.json'', ''notes.txt'', ''acme_v12.json'', ''acme_v2.json'']
          else None)
     \<lparr>device_id = ''dev1'', store_dir = ''templates''\<rparr> ''acme'' = ''acme_v13''
   \<and> parse_template_id ''acme_v13'' = (''acme'', Some 13)
   \<and> parse_template_id ''a_v1_v20'' = (''a_v1'', Some 20)"
proof -
  let ?disk = "\<lambda>p. if p = ''templates/dev1/acme''
          then Some [''acme_v1.json'', ''notes.txt'', ''acme_v12.json'', ''acme_v2.json'']
          else None"
  let ?tm = "\<lparr>device_id = ''dev1'', store_dir = ''templates''\<rparr>"
  have c: "''acme'' \<noteq> []" "\<forall>x\<in>set ''acme''. is_id_char x"
    by (simp_all add: is_id_char_def)
  have d: "''a_v1'' \<noteq> []" "\<forall>x\<in>set ''a_v1''. is_id_char x"
    by (simp_all add: is_id_char_def)
  have l: "latest_version_number ?disk ?tm ''acme'' = 12"
    by code_simp
  have n: "next_version_id ?disk ?tm ''acme'' = ''acme_v13''"
    by code_simp
  have s: "show_nat 20 = ''20''"
    by code_simp
  have "parse_template_id (next_version_id ?disk ?tm ''acme'')
          = (''acme'', Some (latest_version_number ?disk ?tm ''acme'' + 1))"
    using parse_next_version_id_roundtrip [OF c, of ?disk ?tm 0] by (rule conjunct1)
  then have a: "parse_template_id ''acme_v13'' = (''acme'', Some 13)"
    by (simp only: l n) simp
  have "parse_template_id (''a_v1'' @ ''_v'' @ show_nat 20) = (''a_v1'', Some 20)"
    using parse_next_version_id_roundtrip [OF d, of ?disk ?tm 20] by (rule conjunct2)
  then have b: "parse_template_id ''a_v1_v20'' = (''a_v1'', Some 20)"
    by (simp only: s) simp
  show ?thesis
    by (intro conjI n a b)
qed

subsection \<open>Sanitised client identifiers\<close>

lemma client_id_char_eq: "(\<lambda>ch. py_isalnum ch \<or> ch \<in> set ''_-'') = client_id_char"
  by (auto simp: fun_eq_iff client_id_char_def)

lemma safe_client_id_eq: "safe_client_id s = spec_safe_client_id (py_strip s)"
  unfolding safe_client_id_def spec_safe_client_id_def client_id_char_eq by (simp add: Let_def)

lemma spec_safe_client_id_nonempty: "spec_safe_client_id s \<noteq> []"
  by (simp add: spec_safe_client_id_def Let_def)

lemma spec_safe_client_id_chars: "c \<in> set (spec_safe_client_id s) \<Longrightarrow> client_id_char c"
proof -
  assume c: "c \<in> set (spec_safe_client_id s)"
  have t: "\<forall>c\<in>set ''template''. client_id_char c"
    by (simp add: client_id_char_def py_isalnum_def)
  show ?thesis
  proof (cases "filter client_id_char (py_replace_char (CHR '' '') (CHR ''_'') (py_lower s)) = []")
    case True
    then have "spec_safe_client_id s = ''template''"
      by (simp add: spec_safe_client_id_def)
    with c t show ?thesis by auto
  next
    case False
    then have "spec_safe_client_id s
               = filter client_id_char (py_replace_char (CHR '' '') (CHR ''_'') (py_lower s))"
      by (simp add: spec_safe_client_id_def)
    with c show ?thesis by simp
  qed
qed

text \<open>
  C10 as stated fails where the input has whitespace at an end: the code trims it, so
  \<open>" a"\<close> gives \<open>"a"\<close>, while the lower-cased input with its spaces replaced by
  underscores is \<open>"_a"\<close>.
\<close>

theorem safe_client_id_untrimmed_counterexample:
  "safe_client_id '' a'' = ''a'' \<and> spec_safe_client_id '' a'' = ''_a''"
  by code_simp

text \<open>
  C10, amended. For every client name the sanitised client identifier is not empty and
  holds only alphanumeric characters, \<open>_\<close> and \<open>-\<close>: it is the input with leading and
  trailing whitespace trimmed, then lower-cased, with its remaining spaces replaced by
  underscores and every character other than an alphanumeric, \<open>_\<close> or \<open>-\<close> removed, and
  it is \<open>"template"\<close> when that leaves nothing. For an input with no whitespace at either
  end the trimming changes nothing.
\<close>

theorem safe_client_id_nonempty:
  "safe_client_id s \<noteq> []
   \<and> safe_client_id s = spec_safe_client_id (py_strip s)
   \<and> (\<forall>c\<in>set (safe_client_id s). client_id_char c)
   \<and> (py_strip s = s \<longrightarrow> safe_client_id s = spec_safe_client_id s)
   \<and> (filter client_id_char (py_replace_char (CHR '' '') (CHR ''_'') (py_lower (py_strip s))) = []
        \<longrightarrow> safe_client_id s = ''template'')"
proof -
  have ne: "safe_client_id s \<noteq> []"
    by (simp add: safe_client_id_eq spec_safe_client_id_nonempty)
  have eq: "safe_client_id s = spec_safe_client_id (py_strip s)"
    by (rule safe_client_id_eq)
  have ch: "\<forall>c\<in>set (safe_client_id s). client_id_char c"
    by (simp add: safe_client_id_eq spec_safe_client_id_chars)
  have tr: "py_strip s = s \<longrightarrow> safe_client_id s = spec_safe_client_id s"
    by (simp add: safe_client_id_eq)
  have fb: "filter client_id_char (py_replace_char (CHR '' '') (CHR ''_'') (py_lower (py_strip s))) = []
        \<longrightarrow> safe_client_id s = ''template''"
    by (simp add: safe_client_id_eq spec_safe_client_id_def)
  show ?thesis
    by (intro conjI ne eq ch tr fb)
qed

theorem safe_client_id_nonempty_witness:
  "py_strip ''Acme Corp!'' = ''Acme Corp!''
   \<and> safe_client_id ''Acme Corp!'' = ''acme_corp''
   \<and> spec_safe_client_id ''Acme Corp!'' = ''acme_corp''
   \<and> safe_client_id '' ** '' = ''template''"
proof -
  have s: "py_strip ''Acme Corp!'' = ''Acme Corp!''"
    by code_simp
  have v: "spec_safe_client_id ''Acme Corp!'' = ''acme_corp''"
    by code_simp
  have f: "filter client_id_char
             (py_replace_char (CHR '' '') (CHR ''_'') (py_lower (py_strip '' ** ''))) = []"
    by code_simp
  have a: "safe_client_id ''Acme Corp!'' = spec_safe_client_id ''Acme Corp!''"
    using safe_client_id_nonempty [of "''Acme Corp!''"] s by blast
  have b: "safe_client_id '' ** '' = ''template''"
    using safe_client_id_nonempty [of "'' ** ''"] f by blast
  show ?thesis
    using s v a b by (intro conjI) (simp_all only:)
qed

end
